(* ===== verification/Prelude.thy ===== *)
theory Prelude
  imports Main "HOL-Library.State_Monad"
begin

text \<open>
  What the components share.  Every call that leaves the program (a cloud SDK, the Kubernetes
  API, a check behind the \<open>Check\<close> interface) is a computation of the library's state monad
  over an arbitrary world \<open>'w\<close>: it returns a value and the world after the call.  A Go error
  return is the sum type \<open>'a go\<close>, with the text of the error on the left.

  The lemmas are the small calculus the component proofs use: \<open>outcome_intros\<close> proves that
  every outcome of a computation satisfies a predicate, whatever the world answers, and
  \<open>run_simps\<close> computes a run once the answers are known.
\<close>

type_synonym go_error = string

type_synonym 'a go = "go_error + 'a"

text \<open>The errors of the Kubernetes API the code tells apart with \<open>apierrors.IsNotFound\<close>.\<close>

datatype api_error = NotFound string | OtherError string

fun IsNotFound :: "api_error \<Rightarrow> bool" where
  "IsNotFound (NotFound _) = True"
| "IsNotFound (OtherError _) = False"

fun error_text :: "api_error \<Rightarrow> string" where
  "error_text (NotFound e) = e"
| "error_text (OtherError e) = e"

named_theorems outcome_intros \<open>every outcome of a computation satisfies a predicate\<close>

named_theorems run_simps \<open>running a computation\<close>

subsection \<open>Outcomes\<close>

lemma outcome_return [outcome_intros]: "P x \<Longrightarrow> pred_state P (State_Monad.return x)"
  by (auto intro: pred_stateI)

lemma outcome_bind:
  assumes "pred_state Q m" and "\<And>x. Q x \<Longrightarrow> pred_state P (f x)"
  shows "pred_state P (State_Monad.bind m f)"
proof (rule pred_stateI)
  fix a s s'
  assume run: "run_state (State_Monad.bind m f) s = (a, s')"
  obtain x t where x: "run_state m s = (x, t)" by (cases "run_state m s")
  with assms(1) have "Q x" by (rule pred_stateD)
  then have "pred_state P (f x)" by (rule assms(2))
  moreover from run x have "run_state (f x) t = (a, s')" by simp
  ultimately show "P a" by (rule pred_stateD)
qed

lemma outcome_any: "pred_state (\<lambda>_. True) m"
  by (auto intro: pred_stateI)

lemma outcome_bind_any [outcome_intros]:
  "(\<And>x. pred_state P (f x)) \<Longrightarrow> pred_state P (State_Monad.bind m f)"
  by (rule outcome_bind [OF outcome_any])

lemma outcome_if [outcome_intros]:
  "(b \<Longrightarrow> pred_state P m) \<Longrightarrow> (\<not> b \<Longrightarrow> pred_state P n) \<Longrightarrow> pred_state P (if b then m else n)"
  by simp

lemma outcome_sum [outcome_intros]:
  "(\<And>e. x = Inl e \<Longrightarrow> pred_state P (f e)) \<Longrightarrow> (\<And>a. x = Inr a \<Longrightarrow> pred_state P (g a)) \<Longrightarrow>
   pred_state P (case x of Inl e \<Rightarrow> f e | Inr a \<Rightarrow> g a)"
  by (simp split: sum.split)

lemma outcome_option [outcome_intros]:
  "(x = None \<Longrightarrow> pred_state P m) \<Longrightarrow> (\<And>a. x = Some a \<Longrightarrow> pred_state P (g a)) \<Longrightarrow>
   pred_state P (case x of None \<Rightarrow> m | Some a \<Rightarrow> g a)"
  by (simp split: option.split)

lemma outcome_mono:
  "pred_state P m \<Longrightarrow> (\<And>x. P x \<Longrightarrow> Q x) \<Longrightarrow> pred_state Q m"
  by (auto intro!: pred_stateI dest: pred_stateD)

lemma outcome_run: "pred_state P m \<Longrightarrow> P (fst (run_state m w))"
  by (rule pred_state_run_state)

text \<open>The Go error-return idiom: \<open>if err != nil { return err }\<close>, else go on with the value.\<close>

definition on_success :: "('a \<Rightarrow> bool) \<Rightarrow> 'a go \<Rightarrow> bool" where
  "on_success P r \<longleftrightarrow> (case r of Inl _ \<Rightarrow> True | Inr x \<Rightarrow> P x)"

lemma on_success_simps [simp]: "on_success P (Inl e)" "on_success P (Inr x) \<longleftrightarrow> P x"
  by (simp_all add: on_success_def)

lemma outcome_any_success: "pred_state (on_success (\<lambda>_. True)) m"
  by (rule outcome_mono [OF outcome_any]) (simp add: on_success_def split: sum.split)

lemma outcome_bind_success:
  assumes "pred_state (on_success Q) m" and "\<And>x. Q x \<Longrightarrow> pred_state (on_success P) (f x)"
  shows "pred_state (on_success P)
    (State_Monad.bind m (\<lambda>r. case r of Inl err \<Rightarrow> State_Monad.return (Inl err) | Inr x \<Rightarrow> f x))"
  by (rule outcome_bind [OF assms(1)]) (auto intro: outcome_return assms(2) split: sum.split)

subsection \<open>Runs\<close>

lemma run_bind [run_simps]:
  "run_state m w = (a, w') \<Longrightarrow>
   run_state (State_Monad.bind m f) w = run_state (f a) w'"
  by simp

lemma fst_run_bind [run_simps]:
  "fst (run_state (State_Monad.bind m f) w) =
   fst (run_state (f (fst (run_state m w))) (snd (run_state m w)))"
  by (simp split: prod.split)

lemma snd_run_bind [run_simps]:
  "snd (run_state (State_Monad.bind m f) w) =
   snd (run_state (f (fst (run_state m w))) (snd (run_state m w)))"
  by (simp split: prod.split)

lemma bind_cong_fun:
  "(\<And>x. f x = g x) \<Longrightarrow> State_Monad.bind m f = State_Monad.bind m g"
  by presburger

subsection \<open>Invariants of runs\<close>

text \<open>A computation preserves a property of the world if it holds after every run it held before.\<close>

named_theorems preserve_intros \<open>a computation preserves a property of the world\<close>

definition preserves :: "('w \<Rightarrow> bool) \<Rightarrow> ('w, 'a) state \<Rightarrow> bool" where
  "preserves I m \<longleftrightarrow> (\<forall>w. I w \<longrightarrow> I (snd (run_state m w)))"

lemma preservesD: "preserves I m \<Longrightarrow> I w \<Longrightarrow> I (snd (run_state m w))"
  by (simp add: preserves_def)

lemma preserves_return [preserve_intros]: "preserves I (State_Monad.return x)"
  by (simp add: preserves_def)

lemma preserves_bind [preserve_intros]:
  "preserves I m \<Longrightarrow> (\<And>x. preserves I (f x)) \<Longrightarrow> preserves I (State_Monad.bind m f)"
  by (simp add: preserves_def snd_run_bind del: run_state_bind)

lemma preserves_if [preserve_intros]:
  "preserves I m \<Longrightarrow> preserves I n \<Longrightarrow> preserves I (if b then m else n)"
  by simp

lemma preserves_sum [preserve_intros]:
  "(\<And>e. preserves I (f e)) \<Longrightarrow> (\<And>a. preserves I (g a)) \<Longrightarrow>
   preserves I (case x of Inl e \<Rightarrow> f e | Inr a \<Rightarrow> g a)"
  by (simp split: sum.split)

lemma preserves_option [preserve_intros]:
  "preserves I m \<Longrightarrow> (\<And>a. preserves I (g a)) \<Longrightarrow>
   preserves I (case x of None \<Rightarrow> m | Some a \<Rightarrow> g a)"
  by (simp split: option.split)

text \<open>A computation is silent for a view of the world if it never changes it.\<close>

definition silent :: "('w \<Rightarrow> 'v) \<Rightarrow> ('w, 'a) state \<Rightarrow> bool" where
  "silent view m \<longleftrightarrow> (\<forall>w. view (snd (run_state m w)) = view w)"

lemma silentD: "silent view m \<Longrightarrow> view (snd (run_state m w)) = view w"
  by (simp add: silent_def)

lemma silent_preserves: "silent view m \<Longrightarrow> preserves (\<lambda>w. P (view w)) m"
  by (simp add: silent_def preserves_def)

lemma silent_iff_preserves: "silent view m \<longleftrightarrow> (\<forall>v. preserves (\<lambda>w. view w = v) m)"
  by (auto simp: silent_def preserves_def)

subsection \<open>Lists and folds\<close>

lemma foldl_invariant:
  assumes "P a" and "\<And>x y. P x \<Longrightarrow> y \<in> set ys \<Longrightarrow> P (f x y)"
  shows "P (foldl f a ys)"
  using assms by (induction ys arbitrary: a) auto

lemma nth_update_cases:
  "i < length xs \<Longrightarrow> xs[j := x] ! i = (if i = j then x else xs ! i)"
  by (simp add: nth_list_update)

lemma length6:
  assumes "length xs = 6"
  shows "xs = [xs ! 0, xs ! 1, xs ! 2, xs ! 3, xs ! 4, xs ! 5]"
proof (rule nth_equalityI)
  fix i assume "i < length xs"
  with assms consider "i = 0" | "i = 1" | "i = 2" | "i = 3" | "i = 4" | "i = 5" by linarith
  then show "xs ! i = [xs ! 0, xs ! 1, xs ! 2, xs ! 3, xs ! 4, xs ! 5] ! i"
    by cases simp_all
qed (simp add: assms)

end
