(* ===== verification/Report.thy ===== *)
theory Report
  imports Prelude
begin

text \<open>
  \<open>operator/internal/preflight/report.go\<close>: the result types of a preflight run and the two
  folds over them, \<open>StageStatus\<close> (results of a stage) and \<open>ComputeVerdict\<close> (stages of a
  report).  \<open>Status\<close> is a Go string type with four named values; any other string is a
  value of the type too, so it is a string here and the folds are defined on all of them.
  \<open>StageID\<close> is a Go \<open>int\<close>.  A nil and an empty \<open>Results\<close> slice are one empty list: every
  stage the program builds gets its results by appending to a nil slice or from a non-empty
  literal, so an empty non-nil slice does not occur.
\<close>

named_theorems status_simps \<open>the four named statuses are different\<close>

type_synonym Status = string

definition StatusGreen :: Status where "StatusGreen = ''green''"
definition StatusAmber :: Status where "StatusAmber = ''amber''"
definition StatusRed :: Status where "StatusRed = ''red''"
definition StatusSkipped :: Status where "StatusSkipped = ''skipped''"

lemmas status_defs = StatusGreen_def StatusAmber_def StatusRed_def StatusSkipped_def

lemma status_distinct [simp, status_simps]:
  "StatusGreen \<noteq> StatusAmber" "StatusAmber \<noteq> StatusGreen"
  "StatusGreen \<noteq> StatusRed" "StatusRed \<noteq> StatusGreen"
  "StatusGreen \<noteq> StatusSkipped" "StatusSkipped \<noteq> StatusGreen"
  "StatusAmber \<noteq> StatusRed" "StatusRed \<noteq> StatusAmber"
  "StatusAmber \<noteq> StatusSkipped" "StatusSkipped \<noteq> StatusAmber"
  "StatusRed \<noteq> StatusSkipped" "StatusSkipped \<noteq> StatusRed"
  by (simp_all add: status_defs)

type_synonym StageID = int

definition StageIdentity :: StageID where "StageIdentity = 0"
definition StageKMS :: StageID where "StageKMS = 1"
definition StageSecrets :: StageID where "StageSecrets = 2"
definition StageNetwork :: StageID where "StageNetwork = 3"
definition StageKubernetes :: StageID where "StageKubernetes = 4"
definition StageWorkload :: StageID where "StageWorkload = 5"

lemmas stage_id_defs = StageIdentity_def StageKMS_def StageSecrets_def StageNetwork_def
  StageKubernetes_def StageWorkload_def

record CheckResult =
  crID :: string
  crStatus :: Status
  crMessage :: string
  crRemediation :: string

record Stage =
  stID :: StageID
  stName :: string
  stStatus :: Status
  stResults :: "CheckResult list"
  stBlocking :: bool
  stInformational :: bool

record Report =
  rpVerdict :: Status
  rpStages :: "Stage list"

subsection \<open>The folds\<close>

definition status_rank :: "Status \<Rightarrow> nat" where
  "status_rank s =
     (if s = StatusRed then 3
      else if s = StatusAmber then 2
      else if s = StatusGreen then 1
      else 0)"

definition worse :: "Status \<Rightarrow> Status \<Rightarrow> Status" where
  "worse a b =
     (if status_rank a \<ge> status_rank b
      then (if a = StatusSkipped then StatusGreen else a)
      else if b = StatusSkipped then StatusGreen else b)"

definition StageStatus :: "CheckResult list \<Rightarrow> Status" where
  "StageStatus results = foldl (\<lambda>out r. worse out (crStatus r)) StatusGreen results"

definition effective_status :: "Stage \<Rightarrow> Status" where
  "effective_status s =
     (if \<not> stBlocking s \<and> stStatus s = StatusRed then StatusAmber else stStatus s)"

definition ComputeVerdict :: "Report \<Rightarrow> Status" where
  "ComputeVerdict r =
     foldl (\<lambda>out s. worse out (effective_status s)) StatusGreen (rpStages r)"

subsection \<open>What the folds compute\<close>

definition severities :: "Status set" where
  "severities = {StatusGreen, StatusAmber, StatusRed}"

lemma in_severities [simp]:
  "StatusGreen \<in> severities" "StatusAmber \<in> severities" "StatusRed \<in> severities"
  "StatusSkipped \<notin> severities"
  by (simp_all add: severities_def)

lemma severitiesE [elim?]:
  assumes "s \<in> severities"
  obtains "s = StatusGreen" | "s = StatusAmber" | "s = StatusRed"
  using assms by (auto simp: severities_def)

text \<open>The reference reading of a severity fold: the worst of the listed statuses.\<close>

definition worst :: "Status list \<Rightarrow> Status" where
  "worst ss = (if StatusRed \<in> set ss then StatusRed
               else if StatusAmber \<in> set ss then StatusAmber else StatusGreen)"

lemma worst_simps [simp]:
  "worst [] = StatusGreen"
  "worst ss \<in> severities"
  "worst ss \<noteq> StatusSkipped"
  by (simp_all add: worst_def)

lemma worst_red_iff [simp]: "worst ss = StatusRed \<longleftrightarrow> StatusRed \<in> set ss"
  by (simp add: worst_def)

lemma worst_green_iff: "worst ss = StatusGreen \<longleftrightarrow> StatusRed \<notin> set ss \<and> StatusAmber \<notin> set ss"
  by (simp add: worst_def)

lemma worse_worst: "a \<in> severities \<Longrightarrow> worse a b = worst [a, b]"
  by (erule severitiesE) (auto simp: worse_def status_rank_def worst_def)

lemma worst_worst_Cons: "a \<in> severities \<Longrightarrow> worst (worst [a, b] # ss) = worst (a # b # ss)"
  by (erule severitiesE) (auto simp: worst_def)

lemma foldl_worse:
  "a \<in> severities \<Longrightarrow> foldl (\<lambda>out x. worse out (f x)) a xs = worst (a # map f xs)"
proof (induction xs arbitrary: a)
  case Nil
  then show ?case by (auto simp: worst_def elim: severitiesE)
next
  case (Cons x xs)
  then have "foldl (\<lambda>out x. worse out (f x)) a (x # xs) = worst (worst [a, f x] # map f xs)"
    by (simp add: worse_worst)
  also have "\<dots> = worst (a # map f (x # xs))"
    using Cons.prems by (simp add: worst_worst_Cons)
  finally show ?case .
qed

lemma worst_green_Cons [simp]: "worst (StatusGreen # ss) = worst ss"
  by (simp add: worst_def)

lemma StageStatus_worst: "StageStatus rs = worst (map crStatus rs)"
  by (simp add: StageStatus_def foldl_worse)

lemma ComputeVerdict_worst: "ComputeVerdict r = worst (map effective_status (rpStages r))"
  by (simp add: ComputeVerdict_def foldl_worse)

lemma StageStatus_severity [simp]:
  "StageStatus rs \<in> severities" "StageStatus rs \<noteq> StatusSkipped"
  by (simp_all add: StageStatus_worst)

lemma ComputeVerdict_severity [simp]: "ComputeVerdict r \<in> severities"
  by (simp add: ComputeVerdict_worst)

lemma effective_red_iff: "effective_status s = StatusRed \<longleftrightarrow> stBlocking s \<and> stStatus s = StatusRed"
  by (auto simp: effective_status_def)

lemma effective_amber_iff:
  "effective_status s = StatusAmber \<longleftrightarrow>
     stStatus s = StatusAmber \<or> (stStatus s = StatusRed \<and> \<not> stBlocking s)"
  by (auto simp: effective_status_def)

lemma StageStatus_cases:
  "StageStatus rs =
     (if \<exists>r \<in> set rs. crStatus r = StatusRed then StatusRed
      else if \<exists>r \<in> set rs. crStatus r = StatusAmber then StatusAmber else StatusGreen)"
proof -
  have "s \<in> set (map crStatus rs) \<longleftrightarrow> (\<exists>r \<in> set rs. crStatus r = s)" for s
    by auto
  then show ?thesis by (simp only: StageStatus_worst worst_def)
qed

subsection \<open>Properties\<close>

text \<open>Property C31: a stage is red if any of its results is red, else amber if any is amber, else
  green; results carrying any other string do not change it.  The fold of the code, which
  compares ranks pairwise from the left, computes exactly this, whatever the order.\<close>

theorem StageStatus_is_worst_result:
  "StageStatus results =
     (if StatusRed \<in> crStatus ` set results then StatusRed
      else if StatusAmber \<in> crStatus ` set results then StatusAmber
      else StatusGreen)"
  by (simp add: StageStatus_worst worst_def)

text \<open>Property C14: the verdict is red exactly if some blocking stage is red; it is amber exactly
  if no blocking stage is red and some stage, blocking or not, is amber or is a non-blocking
  red; otherwise it is green.  Skipped stages never change it.\<close>

theorem ComputeVerdict_gates_on_blocking_red:
  "ComputeVerdict r =
     (if \<exists>s \<in> set (rpStages r). stBlocking s \<and> stStatus s = StatusRed then StatusRed
      else if \<exists>s \<in> set (rpStages r). stStatus s = StatusAmber \<or>
                (\<not> stBlocking s \<and> stStatus s = StatusRed) then StatusAmber
      else StatusGreen)"
proof -
  have red: "StatusRed \<in> effective_status ` set (rpStages r) \<longleftrightarrow>
      (\<exists>s \<in> set (rpStages r). stBlocking s \<and> stStatus s = StatusRed)"
    by (auto simp: effective_red_iff image_iff eq_commute [of StatusRed])
  have amber: "StatusAmber \<in> effective_status ` set (rpStages r) \<longleftrightarrow>
      (\<exists>s \<in> set (rpStages r). stStatus s = StatusAmber \<or>
         (\<not> stBlocking s \<and> stStatus s = StatusRed))"
    by (auto simp: effective_amber_iff image_iff eq_commute [of StatusAmber])
  show ?thesis
    unfolding ComputeVerdict_worst worst_def set_map red amber by presburger
qed

end
