(* ===== verification/Runner.thy ===== *)
theory Runner
  imports Report
begin

text \<open>
  \<open>operator/internal/preflight/check.go\<close>: the \<open>Check\<close> interface, \<open>NewRunner\<close>, which buckets
  the checks by stage, and the run of the six stages with its short circuit.  Running a check
  is a computation over the world, so a check that is not executed is visible: it neither sees
  nor changes the world.

  After the model come an abstract gate (a stage list that stops at the first blocking red) and
  the refinement lemma that the loop of \<open>run\<close>, with its pre-allocated report and its
  \<open>shortCircuited\<close> flag, implements it.  The properties are read off the gate.
\<close>

record 'w Check =
  ckStage :: StageID
  ckName :: string
  ckRun :: "('w, CheckResult list) state"

record 'w Runner =
  byStage :: "'w Check list list"

definition stageNames :: "string list" where
  "stageNames =
     [''identity & access'', ''kms / encryption keys'', ''secrets backend'',
      ''network / egress'', ''kubernetes infra'', ''workload readiness'']"

definition add_check :: "'w Runner \<Rightarrow> 'w Check \<Rightarrow> 'w Runner" where
  "add_check r c =
     (let sid = ckStage c in
      if sid < 0 \<or> sid \<ge> int (length (byStage r)) then r
      else r\<lparr>byStage := (byStage r)[nat sid := byStage r ! nat sid @ [c]]\<rparr>)"

definition NewRunner :: "'w Check list \<Rightarrow> 'w Runner" where
  "NewRunner checks = foldl add_check \<lparr>byStage = replicate 6 []\<rparr> checks"

fun run_checks :: "'w Check list \<Rightarrow> CheckResult list \<Rightarrow> ('w, CheckResult list) state" where
  "run_checks [] results = State_Monad.return results"
| "run_checks (c # cs) results = do {
     rs \<leftarrow> ckRun c;
     run_checks cs (results @ rs)
   }"

definition zero_stage :: Stage where
  "zero_stage = \<lparr>stID = 0, stName = [], stStatus = [], stResults = [],
     stBlocking = False, stInformational = False\<rparr>"

definition stage_header :: "bool list \<Rightarrow> nat \<Rightarrow> Stage" where
  "stage_header informational sid =
     (let blocking = \<not> informational ! sid in
      zero_stage\<lparr>stID := int sid, stName := stageNames ! sid,
        stBlocking := blocking, stInformational := \<not> blocking\<rparr>)"

fun run_stages ::
    "'w Runner \<Rightarrow> bool list \<Rightarrow> nat list \<Rightarrow> bool \<Rightarrow> Stage list \<Rightarrow> ('w, Stage list) state" where
  "run_stages r informational [] shortCircuited stages = State_Monad.return stages"
| "run_stages r informational (sid # sids) shortCircuited stages =
     (let stage = stage_header informational sid in
      if shortCircuited then
        run_stages r informational sids shortCircuited
          (stages[sid := stage\<lparr>stStatus := StatusSkipped, stResults := []\<rparr>])
      else do {
        results \<leftarrow> run_checks (byStage r ! sid) [];
        let stage = stage\<lparr>stResults := results, stStatus := StageStatus results\<rparr>;
        run_stages r informational sids (stBlocking stage \<and> stStatus stage = StatusRed)
          (stages[sid := stage])
      })"

definition run_report :: "'w Runner \<Rightarrow> bool list \<Rightarrow> ('w, Report) state" where
  "run_report r informational = do {
     stages \<leftarrow> run_stages r informational [0..<6] False (replicate 6 zero_stage);
     let report = \<lparr>rpVerdict = [], rpStages = stages\<rparr>;
     State_Monad.return (report\<lparr>rpVerdict := ComputeVerdict report\<rparr>)
   }"

definition Run :: "'w Runner \<Rightarrow> ('w, Report) state" where
  "Run r = run_report r (replicate 6 False)"

definition mark_informational :: "bool list \<Rightarrow> StageID \<Rightarrow> bool list" where
  "mark_informational informational sid =
     (if sid \<ge> 0 \<and> sid < int (length informational) then informational[nat sid := True]
      else informational)"

definition RunWithProvisionedStages :: "'w Runner \<Rightarrow> StageID list \<Rightarrow> ('w, Report) state" where
  "RunWithProvisionedStages r provisioned =
     run_report r (foldl mark_informational (replicate 6 False) provisioned)"

subsection \<open>Bucketing\<close>

lemma length_byStage_add_check [simp]:
  "length (byStage (add_check r c)) = length (byStage r)"
  by (simp add: add_check_def Let_def)

lemma add_check_bucket:
  "i < length (byStage r) \<Longrightarrow>
   byStage (add_check r c) ! i = byStage r ! i @ (if ckStage c = int i then [c] else [])"
  by (auto simp: add_check_def Let_def nth_list_update)

lemma foldl_add_check:
  "length (byStage (foldl add_check r cs)) = length (byStage r) \<and>
   (i < length (byStage r) \<longrightarrow>
    byStage (foldl add_check r cs) ! i = byStage r ! i @ filter (\<lambda>c. ckStage c = int i) cs)"
  by (induction cs arbitrary: r) (auto simp: add_check_bucket)

lemma length_NewRunner [simp]: "length (byStage (NewRunner cs)) = 6"
  using foldl_add_check [of "\<lparr>byStage = replicate 6 []\<rparr>" cs] by (simp add: NewRunner_def)

lemma NewRunner_bucket:
  "i < 6 \<Longrightarrow> byStage (NewRunner cs) ! i = filter (\<lambda>c. ckStage c = int i) cs"
  using foldl_add_check [of "\<lparr>byStage = replicate 6 []\<rparr>" cs i] by (simp add: NewRunner_def)

subsection \<open>The abstract gate\<close>

text \<open>
  A stage is its blocking flag and the computation of its results.  The gate runs the stages in
  order; after a blocking red it runs nothing and reports every later stage as skipped.
\<close>

type_synonym outcome = "Status \<times> CheckResult list"

fun gate :: "(bool \<times> ('w, CheckResult list) state) list \<Rightarrow> ('w, outcome list) state" where
  "gate [] = State_Monad.return []"
| "gate ((blocking, m) # ss) = do {
     rs \<leftarrow> m;
     rest \<leftarrow> (if blocking \<and> StageStatus rs = StatusRed
              then State_Monad.return (map (\<lambda>_. (StatusSkipped, [])) ss) else gate ss);
     State_Monad.return ((StageStatus rs, rs) # rest)
   }"

definition dress :: "bool list \<Rightarrow> nat \<Rightarrow> outcome \<Rightarrow> Stage" where
  "dress informational sid oc =
     (stage_header informational sid)\<lparr>stStatus := fst oc, stResults := snd oc\<rparr>"

definition stage_inputs ::
    "'w Runner \<Rightarrow> bool list \<Rightarrow> nat list \<Rightarrow> (bool \<times> ('w, CheckResult list) state) list" where
  "stage_inputs r informational sids =
     map (\<lambda>sid. (\<not> informational ! sid, run_checks (byStage r ! sid) [])) sids"

definition place :: "bool list \<Rightarrow> nat list \<Rightarrow> outcome list \<Rightarrow> Stage list \<Rightarrow> Stage list" where
  "place informational sids ocs stages =
     foldl (\<lambda>st (sid, oc). st[sid := dress informational sid oc]) stages (zip sids ocs)"

lemma place_Cons [simp]:
  "place info (sid # sids) (oc # ocs) stages =
   place info sids ocs (stages[sid := dress info sid oc])"
  by (simp add: place_def)

lemma place_Nil [simp]: "place info [] ocs stages = stages"
  by (simp add: place_def)

lemma stage_header_blocking [simp]: "stBlocking (stage_header info sid) = (\<not> info ! sid)"
  by (simp add: stage_header_def Let_def)

lemma run_stages_skipped:
  "run_stages r info sids True stages =
   State_Monad.return (place info sids (map (\<lambda>_. (StatusSkipped, [])) sids) stages)"
  by (induction sids arbitrary: stages) (simp_all add: Let_def dress_def)

lemma run_stages_gate:
  "run_stages r info sids False stages = do {
     ocs \<leftarrow> gate (stage_inputs r info sids);
     State_Monad.return (place info sids ocs stages)
   }"
proof (induction sids arbitrary: stages)
  case Nil
  then show ?case by (simp add: stage_inputs_def)
next
  case (Cons sid sids)
  have dress: "(stage_header info sid)\<lparr>stResults := rs, stStatus := s\<rparr> = dress info sid (s, rs)"
    for rs s by (simp add: dress_def)
  have skip: "map (\<lambda>_. (StatusSkipped, []) :: outcome) (stage_inputs r info sids) =
      map (\<lambda>_. (StatusSkipped, [])) sids"
    by (simp add: stage_inputs_def)
  show ?case
  proof (rule state_ext)
    fix w
    obtain rs w' where run: "run_state (run_checks (byStage r ! sid) []) w = (rs, w')"
      by (cases "run_state (run_checks (byStage r ! sid) []) w")
    have inputs: "stage_inputs r info (sid # sids) =
        (\<not> info ! sid, run_checks (byStage r ! sid) []) # stage_inputs r info sids"
      by (simp add: stage_inputs_def)
    consider (halt) "\<not> info ! sid" "StageStatus rs = StatusRed"
      | (informational) "info ! sid" | (clear) "StageStatus rs \<noteq> StatusRed" by blast
    then show "run_state (run_stages r info (sid # sids) False stages) w =
      run_state (do {
        ocs \<leftarrow> gate (stage_inputs r info (sid # sids));
        State_Monad.return (place info (sid # sids) ocs stages)
      }) w"
    proof cases
      case halt
      with run skip inputs show ?thesis by (simp add: Let_def dress run_stages_skipped)
    next
      case informational
      with run inputs show ?thesis by (simp add: Let_def dress Cons.IH split: prod.split)
    next
      case clear
      with run inputs show ?thesis by (simp add: Let_def dress Cons.IH split: prod.split)
    qed
  qed
qed

text \<open>What the gate leaves behind: how many outcomes, and which of them are skips.\<close>

definition halted :: "(bool \<times> 'a) list \<Rightarrow> outcome list \<Rightarrow> bool" where
  "halted ss ocs \<longleftrightarrow> (\<exists>i < length ss. i < length ocs \<and> fst (ss ! i) \<and> fst (ocs ! i) = StatusRed)"

lemma halted_Nil [simp]: "halted [] ocs = False"
  by (simp add: halted_def)

lemma halted_Cons [simp]:
  "halted ((b, m) # ss) (oc # ocs) \<longleftrightarrow> (b \<and> fst oc = StatusRed) \<or> halted ss ocs"
  by (auto simp: halted_def less_Suc_eq_0_disj nth_Cons')

definition skipped_outcome :: outcome where
  "skipped_outcome = (StatusSkipped, [])"

lemma gate_length: "length (fst (run_state (gate ss) w)) = length ss"
  proof (induction ss arbitrary: w)
  case (Cons x ss)
  then show ?case by (cases x) (simp add: run_simps del: run_state_bind)
qed simp

lemma gate_append:
  "run_state (gate (xs @ ys)) w =
     (let (ocs, w') = run_state (gate xs) w in
      if halted xs ocs then (ocs @ map (\<lambda>_. skipped_outcome) ys, w')
      else let (ocs', w'') = run_state (gate ys) w' in (ocs @ ocs', w''))"
proof (induction xs arbitrary: w)
  case Nil
  then show ?case by simp
next
  case (Cons x xs)
  obtain b m where x: "x = (b, m)" by (cases x)
  obtain rs w1 where m: "run_state m w = (rs, w1)" by (cases "run_state m w")
  show ?case
    by (cases "b \<and> StageStatus rs = StatusRed")
      (auto simp: x m Cons.IH Let_def skipped_outcome_def split: prod.split)
qed

lemma gate_single:
  "run_state (gate [(b, m)]) w =
     (let (rs, w') = run_state m w in ([(StageStatus rs, rs)], w'))"
  by (auto simp: Let_def split: prod.split)

text \<open>The outcome at one position: skipped exactly when a blocking red stands before it.\<close>

lemma gate_nth:
  assumes "i < length ss"
  shows "let ocs = fst (run_state (gate ss) w) in
     (if halted (take i ss) ocs then ocs ! i = skipped_outcome
      else \<exists>w'. ocs ! i = (let rs = fst (run_state (snd (ss ! i)) w') in (StageStatus rs, rs)))"
proof -
  obtain b m where bm: "ss ! i = (b, m)" by (cases "ss ! i")
  define xs ys where "xs = take i ss" and "ys = drop (Suc i) ss"
  have ss: "ss = xs @ [(b, m)] @ ys"
    using id_take_nth_drop [OF assms] bm by (simp add: xs_def ys_def)
  have lx: "length xs = i" using assms by (simp add: xs_def)
  obtain o1 w1 where g1: "run_state (gate xs) w = (o1, w1)" by (cases "run_state (gate xs) w")
  have l1: "length o1 = i" using gate_length [of xs w] g1 lx by simp
  obtain rs w2 where m: "run_state m w1 = (rs, w2)" by (cases "run_state m w1")
  have h: "halted xs (o1 @ zs) = halted xs o1" for zs
    using lx l1 by (auto simp: halted_def nth_append)
  show ?thesis
  proof (cases "halted xs o1")
    case True
    then have "fst (run_state (gate ss) w) = o1 @ map (\<lambda>_. skipped_outcome) ([(b, m)] @ ys)"
      unfolding ss by (subst gate_append) (simp add: g1)
    with True l1 h show ?thesis by (simp add: Let_def nth_append flip: xs_def)
  next
    case False
    obtain o2 w3 where g2: "run_state (gate ((b, m) # ys)) w1 = (o2, w3)"
      by (cases "run_state (gate ((b, m) # ys)) w1")
    then have o2: "o2 ! 0 = (StageStatus rs, rs)"
      by (auto simp: m split: prod.splits)
    from False g1 g2 have "fst (run_state (gate ss) w) = o1 @ o2"
      unfolding ss by (subst gate_append) (simp del: gate.simps)
    with False l1 h o2 bm m show ?thesis
      by (auto simp: Let_def nth_append intro!: exI [of _ w1] simp flip: xs_def)
  qed
qed

subsection \<open>The report of a run\<close>

definition run_outcomes :: "'w Runner \<Rightarrow> bool list \<Rightarrow> ('w, outcome list) state" where
  "run_outcomes r info = gate (stage_inputs r info [0..<6])"

definition report_of :: "bool list \<Rightarrow> outcome list \<Rightarrow> Report" where
  "report_of info ocs =
     (let stages = map (\<lambda>i. dress info i (ocs ! i)) [0..<6]
      in \<lparr>rpVerdict = worst (map effective_status stages), rpStages = stages\<rparr>)"

lemma upt6: "[0..<6] = [0, 1, 2, 3, 4, 5::nat]"
  by (simp add: upt_rec)

lemma place_all:
  assumes "length ocs = 6"
  shows "place info [0..<6] ocs (replicate 6 zero_stage) =
    map (\<lambda>i. dress info i (ocs ! i)) [0..<6]"
proof -
  have "place info [0..<6] [ocs ! 0, ocs ! 1, ocs ! 2, ocs ! 3, ocs ! 4, ocs ! 5]
      (replicate 6 zero_stage) = map (\<lambda>i. dress info i (ocs ! i)) [0..<6]"
    by (simp add: upt6 numeral_eq_Suc)
  with length6 [OF assms] show ?thesis by simp
qed

lemma length_run_outcomes [simp]: "length (fst (run_state (run_outcomes r info) w)) = 6"
  by (simp add: run_outcomes_def gate_length stage_inputs_def)

lemma run_report_refines:
  "run_state (run_report r info) w =
     (let (ocs, w') = run_state (run_outcomes r info) w in (report_of info ocs, w'))"
proof -
  obtain ocs w' where ocs: "run_state (run_outcomes r info) w = (ocs, w')"
    by (cases "run_state (run_outcomes r info) w")
  with length_run_outcomes [of r info w] have "length ocs = 6" by simp
  with ocs show ?thesis
    by (simp add: run_report_def run_stages_gate Let_def place_all ComputeVerdict_worst
        report_of_def flip: run_outcomes_def)
qed

lemma report_of_stage [simp]:
  "i < 6 \<Longrightarrow> rpStages (report_of info ocs) ! i = dress info i (ocs ! i)"
  by (simp add: report_of_def Let_def)

lemma length_report_of [simp]: "length (rpStages (report_of info ocs)) = 6"
  by (simp add: report_of_def Let_def)

lemma dress_simps [simp]:
  "stID (dress info i oc) = int i" "stName (dress info i oc) = stageNames ! i"
  "stStatus (dress info i oc) = fst oc" "stResults (dress info i oc) = snd oc"
  "stBlocking (dress info i oc) = (\<not> info ! i)" "stInformational (dress info i oc) = info ! i"
  by (simp_all add: dress_def stage_header_def Let_def)

lemma run_report_run:
  "fst (run_state (run_report r info) w) = report_of info (fst (run_state (run_outcomes r info) w))"
  "snd (run_state (run_report r info) w) = snd (run_state (run_outcomes r info) w)"
  by (simp_all add: run_report_refines Let_def split: prod.split)


abbreviation outcomes :: "'w Runner \<Rightarrow> bool list \<Rightarrow> 'w \<Rightarrow> outcome list" where
  "outcomes r info w \<equiv> fst (run_state (run_outcomes r info) w)"

lemma halted_stage_inputs:
  assumes "i \<le> 6" and "length ocs = 6"
  shows "halted (take i (stage_inputs r info [0..<6])) ocs \<longleftrightarrow>
    (\<exists>j<i. \<not> info ! j \<and> fst (ocs ! j) = StatusRed)"
  using assms by (auto simp: halted_def stage_inputs_def)

lemma outcome_source:
  assumes "i < 6"
  shows "if \<exists>j<i. \<not> info ! j \<and> fst (outcomes r info w ! j) = StatusRed
    then outcomes r info w ! i = skipped_outcome
    else \<exists>w'. outcomes r info w ! i =
      (let rs = fst (run_state (run_checks (byStage r ! i) []) w') in (StageStatus rs, rs))"
proof -
  have "length (stage_inputs r info [0..<6]) = 6" by (simp add: stage_inputs_def)
  with assms have i: "i < length (stage_inputs r info [0..<6])" by simp
  have m: "snd (stage_inputs r info [0..<6] ! i) = run_checks (byStage r ! i) []"
    using assms by (simp add: stage_inputs_def)
  have h: "halted (take i (stage_inputs r info [0..<6])) (outcomes r info w) \<longleftrightarrow>
      (\<exists>j<i. \<not> info ! j \<and> fst (outcomes r info w ! j) = StatusRed)"
    using assms by (simp add: halted_stage_inputs)
  show ?thesis
    using gate_nth [OF i, of w]
    unfolding run_outcomes_def [symmetric] Let_def [of "outcomes r info w"] h m .
qed

lemma outcome_at:
  assumes "i < 6"
  shows "if \<exists>j<i. \<not> info ! j \<and> fst (outcomes r info w ! j) = StatusRed
    then fst (outcomes r info w ! i) = StatusSkipped \<and> snd (outcomes r info w ! i) = []
    else fst (outcomes r info w ! i) = StageStatus (snd (outcomes r info w ! i))"
  using outcome_source [OF assms, of info r w]
  by (auto simp: skipped_outcome_def Let_def split: if_splits)

lemma outcome_skipped_iff:
  assumes "i < 6"
  shows "fst (outcomes r info w ! i) = StatusSkipped \<longleftrightarrow>
    (\<exists>j<i. \<not> info ! j \<and> fst (outcomes r info w ! j) = StatusRed)"
  using outcome_at [OF assms, of info r w]
  by (cases "\<exists>j<i. \<not> info ! j \<and> fst (outcomes r info w ! j) = StatusRed") simp_all

text \<open>Without a red the flags do not matter: any two gates over the same computations agree.\<close>

lemma gate_flags_irrelevant:
  assumes "StatusRed \<notin> fst ` set (fst (run_state (gate ss) w))" and "map snd ss = map snd ss'"
  shows "run_state (gate ss') w = run_state (gate ss) w"
  using assms
proof (induction ss arbitrary: ss' w)
  case Nil
  then show ?case by simp
next
  case (Cons x ss)
  obtain b m where x: "x = (b, m)" by (cases x)
  with Cons.prems(2) have "map snd ss' = m # map snd ss" by simp
  then obtain y tl where y: "ss' = y # tl" "snd y = m" "map snd tl = map snd ss"
    by (rule map_eq_Cons_D [THEN exE]) blast
  obtain b' where ss': "ss' = (b', m) # tl" using y by (cases y) simp
  obtain rs w1 where m: "run_state m w = (rs, w1)" by (cases "run_state m w")
  have "StageStatus rs \<in> fst ` set (fst (run_state (gate (x # ss)) w))"
    by (simp add: x m split: prod.split)
  with Cons.prems(1) have clear: "StageStatus rs \<noteq> StatusRed" by metis
  then have "fst (run_state (gate (x # ss)) w) = (StageStatus rs, rs) # fst (run_state (gate ss) w1)"
    by (simp add: x m split: prod.split)
  with Cons.prems(1) have "StatusRed \<notin> fst ` set (fst (run_state (gate ss) w1))" by simp
  from Cons.IH [OF this y(3) [symmetric]] clear show ?case by (simp add: x ss' m)
qed

text \<open>A blocking red at position \<open>k\<close> makes everything after \<open>k\<close> irrelevant.\<close>

lemma gate_halted_prefix:
  assumes "run_state (gate (xs @ ys)) w = (ocs, w')" and "k < length xs"
    and "fst (xs ! k)" and "fst (ocs ! k) = StatusRed" and "length ys' = length ys"
  shows "run_state (gate (xs @ ys')) w = (ocs, w')"
proof -
  obtain o1 w1 where g1: "run_state (gate xs) w = (o1, w1)" by (cases "run_state (gate xs) w")
  then have l1: "length o1 = length xs" using gate_length [of xs w] by simp
  have "o1 ! k = ocs ! k"
    using assms(1,2) l1 by (auto simp: gate_append g1 Let_def nth_append split: prod.splits if_splits)
  then have h: "halted xs o1" using assms(2-4) l1 by (auto simp: halted_def)
  then show ?thesis
    using assms(1,5) by (simp add: gate_append g1 map_replicate_const)
qed

text \<open>A stage of the report that was not skipped holds what its own checks returned.\<close>

lemma report_stage_source:
  assumes "i < 6" and "pred_state P (run_checks (byStage r ! i) [])"
    and "stStatus (rpStages (fst (run_state (run_report r info) w)) ! i) \<noteq> StatusSkipped"
  shows "P (stResults (rpStages (fst (run_state (run_report r info) w)) ! i))"
  using assms outcome_source [OF assms(1), of info r w]
  by (auto simp: run_report_run skipped_outcome_def Let_def split: if_splits intro: outcome_run)

lemma run_report_stage_status:
  assumes "i < 6"
    and "stStatus (rpStages (fst (run_state (run_report r info) w)) ! i) \<noteq> StatusSkipped"
  shows "stStatus (rpStages (fst (run_state (run_report r info) w)) ! i) =
    StageStatus (stResults (rpStages (fst (run_state (run_report r info) w)) ! i))"
  using assms outcome_at [OF assms(1), of info r w]
  by (auto simp: run_report_run split: if_splits)

lemma report_of_verdict:
  "rpVerdict (report_of info ocs) = worst (map effective_status (rpStages (report_of info ocs)))"
  by (simp add: report_of_def Let_def)

text \<open>A result every run of a check produces is among the results of its stage.\<close>

lemma run_checks_keep: "pred_state (\<lambda>rs. set acc \<subseteq> set rs) (run_checks cs acc)"
proof (induction cs arbitrary: acc)
  case (Cons c cs)
  have "pred_state (\<lambda>rs. set acc \<subseteq> set rs) (run_checks cs (acc @ rs))" for rs
    by (rule outcome_mono [OF Cons.IH]) auto
  then show ?case by (auto intro: outcome_bind_any)
qed (auto intro: outcome_return)

lemma run_checks_member:
  assumes "c \<in> set cs" and "pred_state (\<lambda>rs. \<exists>x \<in> set rs. P x) (ckRun c)"
  shows "pred_state (\<lambda>rs. \<exists>x \<in> set rs. P x) (run_checks cs acc)"
  using assms(1)
proof (induction cs arbitrary: acc)
  case (Cons d cs)
  show ?case
  proof (cases "d = c")
    case True
    have "pred_state (\<lambda>rs. \<exists>x \<in> set rs. P x) (run_checks cs (acc @ rs))" if "\<exists>x \<in> set rs. P x" for rs
      by (rule outcome_mono [OF run_checks_keep]) (use that in auto)
    then show ?thesis
      unfolding True run_checks.simps by (rule outcome_bind [OF assms(2)])
  next
    case False
    with Cons show ?thesis by (auto intro: outcome_bind_any)
  qed
qed simp

lemma green_verdict_stage:
  assumes "rpVerdict (fst (run_state (run_report r info) w)) = StatusGreen" and "i < 6"
  shows "stStatus (rpStages (fst (run_state (run_report r info) w)) ! i) = StatusGreen"
proof -
  define st where "st = rpStages (fst (run_state (run_report r info) w))"
  have len: "length st = 6" by (simp add: st_def run_report_run)
  have eff: "effective_status (st ! j) \<noteq> StatusRed \<and> effective_status (st ! j) \<noteq> StatusAmber"
    if "j < 6" for j
  proof -
    have "effective_status (st ! j) \<in> set (map effective_status st)"
      using that len by simp
    then show ?thesis
      using assms(1) unfolding run_report_run report_of_verdict worst_green_iff st_def by metis
  qed
  have st: "st ! j = dress info j (outcomes r info w ! j)" if "j < 6" for j
    using that by (simp add: st_def run_report_run)
  have clear: "\<not> (\<exists>j<i. \<not> info ! j \<and> fst (outcomes r info w ! j) = StatusRed)"
  proof
    assume "\<exists>j<i. \<not> info ! j \<and> fst (outcomes r info w ! j) = StatusRed"
    then obtain j where "j < i" "\<not> info ! j" "fst (outcomes r info w ! j) = StatusRed" by blast
    with eff [of j] st [of j] assms(2) show False by (simp add: effective_status_def)
  qed
  have "fst (outcomes r info w ! i) = StageStatus (snd (outcomes r info w ! i))"
    using outcome_at [OF assms(2), of info r w] clear by presburger
  then have "stStatus (st ! i) \<in> severities" by (simp add: st assms(2))
  with eff [OF assms(2)] show ?thesis
    unfolding st_def [symmetric] by (auto simp: effective_status_def severities_def split: if_splits)
qed

lemma verdict_red:
  assumes "i < 6" and "\<not> info ! i" and "c \<in> set (byStage r ! i)"
    and "pred_state (\<lambda>rs. \<exists>x \<in> set rs. crStatus x = StatusRed) (ckRun c)"
  shows "rpVerdict (fst (run_state (run_report r info) w)) = StatusRed"
proof -
  let ?st = "rpStages (fst (run_state (run_report r info) w))"
  have "\<exists>j<6. \<not> info ! j \<and> fst (outcomes r info w ! j) = StatusRed"
  proof (cases "stStatus (?st ! i) = StatusSkipped")
    case True
    then obtain j where "j < i" "\<not> info ! j" "fst (outcomes r info w ! j) = StatusRed"
      using outcome_skipped_iff [OF assms(1), of r info w] assms(1) by (auto simp: run_report_run)
    then show ?thesis using assms(1) by (intro exI [of _ j]) simp
  next
    case False
    have "\<exists>x \<in> set (stResults (?st ! i)). crStatus x = StatusRed"
      by (rule report_stage_source [OF assms(1) run_checks_member [OF assms(3,4)] False])
    then have "stStatus (?st ! i) = StatusRed"
      using run_report_stage_status [OF assms(1) False] by (simp add: StageStatus_cases)
    then show ?thesis using assms(1,2) by (intro exI [of _ i]) (simp add: run_report_run)
  qed
  then obtain j where j: "j < 6" "\<not> info ! j" "fst (outcomes r info w ! j) = StatusRed" by blast
  have "length ?st = 6" by (simp add: run_report_run)
  then have "?st ! j \<in> set ?st" using j(1) nth_mem by metis
  moreover have "effective_status (?st ! j) = StatusRed"
    using j by (simp add: run_report_run effective_status_def)
  ultimately have "StatusRed \<in> set (map effective_status ?st)" by (metis image_eqI set_map)
  then show ?thesis unfolding run_report_run(1) report_of_verdict by simp
qed

lemma verdict_not_green:
  assumes "i < 6" and "c \<in> set (byStage r ! i)"
    and "pred_state (\<lambda>rs. \<exists>x \<in> set rs. crStatus x = StatusAmber \<or> crStatus x = StatusRed) (ckRun c)"
  shows "rpVerdict (fst (run_state (run_report r info) w)) \<noteq> StatusGreen"
proof
  let ?st = "rpStages (fst (run_state (run_report r info) w)) ! i"
  assume "rpVerdict (fst (run_state (run_report r info) w)) = StatusGreen"
  from green_verdict_stage [OF this assms(1)] have green: "stStatus ?st = StatusGreen" .
  then have ns: "stStatus ?st \<noteq> StatusSkipped" by simp
  have "\<exists>x \<in> set (stResults ?st). crStatus x = StatusAmber \<or> crStatus x = StatusRed"
    by (rule report_stage_source [OF assms(1) run_checks_member [OF assms(2,3)] ns])
  moreover have "StageStatus (stResults ?st) = StatusGreen"
    using run_report_stage_status [OF assms(1) ns] green by simp
  ultimately show False by (auto simp: StageStatus_cases split: if_splits)
qed

lemma report_of_all_blocking:
  "map effective_status (rpStages (report_of (replicate 6 False) ocs)) =
   map (\<lambda>i. fst (ocs ! i)) [0..<6]"
  by (simp add: report_of_def Let_def effective_status_def)

lemma length_mark_informational [simp]:
  "length (mark_informational info sid) = length info"
  by (simp add: mark_informational_def)

definition provisioned_mask :: "bool list" where
  "provisioned_mask = [True, True, True, True, False, False]"

lemma provisioned_mask:
  "foldl mark_informational (replicate 6 False)
     [StageIdentity, StageKMS, StageSecrets, StageNetwork] = provisioned_mask"
  by (simp add: mark_informational_def stage_id_defs provisioned_mask_def numeral_eq_Suc)

lemma worst_rank_le_red: "status_rank s \<le> status_rank StatusRed"
  by (simp add: status_rank_def)

subsection \<open>Properties\<close>

text \<open>Property C32: every run produces the six stages in order, with their ids and names, marks
  exactly the non-informational ones as blocking, and carries a verdict that recomputing
  \<open>ComputeVerdict\<close> on the emitted report gives back.\<close>

theorem run_report_shape:
  "let rep = fst (run_state (run_report r info) w) in
     length (rpStages rep) = 6 \<and>
     map stID (rpStages rep) = [0, 1, 2, 3, 4, 5] \<and>
     map stName (rpStages rep) = stageNames \<and>
     map stBlocking (rpStages rep) = map (\<lambda>i. \<not> info ! i) [0..<6] \<and>
     map stInformational (rpStages rep) = map (\<lambda>i. info ! i) [0..<6] \<and>
     rpVerdict rep = ComputeVerdict rep"
  unfolding Let_def run_report_run(1)
  by (simp add: report_of_def Let_def ComputeVerdict_worst upt6 stageNames_def)

text \<open>A stage is reported skipped exactly if a blocking stage before it is red, and
  then it has no results; every other stage carries the status its own results fold to, so a
  non-blocking red is reported red.\<close>

lemma run_report_skips_after_blocking_red:
  "i < 6 \<Longrightarrow>
   (let st = rpStages (fst (run_state (run_report r info) w)) in
      (stStatus (st ! i) = StatusSkipped \<longleftrightarrow>
         (\<exists>j<i. stBlocking (st ! j) \<and> stStatus (st ! j) = StatusRed)) \<and>
      (if stStatus (st ! i) = StatusSkipped then stResults (st ! i) = []
       else stStatus (st ! i) = StageStatus (stResults (st ! i))))"
proof -
  assume i: "i < 6"
  define st where "st = rpStages (fst (run_state (run_report r info) w))"
  have st: "st ! j = dress info j (outcomes r info w ! j)" if "j < 6" for j
    using that by (simp add: st_def run_report_run)
  have ex: "(\<exists>j<i. stBlocking (st ! j) \<and> stStatus (st ! j) = StatusRed) \<longleftrightarrow>
      (\<exists>j<i. \<not> info ! j \<and> fst (outcomes r info w ! j) = StatusRed)"
    using i by (auto simp: st)
  have "stStatus (st ! i) = StatusSkipped \<longleftrightarrow>
      (\<exists>j<i. stBlocking (st ! j) \<and> stStatus (st ! j) = StatusRed)"
    unfolding ex by (simp add: st i outcome_skipped_iff)
  moreover have "if stStatus (st ! i) = StatusSkipped then stResults (st ! i) = []
      else stStatus (st ! i) = StageStatus (stResults (st ! i))"
    using outcome_at [OF i, of info r w] outcome_skipped_iff [OF i, of r info w]
    by (simp add: st i split: if_splits)
  ultimately show ?thesis by (simp add: Let_def flip: st_def)
qed

text \<open>Property C6: after a blocking red nothing later is executed: the report and the world after
  the run do not depend on the checks of the later stages at all, so none of them made a call.\<close>

theorem run_report_stops_at_blocking_red:
  "k < 6 \<Longrightarrow>
   (let st = rpStages (fst (run_state (run_report r info) w)) ! k
    in stBlocking st \<and> stStatus st = StatusRed) \<Longrightarrow>
   \<forall>j\<le>k. byStage r' ! j = byStage r ! j \<Longrightarrow>
   run_state (run_report r' info) w = run_state (run_report r info) w"
proof -
  assume k: "k < 6" and red: "let st = rpStages (fst (run_state (run_report r info) w)) ! k
    in stBlocking st \<and> stStatus st = StatusRed"
    and same: "\<forall>j\<le>k. byStage r' ! j = byStage r ! j"
  have split: "[0..<6] = [0..<Suc k] @ [Suc k..<6]"
    using upt_add_eq_append [of 0 "Suc k" "6 - Suc k"] k by simp
  define ins where "ins q sids = stage_inputs q info sids" for q :: "'a Runner" and sids
  have ins: "ins q [0..<6] = ins q [0..<Suc k] @ ins q [Suc k..<6]" for q
    by (simp only: ins_def stage_inputs_def split map_append)
  have pre: "ins r' [0..<Suc k] = ins r [0..<Suc k]"
    using same by (auto simp: ins_def stage_inputs_def)
  obtain ocs w' where g: "run_state (gate (ins r [0..<6])) w = (ocs, w')"
    by (cases "run_state (gate (ins r [0..<6])) w")
  then have ocs: "outcomes r info w = ocs" by (simp add: run_outcomes_def ins_def)
  have "\<not> info ! k" "fst (ocs ! k) = StatusRed"
    using red k by (simp_all add: run_report_run ocs Let_def)
  then have "run_state (gate (ins r [0..<Suc k] @ ins r' [Suc k..<6])) w = (ocs, w')"
    using g ins gate_halted_prefix [of "ins r [0..<Suc k]" "ins r [Suc k..<6]" w ocs w' k
        "ins r' [Suc k..<6]"]
    by (simp add: ins_def stage_inputs_def nth_append)
  then have "run_state (gate (ins r' [0..<6])) w = run_state (gate (ins r [0..<6])) w"
    by (simp only: ins pre g [unfolded ins])
  then show ?thesis
    by (simp add: run_report_refines run_outcomes_def ins_def)
qed

text \<open>Property C24: with the four cloud stages provisioned, the deploy target is always checked:
  stages 0 to 4 are never skipped, and stage 5 is skipped exactly if stage 4 is red; the verdict
  is red exactly if stage 4 or stage 5 is red, whatever the cloud stages report.\<close>

theorem provisioned_run_always_checks_deploy_target:
  "let rep = fst (run_state (RunWithProvisionedStages r
       [StageIdentity, StageKMS, StageSecrets, StageNetwork]) w);
     st = map stStatus (rpStages rep)
   in StatusSkipped \<notin> set (take 5 st) \<and>
      (st ! 5 = StatusSkipped \<longleftrightarrow> st ! 4 = StatusRed) \<and>
      (rpVerdict rep = StatusRed \<longleftrightarrow> st ! 4 = StatusRed \<or> st ! 5 = StatusRed)"
proof -
  let ?o = "outcomes r provisioned_mask w"
  have m: "provisioned_mask ! 0" "provisioned_mask ! 1" "provisioned_mask ! 2"
    "provisioned_mask ! 3" "\<not> provisioned_mask ! 4" "\<not> provisioned_mask ! 5"
    by (simp_all add: provisioned_mask_def)
  have lt: "i < 5 \<Longrightarrow> (\<exists>j<i. \<not> provisioned_mask ! j \<and> P j) \<longleftrightarrow> False" for i P
    by (auto simp: provisioned_mask_def less_Suc_eq numeral_eq_Suc)
  have ns: "fst (?o ! i) \<noteq> StatusSkipped" if "i < 5" for i
    using that outcome_skipped_iff [of i r provisioned_mask w] lt [OF that] by simp
  have s5: "fst (?o ! 5) = StatusSkipped \<longleftrightarrow> fst (?o ! 4) = StatusRed"
    using outcome_skipped_iff [of 5 r provisioned_mask w] m
    by (auto simp: less_Suc_eq numeral_eq_Suc)
  have st: "map stStatus (rpStages (report_of provisioned_mask ?o)) = map (\<lambda>i. fst (?o ! i)) [0..<6]"
    by (simp add: report_of_def Let_def)
  have red: "rpVerdict (report_of provisioned_mask ?o) = StatusRed \<longleftrightarrow>
      fst (?o ! 4) = StatusRed \<or> fst (?o ! 5) = StatusRed"
    using m by (auto simp: report_of_def Let_def upt6 effective_status_def)
  show ?thesis
    unfolding RunWithProvisionedStages_def provisioned_mask Let_def run_report_run st red
    using s5 by (auto simp: upt6 take_map ns ns [THEN not_sym])
qed

text \<open>Property C25: marking stages as provisioned never makes the verdict more severe: on the same
  checks and the same world the verdict of a full run is at most that of the all-blocking run.\<close>

theorem provisioning_never_worsens_the_verdict:
  "status_rank (rpVerdict (fst (run_state (RunWithProvisionedStages r provisioned) w))) \<le>
   status_rank (rpVerdict (fst (run_state (Run r) w)))"
proof -
  define info where "info = foldl mark_informational (replicate 6 False) provisioned"
  define ag where "ag = outcomes r (replicate 6 False) w"
  have vag: "rpVerdict (fst (run_state (Run r) w)) = worst (map (\<lambda>i. fst (ag ! i)) [0..<6])"
    by (simp add: Run_def run_report_run ag_def report_of_verdict report_of_all_blocking)
  show ?thesis
  proof (cases "StatusRed \<in> fst ` set ag")
    case True
    then obtain i where "i < length ag" "fst (ag ! i) = StatusRed" by (auto simp: in_set_conv_nth)
    then have "StatusRed \<in> set (map (\<lambda>i. fst (ag ! i)) [0..<6])"
      by (force simp: ag_def)
    then have "rpVerdict (fst (run_state (Run r) w)) = StatusRed" unfolding vag by simp
    then show ?thesis using worst_rank_le_red by simp
  next
    case False
    have "map snd (stage_inputs r (replicate 6 False) [0..<6]) =
        map snd (stage_inputs r info [0..<6])"
      by (simp add: stage_inputs_def)
    with False have o: "outcomes r info w = ag"
      unfolding ag_def run_outcomes_def by (subst gate_flags_irrelevant) simp_all
    have "fst (ag ! i) \<noteq> StatusRed" if "i < 6" for i
    proof -
      have "ag ! i \<in> set ag" using that by (simp add: ag_def)
      with False show ?thesis by (metis imageI)
    qed
    then have "map effective_status (rpStages (report_of info ag)) = map (\<lambda>i. fst (ag ! i)) [0..<6]"
      by (auto simp: report_of_def Let_def effective_status_def)
    then show ?thesis
      unfolding vag RunWithProvisionedStages_def run_report_run info_def [symmetric] o
        report_of_verdict by simp
  qed
qed

text \<open>\<open>NewRunner\<close> files every check under its own stage, in the order supplied, and
  drops a check whose stage id is not one of the six.\<close>

lemma NewRunner_buckets_by_stage:
  "byStage (NewRunner checks) = map (\<lambda>i. filter (\<lambda>c. ckStage c = int i) checks) [0..<6]"
  by (rule nth_equalityI) (simp_all add: NewRunner_bucket)

subsection \<open>Witnesses\<close>

definition constant_check :: "StageID \<Rightarrow> Status \<Rightarrow> nat Check" where
  "constant_check sid s = \<lparr>ckStage = sid, ckName = ''stub'', ckRun = do {
     n \<leftarrow> State_Monad.get;
     _ \<leftarrow> State_Monad.set (Suc n);
     State_Monad.return [\<lparr>crID = ''x'', crStatus = s, crMessage = [], crRemediation = []\<rparr>]
   }\<rparr>"

definition kms_red_runner :: "nat Check list \<Rightarrow> nat Runner" where
  "kms_red_runner later =
     NewRunner ([constant_check StageIdentity StatusGreen, constant_check StageKMS StatusRed] @ later)"

lemma witness_run:
  "run_state (run_report (kms_red_runner []) (replicate 6 False)) 0 =
     (report_of (replicate 6 False)
        [(StatusGreen, [\<lparr>crID = ''x'', crStatus = StatusGreen, crMessage = [], crRemediation = []\<rparr>]),
         (StatusRed, [\<lparr>crID = ''x'', crStatus = StatusRed, crMessage = [], crRemediation = []\<rparr>]),
         skipped_outcome, skipped_outcome, skipped_outcome, skipped_outcome], 2)"
  by (simp add: run_report_refines run_outcomes_def upt6 stage_inputs_def kms_red_runner_def
      NewRunner_bucket constant_check_def stage_id_defs StageStatus_worst worst_def
      skipped_outcome_def Let_def)

theorem run_report_skips_witness:
  "let st = rpStages (fst (run_state (run_report (kms_red_runner []) (replicate 6 False)) 0)) in
     stStatus (st ! 4) = StatusSkipped \<and> stResults (st ! 4) = []"
proof -
  have i: "(4::nat) < 6" by simp
  show ?thesis
    using run_report_skips_after_blocking_red [OF i, of "kms_red_runner []" "replicate 6 False" 0]
    by (simp add: witness_run skipped_outcome_def)
qed

theorem run_report_stops_witness:
  "run_state (run_report (kms_red_runner [constant_check StageKubernetes StatusGreen])
     (replicate 6 False)) 0 =
   run_state (run_report (kms_red_runner []) (replicate 6 False)) 0"
proof (rule run_report_stops_at_blocking_red [of 1])
  show "let st = rpStages (fst (run_state (run_report (kms_red_runner []) (replicate 6 False)) 0)) ! 1
    in stBlocking st \<and> stStatus st = StatusRed"
    by (simp add: witness_run)
  show "\<forall>j\<le>1. byStage (kms_red_runner [constant_check StageKubernetes StatusGreen]) ! j =
      byStage (kms_red_runner []) ! j"
    by (simp add: kms_red_runner_def NewRunner_bucket constant_check_def stage_id_defs)
qed simp

end
