(* ===== verification/Cloud_Stages.thy ===== *)
theory Cloud_Stages
  imports Runner
begin

text \<open>
  \<open>operator/internal/preflight/cloudstages.go\<close>, \<open>operator/internal/cloud/provider.go\<close> and
  \<open>operator/internal/cloud/fake/fake.go\<close>: the provider interface of the four cloud stages, its
  adapter to the runner, and the fake provider used when no cloud is chosen.

  The locale \<open>preflight_provider\<close> is the contract the runner relies on: every method returns at
  least one result and only green, amber or red results, whatever the cloud answers.  The fake,
  AWS, GCP and Azure providers are its interpretations.
\<close>

record 'w PreflightProvider =
  CheckIdentityPermissions :: "('w, CheckResult list) state"
  CheckKMSKey :: "('w, CheckResult list) state"
  CheckSecretsBackend :: "('w, CheckResult list) state"
  CheckEgress :: "('w, CheckResult list) state"

definition providerCheck :: "StageID \<Rightarrow> string \<Rightarrow> ('w, CheckResult list) state \<Rightarrow> 'w Check" where
  "providerCheck stage name fn = \<lparr>ckStage = stage, ckName = name, ckRun = fn\<rparr>"

definition CloudChecks :: "'w PreflightProvider \<Rightarrow> 'w Check list" where
  "CloudChecks p =
     [providerCheck StageIdentity ''identity'' (CheckIdentityPermissions p),
      providerCheck StageKMS ''kms'' (CheckKMSKey p),
      providerCheck StageSecrets ''secrets'' (CheckSecretsBackend p),
      providerCheck StageNetwork ''network'' (CheckEgress p)]"

subsection \<open>Results\<close>

text \<open>A composite literal \<open>CheckResult{ID, Status, Message, Remediation}\<close>.\<close>

definition mk_result :: "string \<Rightarrow> Status \<Rightarrow> string \<Rightarrow> string \<Rightarrow> CheckResult" where
  "mk_result rid status msg rem =
     \<lparr>crID = rid, crStatus = status, crMessage = msg, crRemediation = rem\<rparr>"

lemma mk_result_sel [simp]:
  "crID (mk_result i s m r) = i" "crStatus (mk_result i s m r) = s"
  "crMessage (mk_result i s m r) = m" "crRemediation (mk_result i s m r) = r"
  by (simp_all add: mk_result_def)

definition result_ok :: "CheckResult \<Rightarrow> bool" where
  "result_ok r \<longleftrightarrow> crStatus r \<in> severities"

text \<open>What every cloud check promises for its results: severities only, and a remediation with
  every red.\<close>

definition actionable :: "CheckResult \<Rightarrow> bool" where
  "actionable r \<longleftrightarrow> crStatus r \<in> severities \<and> (crStatus r = StatusRed \<longrightarrow> crRemediation r \<noteq> [])"

definition good_results :: "CheckResult list \<Rightarrow> bool" where
  "good_results rs \<longleftrightarrow> rs \<noteq> [] \<and> (\<forall>r \<in> set rs. actionable r)"

lemma actionable_mk [simp]:
  "actionable (mk_result i s m r) \<longleftrightarrow> s \<in> severities \<and> (s = StatusRed \<longrightarrow> r \<noteq> [])"
  by (simp add: actionable_def)

lemma good_results_single [simp]: "good_results [r] \<longleftrightarrow> actionable r"
  by (simp add: good_results_def)

lemma good_results_appendI [intro]:
  "good_results rs \<Longrightarrow> good_results rs' \<Longrightarrow> good_results (rs @ rs')"
  by (auto simp: good_results_def)

lemma good_results_Cons [simp]:
  "good_results (r # r' # rs) \<longleftrightarrow> actionable r \<and> good_results (r' # rs)"
  by (auto simp: good_results_def)

subsection \<open>The contract\<close>

locale preflight_provider =
  fixes provider :: "'w PreflightProvider"
  assumes identity_good: "pred_state good_results (CheckIdentityPermissions provider)"
    and kms_good: "pred_state good_results (CheckKMSKey provider)"
    and secrets_good: "pred_state good_results (CheckSecretsBackend provider)"
    and egress_good: "pred_state good_results (CheckEgress provider)"
begin

lemma cloud_bucket:
  assumes "i < 4" and "\<forall>c \<in> set later. ckStage c \<ge> 4"
  shows "\<exists>c. byStage (NewRunner (CloudChecks provider @ later)) ! i = [c] \<and>
    pred_state good_results (ckRun c)"
proof -
  from assms(1) consider "i = 0" | "i = 1" | "i = 2" | "i = 3" by linarith
  moreover have "filter (\<lambda>c. ckStage c = int i) later = []"
    using assms by (auto simp: filter_empty_conv)
  ultimately show ?thesis
    by cases (simp_all add: NewRunner_bucket CloudChecks_def providerCheck_def stage_id_defs
        identity_good kms_good secrets_good egress_good)
qed

lemma cloud_stage_good:
  assumes "i < 4" and "\<forall>c \<in> set later. ckStage c \<ge> 4"
  defines "st \<equiv> \<lambda>info w.
    rpStages (fst (run_state (run_report (NewRunner (CloudChecks provider @ later)) info) w)) ! i"
  assumes "stStatus (st info w) \<noteq> StatusSkipped"
  shows "good_results (stResults (st info w))"
proof -
  obtain c where "byStage (NewRunner (CloudChecks provider @ later)) ! i = [c]"
    and "pred_state good_results (ckRun c)"
    using cloud_bucket [OF assms(1,2)] by blast
  then have "pred_state good_results
      (run_checks (byStage (NewRunner (CloudChecks provider @ later)) ! i) [])"
    by simp
  moreover have "i < 6" using assms(1) by simp
  ultimately show ?thesis
    using report_stage_source [of i good_results "NewRunner (CloudChecks provider @ later)" info w]
      assms(4) by (simp add: st_def)
qed

text \<open>So a red cloud stage always tells the operator what to do about it.\<close>

lemma red_cloud_stage_has_remediation:
  assumes "i < 4" and "\<forall>c \<in> set later. ckStage c \<ge> 4"
  defines "st \<equiv> \<lambda>info w.
    rpStages (fst (run_state (run_report (NewRunner (CloudChecks provider @ later)) info) w)) ! i"
  assumes "stStatus (st info w) = StatusRed"
  shows "\<exists>c \<in> set (stResults (st info w)). crStatus c = StatusRed \<and> crRemediation c \<noteq> []"
proof -
  have "good_results (stResults (st info w))"
    using cloud_stage_good [OF assms(1,2), of info w] assms(4) by (simp add: st_def)
  moreover have "StageStatus (stResults (st info w)) = StatusRed"
    using run_report_stage_status [of i "NewRunner (CloudChecks provider @ later)" info w] assms(1,4)
    by (simp add: st_def)
  ultimately show ?thesis
    by (force simp: StageStatus_worst good_results_def actionable_def)
qed

end

subsection \<open>Reading a list of secrets\<close>

text \<open>
  The three secrets stages read one secret after the other and append one result for each.
  \<open>read_each\<close> is that loop; each provider's own loop is shown equal to it, and its result
  function interprets the locale, which holds what the stages have in common.
\<close>

fun read_each ::
    "(string \<Rightarrow> ('w, 'a) state) \<Rightarrow> (string \<Rightarrow> 'a \<Rightarrow> CheckResult) \<Rightarrow> string list
      \<Rightarrow> CheckResult list \<Rightarrow> ('w, CheckResult list) state" where
  "read_each rd result [] acc = State_Monad.return acc"
| "read_each rd result (x # xs) acc = do {
     out \<leftarrow> rd x;
     read_each rd result xs (acc @ [result x out])
   }"

lemma StageStatus_single [simp]: "s \<in> severities \<Longrightarrow> StageStatus [mk_result i s m r] = s"
  by (auto simp: StageStatus_worst worst_def elim: severitiesE)

locale secrets_backend =
  fixes result :: "string \<Rightarrow> 'a go \<Rightarrow> CheckResult"
    and protected :: "'a \<Rightarrow> bool"
  assumes status: "crStatus (result x out) =
      (case out of Inl _ \<Rightarrow> StatusRed | Inr a \<Rightarrow> if protected a then StatusGreen else StatusRed)"
    and remedy: "crStatus (result x out) = StatusRed \<Longrightarrow> crRemediation (result x out) \<noteq> []"
begin

lemma result_actionable: "actionable (result x out)"
  using status [of x out] remedy [of x out]
  by (auto simp: actionable_def split: sum.splits if_splits)

lemma results_good:
  "\<forall>r \<in> set acc. actionable r \<Longrightarrow> xs \<noteq> [] \<or> acc \<noteq> [] \<Longrightarrow>
   pred_state good_results (read_each rd result xs acc)"
proof (induction xs arbitrary: acc)
  case Nil
  then show ?case by (auto simp: good_results_def intro: outcome_return)
next
  case (Cons x xs)
  have "pred_state good_results (read_each rd result xs (acc @ [result x out]))" for out
    by (rule Cons.IH) (use Cons.prems result_actionable in auto)
  then show ?case by (auto intro: outcome_bind_any)
qed

lemma stable_results:
  assumes "\<And>x w. run_state (rd x) w = (answer x, w)"
  shows "run_state (read_each rd result xs acc) w = (acc @ map (\<lambda>x. result x (answer x)) xs, w)"
  by (induction xs arbitrary: acc) (simp_all add: assms)

lemma stable_status:
  assumes "\<And>x w. run_state (rd x) w = (answer x, w)"
  shows "StageStatus (fst (run_state (read_each rd result xs []) w)) =
    (if list_all (\<lambda>x. case answer x of Inl _ \<Rightarrow> False | Inr a \<Rightarrow> protected a) xs
     then StatusGreen else StatusRed)"
proof -
  have red: "crStatus (result x out) = StatusRed \<longleftrightarrow>
      \<not> (case out of Inl _ \<Rightarrow> False | Inr a \<Rightarrow> protected a)" for x out
    by (simp add: status split: sum.split)
  have amber: "crStatus (result x out) \<noteq> StatusAmber" for x out
    by (simp add: status split: sum.split)
  show ?thesis
    by (simp add: stable_results [OF assms] StageStatus_cases amber red list_all_iff)
qed

end

subsection \<open>The fake provider\<close>

text \<open>A nil slice is \<open>None\<close>; the fake distinguishes it from an empty one.\<close>

record FakeProvider =
  IdentityResults :: "CheckResult list option"
  KMSResults :: "CheckResult list option"
  SecretsResults :: "CheckResult list option"
  EgressResults :: "CheckResult list option"

definition orDefault :: "CheckResult list option \<Rightarrow> string \<Rightarrow> CheckResult list" where
  "orDefault results rid =
     (case results of
        Some rs \<Rightarrow> rs
      | None \<Rightarrow> [mk_result rid ''green'' ''fake provider: not evaluated (stub green)'' []])"

definition fake_provider :: "FakeProvider \<Rightarrow> 'w PreflightProvider" where
  "fake_provider p =
     \<lparr>CheckIdentityPermissions = State_Monad.return (orDefault (IdentityResults p) ''fake.identity''),
      CheckKMSKey = State_Monad.return (orDefault (KMSResults p) ''fake.kms''),
      CheckSecretsBackend = State_Monad.return (orDefault (SecretsResults p) ''fake.secrets''),
      CheckEgress = State_Monad.return (orDefault (EgressResults p) ''fake.egress'')\<rparr>"

definition zero_fake :: FakeProvider where
  "zero_fake = \<lparr>IdentityResults = None, KMSResults = None, SecretsResults = None, EgressResults = None\<rparr>"

lemma orDefault_None_good: "good_results (orDefault None rid)"
  by (simp add: orDefault_def flip: StatusGreen_def)

interpretation fake: preflight_provider "fake_provider zero_fake"
  by unfold_locales
    (simp_all add: fake_provider_def zero_fake_def orDefault_None_good outcome_return)

end
