(* ===== verification/Go_Strings.thy ===== *)
theory Go_Strings
  imports Prelude "HOL-Library.Sublist"
begin

text \<open>
  The parts of Go's \<open>strings\<close>, \<open>strconv\<close>, \<open>unicode/utf8\<close> and \<open>fmt\<close> packages the program
  uses.  A Go string is its list of bytes, one \<open>char\<close> per byte.

  Scope: \<open>ToLower\<close> and \<open>EqualFold\<close> fold the ASCII letters (the operands are resource ids,
  GUIDs and role ids, which are ASCII); \<open>Quote\<close> copies every well-formed non-ASCII rune, which
  is what Go does with the printable ones.  Everything else is exact on all byte strings.
\<close>

abbreviation byte :: "char \<Rightarrow> nat" where "byte c \<equiv> of_char c"

abbreviation chr :: "nat \<Rightarrow> char" where "chr n \<equiv> char_of n"

lemma eq_chr: "n < 256 \<Longrightarrow> c = chr n \<longleftrightarrow> byte c = n"
  by (metis char_of_char of_char_of mod_less)

lemma chr_eq: "n < 256 \<Longrightarrow> chr n = c \<longleftrightarrow> byte c = n"
  using eq_chr by metis

lemma byte_chr: "n < 256 \<Longrightarrow> byte (chr n) = n"
  by (simp add: of_char_of)

text \<open>The non-ASCII characters of the program's messages, as UTF-8.\<close>

definition em_dash :: string where "em_dash = [chr 0xE2, chr 0x80, chr 0x94]"

definition right_arrow :: string where "right_arrow = [chr 0xE2, chr 0x86, chr 0x92]"

subsection \<open>Searching, splitting, joining\<close>

definition HasPrefix :: "string \<Rightarrow> string \<Rightarrow> bool" where
  "HasPrefix s p = prefix p s"

definition TrimPrefix :: "string \<Rightarrow> string \<Rightarrow> string" where
  "TrimPrefix s p = (if HasPrefix s p then drop (length p) s else s)"

text \<open>\<open>strings.Split(s, sep)\<close> for a one-byte separator.\<close>

fun Split :: "string \<Rightarrow> char \<Rightarrow> string list" where
  "Split [] sep = [[]]"
| "Split (c # cs) sep =
     (if c = sep then [] # Split cs sep
      else (case Split cs sep of [] \<Rightarrow> [[c]] | p # ps \<Rightarrow> (c # p) # ps))"

fun Join :: "string list \<Rightarrow> string \<Rightarrow> string" where
  "Join [] sep = []"
| "Join [x] sep = x"
| "Join (x # xs) sep = x @ sep @ Join xs sep"

text \<open>\<open>strings.LastIndex(s, sep)\<close> for a one-byte separator: \<open>-1\<close> if it does not occur.\<close>

fun LastIndex :: "string \<Rightarrow> char \<Rightarrow> int" where
  "LastIndex [] sep = -1"
| "LastIndex (c # cs) sep =
     (let i = LastIndex cs sep in if i \<ge> 0 then i + 1 else if c = sep then 0 else -1)"

lemma Split_nonempty [simp]: "Split s sep \<noteq> []"
  by (induction s) (auto split: list.split)

lemma Join_Cons: "xs \<noteq> [] \<Longrightarrow> Join (x # xs) sep = x @ sep @ Join xs sep"
  by (cases xs) simp_all

lemma Join_prepend: "xs \<noteq> [] \<Longrightarrow> Join ((c # x) # xs) sep = c # Join (x # xs) sep"
  by (cases xs) simp_all

lemma Join_Split: "Join (Split s sep) [sep] = s"
proof (induction s)
  case (Cons c cs)
  then show ?case
  proof (cases "c = sep")
    case True
    with Cons show ?thesis by (simp add: Join_Cons)
  next
    case False
    obtain p ps where "Split cs sep = p # ps" by (cases "Split cs sep") auto
    with Cons False show ?thesis by (cases ps) auto
  qed
qed simp

lemma Split_no_sep: "p \<in> set (Split s sep) \<Longrightarrow> sep \<notin> set p"
  by (induction s arbitrary: p) (auto split: if_splits list.splits)

lemma LastIndex_bounds: "-1 \<le> LastIndex s sep \<and> LastIndex s sep < int (length s)"
  by (induction s) (auto simp: Let_def)

lemma LastIndex_neg_iff: "LastIndex s sep < 0 \<longleftrightarrow> sep \<notin> set s"
  by (induction s) (auto simp: Let_def)

lemma drop_LastIndex:
  "drop (nat (LastIndex s sep + 1)) s = last (Split s sep)"
proof (induction s)
  case (Cons c cs)
  have neg: "LastIndex cs sep < 0 \<Longrightarrow> LastIndex cs sep = -1"
    using LastIndex_bounds [of cs sep] by linarith
  have single: "sep \<notin> set cs \<Longrightarrow> Split cs sep = [cs]" for cs
    by (induction cs) auto
  show ?case
  proof (cases "LastIndex cs sep < 0")
    case True
    with neg single [of cs] single [of "c # cs"] show ?thesis
      by (auto simp: Let_def LastIndex_neg_iff)
  next
    case False
    then obtain p q ps where "Split cs sep = p # q # ps"
      using single [of cs] Split_nonempty [of cs sep]
      by (metis LastIndex_neg_iff Join.simps(2) Join_Split Split_no_sep list.exhaust list.set_intros(1))
    with Cons False show ?thesis
      by (auto simp: Let_def nat_add_distrib)
  qed
qed simp

subsection \<open>Letter case (ASCII)\<close>

definition lower_char :: "char \<Rightarrow> char" where
  "lower_char c = (if 65 \<le> byte c \<and> byte c \<le> 90 then chr (byte c + 32) else c)"

definition ToLower :: "string \<Rightarrow> string" where
  "ToLower s = map lower_char s"

definition EqualFold :: "string \<Rightarrow> string \<Rightarrow> bool" where
  "EqualFold s t \<longleftrightarrow> ToLower s = ToLower t"

lemma EqualFold_refl [simp]: "EqualFold s s"
  by (simp add: EqualFold_def)

lemma EqualFold_sym: "EqualFold s t \<longleftrightarrow> EqualFold t s"
  by (auto simp: EqualFold_def)

subsection \<open>Trimming\<close>

text \<open>The UTF-8 encodings of the runes \<open>unicode.IsSpace\<close> accepts.\<close>

definition space_runes :: "string list" where
  "space_runes =
     [[chr 9], [chr 10], [chr 11], [chr 12], [chr 13], [chr 32],
      [chr 0xC2, chr 0x85], [chr 0xC2, chr 0xA0], [chr 0xE1, chr 0x9A, chr 0x80]]
     @ map (\<lambda>n. [chr 0xE2, chr 0x80, chr n]) [0x80..<0x8B]
     @ [[chr 0xE2, chr 0x80, chr 0xA8], [chr 0xE2, chr 0x80, chr 0xA9],
        [chr 0xE2, chr 0x80, chr 0xAF], [chr 0xE2, chr 0x81, chr 0x9F],
        [chr 0xE3, chr 0x80, chr 0x80]]"

function strip_prefixes :: "string list \<Rightarrow> string \<Rightarrow> string" where
  "strip_prefixes rs s =
     (case find (\<lambda>r. r \<noteq> [] \<and> prefix r s) rs of
        None \<Rightarrow> s
      | Some r \<Rightarrow> strip_prefixes rs (drop (length r) s))"
  by pat_completeness auto
termination
  by (relation "measure (\<lambda>(rs, s). length s)")
    (auto simp: find_Some_iff prefix_def)

declare strip_prefixes.simps [simp del]

definition TrimSpace :: "string \<Rightarrow> string" where
  "TrimSpace s =
     rev (strip_prefixes (map rev space_runes) (rev (strip_prefixes space_runes s)))"

text \<open>\<open>strings.TrimRight(s, cutset)\<close> for an ASCII cutset.\<close>

definition TrimRight :: "string \<Rightarrow> char \<Rightarrow> string" where
  "TrimRight s c = rev (dropWhile (\<lambda>x. x = c) (rev s))"

lemma strip_prefixes_suffix: "suffix (strip_prefixes rs s) s"
proof (induction rs s rule: strip_prefixes.induct)
  case (1 rs s)
  show ?case
  proof (cases "find (\<lambda>r. r \<noteq> [] \<and> prefix r s) rs")
    case None
    then show ?thesis by (subst strip_prefixes.simps) simp
  next
    case (Some r)
    with 1 have "suffix (strip_prefixes rs (drop (length r) s)) s"
      by (meson suffix_drop suffix_order.trans)
    with Some show ?thesis by (subst strip_prefixes.simps) simp
  qed
qed

lemma strip_prefixes_done:
  "r \<in> set rs \<Longrightarrow> r \<noteq> [] \<Longrightarrow> \<not> prefix r (strip_prefixes rs s)"
proof (induction rs s rule: strip_prefixes.induct)
  case (1 rs s)
  show ?case
  proof (cases "find (\<lambda>r. r \<noteq> [] \<and> prefix r s) rs")
    case None
    then have "strip_prefixes rs s = s" by (subst strip_prefixes.simps) simp
    with None 1(2,3) show ?thesis by (auto simp: find_None_iff)
  next
    case (Some q)
    with 1 show ?thesis by (subst strip_prefixes.simps) simp
  qed
qed

text \<open>White space never starts or ends with a printable ASCII character, so trimming leaves
  a printable text alone.\<close>

lemma space_runes_ends:
  "\<forall>r \<in> set (space_runes @ map rev space_runes). r \<noteq> [] \<and> (byte (hd r) \<le> 32 \<or> byte (hd r) \<ge> 128)"
  by (simp add: space_runes_def upt_rec)

lemma strip_prefixes_printable:
  assumes "\<forall>r \<in> set rs. r \<noteq> [] \<and> (byte (hd r) \<le> 32 \<or> byte (hd r) \<ge> 128)"
    and "s = [] \<or> (32 < byte (hd s) \<and> byte (hd s) < 128)"
  shows "strip_prefixes rs s = s"
proof -
  have "\<not> (r \<noteq> [] \<and> prefix r s)" if "r \<in> set rs" for r
    using assms that by (cases r; cases s) auto
  then have "find (\<lambda>r. r \<noteq> [] \<and> prefix r s) rs = None"
    by (simp add: find_None_iff)
  then show ?thesis by (subst strip_prefixes.simps) simp
qed

lemma TrimSpace_printable:
  assumes "\<forall>c \<in> set s. 32 < byte c \<and> byte c < 128"
  shows "TrimSpace s = s"
proof -
  have "strip_prefixes space_runes s = s"
    by (rule strip_prefixes_printable) (use space_runes_ends assms hd_in_set [of s] in auto)
  moreover have "strip_prefixes (map rev space_runes) (rev s) = rev s"
    by (rule strip_prefixes_printable) (use space_runes_ends assms hd_in_set [of "rev s"] in auto)
  ultimately show ?thesis by (simp add: TrimSpace_def)
qed

subsection \<open>Formatting\<close>

fun dec :: "nat \<Rightarrow> string" where
  "dec n = (if n < 10 then [chr (48 + n)] else dec (n div 10) @ [chr (48 + n mod 10)])"

declare dec.simps [simp del]

definition Sprint_d :: "int \<Rightarrow> string" where
  "Sprint_d i = (if i < 0 then CHR ''-'' # dec (nat (- i)) else dec (nat i))"

text \<open>\<open>%v\<close> of a string slice.\<close>

definition Sprint_strings :: "string list \<Rightarrow> string" where
  "Sprint_strings xs = ''['' @ Join xs '' '' @ '']''"

definition hex_digit :: "nat \<Rightarrow> char" where
  "hex_digit n = chr (if n < 10 then 48 + n else 87 + n)"

subsection \<open>UTF-8\<close>

text \<open>
  \<open>utf8_size s\<close> is the length of the well-formed encoding at the head of \<open>s\<close>, and 0 if there
  is none (then \<open>utf8.DecodeRune\<close> returns \<open>RuneError\<close> and consumes one byte).
\<close>

fun conts_ok :: "nat \<Rightarrow> nat \<Rightarrow> nat \<Rightarrow> string \<Rightarrow> bool" where
  "conts_ok 0 lo hi cs = True"
| "conts_ok (Suc k) lo hi [] = False"
| "conts_ok (Suc k) lo hi (c # cs) =
     (lo \<le> byte c \<and> byte c \<le> hi \<and> conts_ok k 0x80 0xBF cs)"

text \<open>For a lead byte: how many bytes follow, and the range of the first of them.\<close>

definition utf8_lead :: "nat \<Rightarrow> (nat \<times> nat \<times> nat) option" where
  "utf8_lead b =
     (if b < 0x80 then Some (0, 0x80, 0xBF)
      else if b < 0xC2 then None
      else if b \<le> 0xDF then Some (1, 0x80, 0xBF)
      else if b = 0xE0 then Some (2, 0xA0, 0xBF)
      else if b = 0xED then Some (2, 0x80, 0x9F)
      else if b \<le> 0xEF then Some (2, 0x80, 0xBF)
      else if b = 0xF0 then Some (3, 0x90, 0xBF)
      else if b \<le> 0xF3 then Some (3, 0x80, 0xBF)
      else if b = 0xF4 then Some (3, 0x80, 0x8F)
      else None)"

fun utf8_size :: "string \<Rightarrow> nat" where
  "utf8_size [] = 0"
| "utf8_size (c # cs) =
     (case utf8_lead (byte c) of
        None \<Rightarrow> 0
      | Some (k, lo, hi) \<Rightarrow> if conts_ok k lo hi cs then Suc k else 0)"

lemma conts_ok_le: "conts_ok k lo hi cs \<Longrightarrow> k \<le> length cs"
  by (induction k lo hi cs rule: conts_ok.induct) auto

lemma conts_ok_take: "conts_ok k lo hi cs \<Longrightarrow> conts_ok k lo hi (take k cs @ t)"
  by (induction k lo hi cs rule: conts_ok.induct) auto

lemma utf8_size_le: "utf8_size s \<le> length s"
  by (cases s) (auto dest: conts_ok_le split: option.split)

lemma utf8_size_ascii: "byte c < 0x80 \<Longrightarrow> utf8_size (c # s) = 1"
  by (simp add: utf8_lead_def)

text \<open>A well-formed encoding stays one whatever follows it.\<close>

lemma utf8_size_take:
  "utf8_size s = n \<Longrightarrow> n > 0 \<Longrightarrow> utf8_size (take n s @ t) = n"
  by (cases s) (auto simp: conts_ok_take split: option.splits if_splits)

text \<open>A string as its runes: each is a well-formed encoding or one ill-formed byte.\<close>

function utf8_chunks :: "string \<Rightarrow> (bool \<times> string) list" where
  "utf8_chunks s =
     (if s = [] then []
      else if utf8_size s = 0 then (False, [hd s]) # utf8_chunks (tl s)
      else (True, take (utf8_size s) s) # utf8_chunks (drop (utf8_size s) s))"
  by pat_completeness auto
termination
  by (relation "measure length") auto

declare utf8_chunks.simps [simp del]

definition valid_utf8 :: "string \<Rightarrow> bool" where
  "valid_utf8 s \<longleftrightarrow> (\<forall>c \<in> set (utf8_chunks s). fst c)"

definition replacement_char :: string where
  "replacement_char = [chr 0xEF, chr 0xBF, chr 0xBD]"

definition to_valid_utf8 :: "string \<Rightarrow> string" where
  "to_valid_utf8 s = concat (map (\<lambda>(ok, c). if ok then c else replacement_char) (utf8_chunks s))"

lemma utf8_chunks_Nil [simp]: "utf8_chunks [] = []"
  by (subst utf8_chunks.simps) simp

lemma utf8_chunks_concat: "concat (map snd (utf8_chunks s)) = s"
proof (induction s rule: utf8_chunks.induct)
  case (1 s)
  then show ?case by (subst utf8_chunks.simps) simp
qed

lemma to_valid_utf8_id: "valid_utf8 s \<Longrightarrow> to_valid_utf8 s = s"
proof -
  assume "valid_utf8 s"
  then have "map (\<lambda>(ok, c). if ok then c else replacement_char) (utf8_chunks s) = map snd (utf8_chunks s)"
    by (auto simp: valid_utf8_def)
  then show ?thesis unfolding to_valid_utf8_def by (simp only: utf8_chunks_concat)
qed

lemma valid_utf8_ascii: "\<forall>c \<in> set s. byte c < 0x80 \<Longrightarrow> valid_utf8 s"
proof (induction s)
  case (Cons c s)
  then have "utf8_chunks (c # s) = (True, [c]) # utf8_chunks s"
    by (subst utf8_chunks.simps) (simp add: utf8_size_ascii del: utf8_size.simps)
  with Cons show ?case by (simp add: valid_utf8_def)
qed (simp add: valid_utf8_def)

subsection \<open>Quoting\<close>

text \<open>\<open>%q\<close>, that is \<open>strconv.Quote\<close>.\<close>

definition quote_ascii :: "char \<Rightarrow> string" where
  "quote_ascii c =
     (if c = chr 34 \<or> c = chr 92 then [chr 92, c]
      else if c = chr 7 then [chr 92, CHR ''a'']
      else if c = chr 8 then [chr 92, CHR ''b'']
      else if c = chr 12 then [chr 92, CHR ''f'']
      else if c = chr 10 then [chr 92, CHR ''n'']
      else if c = chr 13 then [chr 92, CHR ''r'']
      else if c = chr 9 then [chr 92, CHR ''t'']
      else if c = chr 11 then [chr 92, CHR ''v'']
      else if byte c < 32 \<or> byte c \<ge> 127
      then [chr 92, CHR ''x'', hex_digit (byte c div 16), hex_digit (byte c mod 16)]
      else [c])"

definition Quote :: "string \<Rightarrow> string" where
  "Quote s = chr 34 # concat (map (\<lambda>(ok, c). if ok \<and> length c > 1 then c else quote_ascii (hd c))
     (utf8_chunks s)) @ [chr 34]"

subsection \<open>Scanning\<close>

definition is_digit :: "char \<Rightarrow> bool" where
  "is_digit c \<longleftrightarrow> 48 \<le> byte c \<and> byte c \<le> 57"

definition digits_value :: "string \<Rightarrow> int" where
  "digits_value ds = foldl (\<lambda>n c. 10 * n + (int (byte c) - 48)) 0 ds"

text \<open>
  \<open>fmt.Sscanf(s, "%d", &i)\<close> on a string without leading white space: an optional sign and the
  longest run of digits; input after it is ignored.  \<open>None\<close> is an error return: no digit, or a
  number outside the 64-bit range.
\<close>

definition Sscanf_d :: "string \<Rightarrow> int option" where
  "Sscanf_d s =
     (let neg = (case s of [] \<Rightarrow> False | c # _ \<Rightarrow> c = CHR ''-'');
          body = (case s of [] \<Rightarrow> [] | c # cs \<Rightarrow> if c = CHR ''-'' \<or> c = CHR ''+'' then cs else s);
          ds = takeWhile is_digit body;
          v = (if neg then - digits_value ds else digits_value ds)
      in if ds = [] \<or> v < - (2 ^ 63) \<or> v \<ge> 2 ^ 63 then None else Some v)"

lemma digit_dec: "n < 10 \<Longrightarrow> is_digit (chr (48 + n)) \<and> int (byte (chr (48 + n))) - 48 = int n"
  by (simp add: is_digit_def)

lemma dec_digits: "\<forall>c \<in> set (dec n). is_digit c"
proof (induction n rule: dec.induct)
  case (1 n)
  then show ?case by (subst dec.simps) (auto simp: digit_dec)
qed

lemma dec_nonempty [simp]: "dec n \<noteq> []"
  by (subst dec.simps) simp

lemma digits_value_snoc [simp]:
  "digits_value (ds @ [c]) = 10 * digits_value ds + (int (byte c) - 48)"
  by (simp add: digits_value_def)

lemma digits_value_dec [simp]: "digits_value (dec n) = int n"
proof (induction n rule: dec.induct)
  case (1 n)
  show ?case
  proof (cases "n < 10")
    case True
    then show ?thesis by (subst dec.simps) (simp add: digits_value_def)
  next
    case False
    then have "digits_value (dec n) = 10 * int (n div 10) + int (n mod 10)"
      using 1 by (subst dec.simps) (simp add: digit_dec)
    also have "\<dots> = int (10 * (n div 10) + n mod 10)" by (simp only: of_nat_add of_nat_mult of_nat_numeral)
    finally show ?thesis by simp
  qed
qed

end
