(* ===== verification/AWS_Provider.thy ===== *)
theory AWS_Provider
  imports Cloud_Stages Go_Strings
begin

text \<open>
  \<open>operator/internal/cloud/aws\<close>: the four AWS checks.  The SDK clients are the parameters of
  the model: each API method is a computation over the world that returns an error or the part
  of its output the checks read (a nil pointer is \<open>None\<close>).  \<open>mapRangeSwapped\<close> is the
  run-time's choice of the order in which it ranges over the two-entry map of
  \<open>checkFQDNReachability\<close>.
\<close>

record EvaluationResult =
  EvalDecision :: string
  EvalActionName :: "string option"

record KeyMetadata =
  KeyEnabled :: bool
  KeyState :: string

record Route =
  DestinationCidrBlock :: "string option"
  GatewayId :: "string option"

type_synonym ec2_filter = "string \<times> string list"

record 'w AWSClients =
  SimulatePrincipalPolicy :: "string \<Rightarrow> string list \<Rightarrow> ('w, EvaluationResult list go) state"
  GetCallerIdentity :: "('w, string option go) state"
  DescribeKey :: "string \<Rightarrow> ('w, KeyMetadata option go) state"
  GetKeyRotationStatus :: "string \<Rightarrow> ('w, bool go) state"
  DescribeSecret :: "string \<Rightarrow> ('w, string option go) state"
  DescribeVpcs :: "string list \<Rightarrow> ('w, string list go) state"
  DescribeNatGateways :: "ec2_filter \<Rightarrow> ('w, string list go) state"
  DescribeRouteTables :: "ec2_filter \<Rightarrow> ('w, Route list list go) state"
  mapRangeSwapped :: "('w, bool) state"

record AWSOptions =
  awRegion :: string
  awKMSKeyARN :: string
  awSecretARNs :: "string list"
  awVPCID :: string
  awEgressPathRef :: string
  awControlPlaneFQDN :: string
  awRequiredEgressFQDNs :: "string list"
  awDeployPrincipalARN :: string
  awProvisionConcerns :: "string list option"

text \<open>The provider is its options and its clients; \<open>AccountID\<close> is read nowhere.\<close>

record 'w AWSProvider =
  awOptions :: AWSOptions
  awClients :: "'w AWSClients"

text \<open>\<open>New\<close>: loading the default configuration for the region gives the clients or an error.\<close>

definition aws_New ::
    "(string \<Rightarrow> ('w, 'w AWSClients go) state) \<Rightarrow> AWSOptions \<Rightarrow> ('w, 'w AWSProvider go) state" where
  "aws_New loadDefaultConfig opts = do {
     cfg \<leftarrow> loadDefaultConfig (awRegion opts);
     case cfg of
       Inl err \<Rightarrow> State_Monad.return (Inl err)
     | Inr clients \<Rightarrow> State_Monad.return (Inr \<lparr>awOptions = opts, awClients = clients\<rparr>)
   }"

subsection \<open>Stage 0: identity\<close>

definition deployActionByConcern :: "string \<rightharpoonup> string" where
  "deployActionByConcern =
     [''kms'' \<mapsto> ''kms:CreateKey'', ''secrets'' \<mapsto> ''secretsmanager:CreateSecret'',
      ''iam'' \<mapsto> ''iam:CreateRole'', ''cluster'' \<mapsto> ''eks:CreateCluster'']"

definition concernOrder :: "string list" where
  "concernOrder = [''kms'', ''secrets'', ''iam'', ''cluster'']"

definition provisionConcerns :: "AWSOptions \<Rightarrow> (string \<rightharpoonup> bool)" where
  "provisionConcerns opts =
     (case awProvisionConcerns opts of
        None \<Rightarrow> foldl (\<lambda>out c. out(c \<mapsto> True)) Map.empty concernOrder
      | Some cs \<Rightarrow> foldl (\<lambda>out c. out(c \<mapsto> True)) Map.empty cs)"

definition requiredDeployActions :: "AWSOptions \<Rightarrow> string list" where
  "requiredDeployActions opts =
     (let concerns = provisionConcerns opts in
      foldl (\<lambda>actions c.
          if concerns c = Some True then
            (case deployActionByConcern c of None \<Rightarrow> actions | Some a \<Rightarrow> actions @ [a])
          else actions)
        [] concernOrder)"

definition denied_actions :: "EvaluationResult list \<Rightarrow> string list" where
  "denied_actions evs =
     foldl (\<lambda>denied r.
         if EvalDecision r \<noteq> ''allowed'' then
           (case EvalActionName r of None \<Rightarrow> denied | Some n \<Rightarrow> denied @ [n])
         else denied)
       [] evs"

definition aws_simulate ::
    "'w AWSProvider \<Rightarrow> string list \<Rightarrow> string \<Rightarrow> ('w, CheckResult list) state" where
  "aws_simulate p actions principalARN = do {
     out \<leftarrow> SimulatePrincipalPolicy (awClients p) principalARN actions;
     case out of
       Inl err \<Rightarrow> State_Monad.return [mk_result ''aws.identity.simulate'' StatusRed
         (''could not simulate deploy-identity permissions: '' @ err)
         ''grant iam:SimulatePrincipalPolicy to the preflight identity, or review the policy manually'']
     | Inr evs \<Rightarrow>
         let denied = denied_actions evs in
         if length denied > 0 then State_Monad.return [mk_result ''aws.identity.missing'' StatusRed
           (''deploy identity '' @ principalARN @ '' is missing required actions: '' @ Join denied '', '')
           ''attach the deploy-time policy artifact (modules/aws/iam deploy-policy.json) to the deploy identity'']
         else State_Monad.return [mk_result ''aws.identity'' StatusGreen
           (''deploy identity '' @ principalARN @ '' holds the probed keystone deploy actions; attach the full deploy-policy.json for the complete least-privilege set (excess-permission detection is best-effort)'')
           []]
   }"

definition aws_unresolved_caller :: "string \<Rightarrow> CheckResult list" where
  "aws_unresolved_caller err =
     [mk_result ''aws.identity.caller'' StatusRed
       (''could not resolve the deploy identity via STS: '' @ err)
       ''ensure valid AWS credentials are present (env / shared config / IRSA)'']"

definition aws_CheckIdentityPermissions :: "'w AWSProvider \<Rightarrow> ('w, CheckResult list) state" where
  "aws_CheckIdentityPermissions p =
     (let actions = requiredDeployActions (awOptions p);
          principalARN = awDeployPrincipalARN (awOptions p) in
      if length actions = 0 then State_Monad.return [mk_result ''aws.identity'' StatusAmber
        ''no concerns are being provisioned (fully BYO); deploy-identity provisioning permissions not applicable''
        ''the workload's RUNTIME identity binding is still validated by the Kubernetes stages; no deploy-time provisioning grant is needed here'']
      else if principalARN = [] then do {
        caller \<leftarrow> GetCallerIdentity (awClients p);
        case caller of
          Inl err \<Rightarrow> State_Monad.return (aws_unresolved_caller err)
        | Inr arn \<Rightarrow>
            (case arn of
               None \<Rightarrow> State_Monad.return (aws_unresolved_caller ''<nil>'')
             | Some a \<Rightarrow> aws_simulate p actions a)
      }
      else aws_simulate p actions principalARN)"

subsection \<open>Stage 1: KMS\<close>

definition aws_keyState :: "KeyMetadata option \<Rightarrow> string" where
  "aws_keyState out = (case out of None \<Rightarrow> ''unknown'' | Some md \<Rightarrow> KeyState md)"

definition aws_CheckKMSKey :: "'w AWSProvider \<Rightarrow> ('w, CheckResult list) state" where
  "aws_CheckKMSKey p =
     (let arn = awKMSKeyARN (awOptions p) in
      if arn = [] then State_Monad.return [mk_result ''aws.kms'' StatusAmber
        ''no CMK configured; key-encryption posture not applicable (nothing is envelope-encrypted by us)''
        ''if the workload's secrets/volumes must be CMK-encrypted, supply the resolved key ARN; otherwise this stage is informational'']
      else do {
        key \<leftarrow> DescribeKey (awClients p) arn;
        case key of
          Inl err \<Rightarrow> State_Monad.return [mk_result ''aws.kms.describe'' StatusRed
            (''cannot describe KMS key '' @ arn @ '': '' @ err)
            ''grant kms:DescribeKey on the resolved key and confirm the ARN is correct'']
        | Inr out \<Rightarrow>
            if (case out of None \<Rightarrow> True | Some md \<Rightarrow> \<not> KeyEnabled md)
            then State_Monad.return [mk_result ''aws.kms.enabled'' StatusRed
              (''KMS key '' @ arn @ '' is not enabled (state: '' @ aws_keyState out @ '')'')
              ''enable the CMK or supply an enabled key in BYO mode'']
            else do {
              rot \<leftarrow> GetKeyRotationStatus (awClients p) arn;
              case rot of
                Inl err \<Rightarrow> State_Monad.return [mk_result ''aws.kms.rotation'' StatusAmber
                  (''KMS key enabled but rotation status unknown: '' @ err)
                  ''grant kms:GetKeyRotationStatus, or confirm rotation manually'']
              | Inr enabled \<Rightarrow>
                  if \<not> enabled then State_Monad.return [mk_result ''aws.kms.rotation'' StatusAmber
                    (''KMS key '' @ arn @ '' is enabled but automatic rotation is OFF'')
                    ''enable annual key rotation'']
                  else State_Monad.return [mk_result ''aws.kms'' StatusGreen
                    (''KMS key '' @ arn @ '' enabled with rotation on'') []]
            }
      })"

subsection \<open>Stage 2: secrets\<close>

definition aws_secret_result :: "string \<Rightarrow> string \<Rightarrow> string option go \<Rightarrow> CheckResult" where
  "aws_secret_result keyARN arn out =
     (case out of
        Inl err \<Rightarrow> mk_result ''aws.secrets.describe'' StatusRed
          (''cannot describe secret '' @ arn @ '': '' @ err)
          ''grant secretsmanager:DescribeSecret on the secret and confirm the ARN''
      | Inr kmsKeyId \<Rightarrow>
          if kmsKeyId = None \<or> kmsKeyId \<noteq> Some keyARN
          then mk_result ''aws.secrets.encryption'' StatusRed
            (''secret '' @ arn @ '' is not encrypted with the resolved CMK ('' @ keyARN @ '')'')
            ''re-create or update the secret to use the resolved CMK for envelope encryption''
          else mk_result ''aws.secrets'' StatusGreen
            (''secret '' @ arn @ '' is CMK-encrypted with the resolved key'') [])"

fun aws_secret_loop ::
    "'w AWSProvider \<Rightarrow> string list \<Rightarrow> CheckResult list \<Rightarrow> ('w, CheckResult list) state" where
  "aws_secret_loop p [] results = State_Monad.return results"
| "aws_secret_loop p (arn # arns) results = do {
     out \<leftarrow> DescribeSecret (awClients p) arn;
     aws_secret_loop p arns (results @ [aws_secret_result (awKMSKeyARN (awOptions p)) arn out])
   }"

definition aws_CheckSecretsBackend :: "'w AWSProvider \<Rightarrow> ('w, CheckResult list) state" where
  "aws_CheckSecretsBackend p =
     (if length (awSecretARNs (awOptions p)) = 0
      then State_Monad.return [mk_result ''aws.secrets'' StatusAmber
        ''no secrets configured to validate''
        ''if the workload needs secrets, provide their ARNs; otherwise this is informational'']
      else aws_secret_loop p (awSecretARNs (awOptions p)) [])"

subsection \<open>Stage 3: egress\<close>

definition metadataCIDR :: string where
  "metadataCIDR = ''169.254.169.254/32''"

definition route_dest :: "Route \<Rightarrow> string" where
  "route_dest r = (case DestinationCidrBlock r of None \<Rightarrow> [] | Some d \<Rightarrow> d)"

definition firewall_route :: "Route \<Rightarrow> bool" where
  "firewall_route r \<longleftrightarrow> route_dest r = ''0.0.0.0/0'' \<and>
     (case GatewayId r of None \<Rightarrow> False | Some g \<Rightarrow> HasPrefix g ''vpce-'')"

definition scan_route :: "bool \<times> bool \<Rightarrow> Route \<Rightarrow> bool \<times> bool" where
  "scan_route acc r =
     (let (inPath, metadataOpen) = acc in
      (if firewall_route r then True else inPath,
       if route_dest r = metadataCIDR then True else metadataOpen))"

definition scan_route_tables :: "Route list list \<Rightarrow> bool \<times> bool" where
  "scan_route_tables rts = foldl (\<lambda>acc rt. foldl scan_route acc rt) (False, False) rts"

definition firewall_results :: "Route list list \<Rightarrow> CheckResult list" where
  "firewall_results rts =
     (let (inPath, metadataOpen) = scan_route_tables rts in
      [if inPath then mk_result ''egress.firewall_inpath'' StatusGreen
         (''node default route (0.0.0.0/0) targets the Network Firewall VPC endpoint '' @ em_dash
          @ '' firewall is in-path'') []
       else mk_result ''egress.firewall_inpath'' StatusRed
         ''no node default route via a firewall VPC endpoint; egress is NOT forced through the firewall''
         (''add the 0.0.0.0/0 '' @ right_arrow
          @ '' firewall-endpoint route on the node subnets (network module)''),
       if metadataOpen then mk_result ''egress.metadata_block'' StatusAmber
         (''a node route targets the IMDS metadata CIDR '' @ metadataCIDR
          @ ''; assess metadata blockability'')
         ''ensure IMDS is hop-limited/blocked at the node and via in-cluster policy''
       else mk_result ''egress.metadata_block'' StatusGreen
         ''no node route explicitly opens the IMDS metadata CIDR (blockability assessed)'' []])"

definition checkFirewallInPath :: "'w AWSProvider \<Rightarrow> ('w, CheckResult list) state" where
  "checkFirewallInPath p =
     (if awEgressPathRef (awOptions p) = []
      then State_Monad.return [mk_result ''egress.firewall_inpath'' StatusAmber
        ''no egress_path_ref resolved (BYO customer-owned edge); firewall-in-path is the customer's responsibility''
        ''confirm the customer's edge firewall enforces the FQDN allowlist + default-deny (shared responsibility)'']
      else do {
        rts \<leftarrow> DescribeRouteTables (awClients p) (''vpc-id'', [awVPCID (awOptions p)]);
        case rts of
          Inl err \<Rightarrow> State_Monad.return [mk_result ''egress.firewall_inpath'' StatusAmber
            (''cannot describe route tables to confirm firewall-in-path: '' @ err)
            ''grant ec2:DescribeRouteTables; without it the in-path assertion is unverified'']
        | Inr tables \<Rightarrow> State_Monad.return (firewall_results tables)
      })"

definition fqdn_result :: "string \<times> string \<Rightarrow> CheckResult list" where
  "fqdn_result target =
     (let (rid, host) = target in
      if host = [] then []
      else [mk_result rid StatusAmber
        (''reachability to '' @ host @ '' over the allowed path is DEFERRED (assert from inside the cluster post-apply)'')
        ''the runbook dials each FQDN from a node; the Suricata allowlist (network module) is the in-path proof''])"

definition checkFQDNReachability :: "'w AWSProvider \<Rightarrow> ('w, CheckResult list) state" where
  "checkFQDNReachability p = do {
     swapped \<leftarrow> mapRangeSwapped (awClients p);
     let fqdnTargets = [(''egress.controlplane_fqdn'', awControlPlaneFQDN (awOptions p)),
                        (''egress.ghcr'', ''ghcr.io'')];
     let order = (if swapped then rev fqdnTargets else fqdnTargets);
     let results = foldl (\<lambda>results t. results @ fqdn_result t) [] order;
     State_Monad.return (results @
       [mk_result ''egress.cloud_api'' StatusAmber
          ''cloud-API endpoint reachability deferred to post-apply'' [],
        mk_result ''egress.observability'' StatusAmber
          ''observability-sink reachability deferred to post-apply'' []])
   }"

definition nat_result :: "string \<Rightarrow> string list go \<Rightarrow> CheckResult" where
  "nat_result vpc nats =
     (case nats of
        Inl err \<Rightarrow> mk_result ''egress.nat'' StatusAmber
          (''VPC available but NAT gateway status unknown: '' @ err)
          ''grant ec2:DescribeNatGateways or confirm a controlled egress path exists''
      | Inr states \<Rightarrow>
          if \<not> list_ex (\<lambda>s. s = ''available'') states then mk_result ''egress.nat'' StatusAmber
            (''VPC '' @ vpc @ '' has no available NAT gateway; controlled egress path not confirmed'')
            ''provision a NAT gateway (network module) or confirm the customer's controlled egress path''
          else mk_result ''egress.nat'' StatusGreen
            (''VPC '' @ vpc @ '' has an available NAT gateway (controlled egress path)'') [])"

definition aws_CheckEgress :: "'w AWSProvider \<Rightarrow> ('w, CheckResult list) state" where
  "aws_CheckEgress p =
     (let vpc = awVPCID (awOptions p) in
      if vpc = [] then State_Monad.return [mk_result ''egress.vpc'' StatusAmber
        ''no VPC configured; egress posture not applicable (no cluster network to validate)''
        ''if a cluster is being deployed, supply the resolved VPC ID; otherwise this stage is informational'']
      else do {
        vpcs \<leftarrow> DescribeVpcs (awClients p) [vpc];
        case vpcs of
          Inl err \<Rightarrow> State_Monad.return [mk_result ''egress.vpc'' StatusRed
            (''cannot describe VPC '' @ vpc @ '': '' @ err)
            ''grant ec2:DescribeVpcs and confirm the VPC ID is correct'']
        | Inr states \<Rightarrow>
            if length states = 0 \<or> states ! 0 \<noteq> ''available''
            then State_Monad.return [mk_result ''egress.vpc'' StatusRed
              (''VPC '' @ vpc @ '' not found or not available'')
              ''supply a resolvable, available VPC (provision the network module or fix the BYO VPC ID)'']
            else do {
              let results = [mk_result ''egress.vpc'' StatusGreen (''VPC '' @ vpc @ '' available'') []];
              nats \<leftarrow> DescribeNatGateways (awClients p) (''vpc-id'', [vpc]);
              firewall \<leftarrow> checkFirewallInPath p;
              fqdn \<leftarrow> checkFQDNReachability p;
              State_Monad.return (results @ [nat_result vpc nats] @ firewall @ fqdn)
            }
      })"

definition aws_provider :: "'w AWSProvider \<Rightarrow> 'w PreflightProvider" where
  "aws_provider p =
     \<lparr>CheckIdentityPermissions = aws_CheckIdentityPermissions p,
      CheckKMSKey = aws_CheckKMSKey p,
      CheckSecretsBackend = aws_CheckSecretsBackend p,
      CheckEgress = aws_CheckEgress p\<rparr>"

subsection \<open>The provider contract\<close>

lemma aws_simulate_good: "pred_state good_results (aws_simulate p actions principalARN)"
  unfolding aws_simulate_def Let_def by (intro outcome_intros) simp_all

lemma aws_identity_good: "pred_state good_results (aws_CheckIdentityPermissions p)"
  unfolding aws_CheckIdentityPermissions_def Let_def aws_unresolved_caller_def
  by (intro outcome_intros aws_simulate_good) simp_all

lemma aws_kms_good: "pred_state good_results (aws_CheckKMSKey p)"
  unfolding aws_CheckKMSKey_def Let_def by (intro outcome_intros) simp_all

interpretation aws_secrets: secrets_backend "aws_secret_result key" "\<lambda>kmsKeyId. kmsKeyId = Some key"
  for key
  by unfold_locales (auto simp: aws_secret_result_def split: sum.splits if_splits)

lemma aws_secret_loop_read_each:
  "aws_secret_loop p arns acc =
     read_each (DescribeSecret (awClients p)) (aws_secret_result (awKMSKeyARN (awOptions p))) arns acc"
  by (induction arns arbitrary: acc) simp_all

lemma aws_secrets_good: "pred_state good_results (aws_CheckSecretsBackend p)"
  unfolding aws_CheckSecretsBackend_def aws_secret_loop_read_each
  by (intro outcome_if aws_secrets.results_good outcome_return) simp_all

lemma firewall_results_good: "good_results (firewall_results rts)"
  by (simp add: firewall_results_def split: prod.split)

lemma checkFirewallInPath_good: "pred_state good_results (checkFirewallInPath p)"
  unfolding checkFirewallInPath_def
  by (intro outcome_intros) (simp_all add: firewall_results_good)

lemma fqdn_result_actionable: "\<forall>r \<in> set (fqdn_result t). actionable r"
  by (cases t) (simp add: fqdn_result_def)

lemma foldl_append_concat: "foldl (\<lambda>rs t. rs @ f t) acc ts = acc @ concat (map f ts)"
  by (induction ts arbitrary: acc) simp_all

lemma checkFQDNReachability_good: "pred_state good_results (checkFQDNReachability p)"
  unfolding checkFQDNReachability_def Let_def foldl_append_concat
  by (intro outcome_intros)
    (auto simp: good_results_def fqdn_result_actionable dest: fqdn_result_actionable [THEN bspec])

lemma nat_result_actionable [simp]: "actionable (nat_result vpc nats)"
  by (simp add: nat_result_def split: sum.split)

lemma egress_tail_good:
  assumes "actionable r" and "actionable n"
  shows "pred_state good_results (do {
      firewall \<leftarrow> checkFirewallInPath p;
      fqdn \<leftarrow> checkFQDNReachability p;
      State_Monad.return ([r] @ [n] @ firewall @ fqdn)
    })"
  by (rule outcome_bind [OF checkFirewallInPath_good], rule outcome_bind [OF checkFQDNReachability_good])
    (use assms in \<open>auto simp: good_results_def intro!: outcome_return\<close>)

lemma aws_egress_good: "pred_state good_results (aws_CheckEgress p)"
  unfolding aws_CheckEgress_def Let_def
  by (rule outcome_if, rule outcome_return, simp, rule outcome_bind_any, rule outcome_sum,
      rule outcome_return, simp, rule outcome_if, rule outcome_return, simp,
      rule outcome_bind_any, rule egress_tail_good) simp_all

interpretation aws: preflight_provider "aws_provider p" for p
  by unfold_locales
    (simp_all add: aws_provider_def aws_identity_good aws_kms_good aws_secrets_good aws_egress_good)

subsection \<open>Runs of the checks\<close>

lemma foldl_filter_map:
  "foldl (\<lambda>acc c. if P c then (case f c of None \<Rightarrow> acc | Some a \<Rightarrow> acc @ [a]) else acc) acc cs =
   acc @ map (the \<circ> f) (filter (\<lambda>c. P c \<and> f c \<noteq> None) cs)"
  by (induction cs arbitrary: acc) (auto split: option.split)

lemma denied_actions_filter:
  "denied_actions evs =
     map (the \<circ> EvalActionName)
       (filter (\<lambda>r. EvalDecision r \<noteq> ''allowed'' \<and> EvalActionName r \<noteq> None) evs)"
  unfolding denied_actions_def by (simp only: foldl_filter_map append_Nil)

lemma denied_actions_Nil_iff:
  "denied_actions evs = [] \<longleftrightarrow>
     (\<forall>e \<in> set evs. EvalDecision e = ''allowed'' \<or> EvalActionName e = None)"
  by (auto simp: denied_actions_filter filter_empty_conv)

lemma foldl_set_flags: "foldl (\<lambda>out c. out(c \<mapsto> True)) m cs c = (if c \<in> set cs then Some True else m c)"
  by (induction cs arbitrary: m) simp_all

lemma provisionConcerns_in:
  "provisionConcerns opts c = Some True \<longleftrightarrow>
     (case awProvisionConcerns opts of None \<Rightarrow> c \<in> set concernOrder | Some cs \<Rightarrow> c \<in> set cs)"
  by (simp add: provisionConcerns_def foldl_set_flags split: option.split)

text \<open>Who the identity check asks about: the configured principal, else the caller.\<close>

definition named_principal :: "'w AWSProvider \<Rightarrow> ('w, string go) state" where
  "named_principal p =
     (if awDeployPrincipalARN (awOptions p) \<noteq> [] then State_Monad.return (Inr (awDeployPrincipalARN (awOptions p)))
      else do {
        caller \<leftarrow> GetCallerIdentity (awClients p);
        State_Monad.return (case caller of Inl err \<Rightarrow> Inl err | Inr None \<Rightarrow> Inl ''<nil>'' | Inr (Some a) \<Rightarrow> Inr a)
      })"

definition deploy_principal :: "'w AWSProvider \<Rightarrow> ('w, string option) state" where
  "deploy_principal p = do {
     arn \<leftarrow> named_principal p;
     State_Monad.return (case arn of Inl _ \<Rightarrow> None | Inr a \<Rightarrow> Some a)
   }"

lemma aws_identity_principal:
  "aws_CheckIdentityPermissions p =
      (if requiredDeployActions (awOptions p) = []
       then State_Monad.return [mk_result ''aws.identity'' StatusAmber
        ''no concerns are being provisioned (fully BYO); deploy-identity provisioning permissions not applicable''
        ''the workload's RUNTIME identity binding is still validated by the Kubernetes stages; no deploy-time provisioning grant is needed here'']
       else do {
         arn \<leftarrow> named_principal p;
         case arn of Inl err \<Rightarrow> State_Monad.return (aws_unresolved_caller err)
         | Inr a \<Rightarrow> aws_simulate p (requiredDeployActions (awOptions p)) a })"
proof -
  have "State_Monad.bind (GetCallerIdentity (awClients p)) (\<lambda>caller. case caller of
          Inl err \<Rightarrow> State_Monad.return (aws_unresolved_caller err)
        | Inr arn \<Rightarrow> (case arn of
               None \<Rightarrow> State_Monad.return (aws_unresolved_caller ''<nil>'')
             | Some a \<Rightarrow> aws_simulate p (requiredDeployActions (awOptions p)) a)) =
      State_Monad.bind (GetCallerIdentity (awClients p)) (\<lambda>caller.
        case (case caller of Inl err \<Rightarrow> Inl err | Inr None \<Rightarrow> Inl ''<nil>'' | Inr (Some a) \<Rightarrow> Inr a) of
          Inl err \<Rightarrow> State_Monad.return (aws_unresolved_caller err)
        | Inr a \<Rightarrow> aws_simulate p (requiredDeployActions (awOptions p)) a)"
    by (rule bind_cong_fun) (simp split: sum.split option.split)
  then show ?thesis
    unfolding aws_CheckIdentityPermissions_def named_principal_def Let_def
    by (simp add: State_Monad.bind_assoc)
qed

lemma aws_simulate_green_iff:
  "StageStatus (fst (run_state (aws_simulate p actions arn) w)) = StatusGreen \<longleftrightarrow>
     (\<exists>evs. fst (run_state (SimulatePrincipalPolicy (awClients p) arn actions) w) = Inr evs \<and>
        (\<forall>e \<in> set evs. EvalDecision e = ''allowed'' \<or> EvalActionName e = None))"
  by (simp add: aws_simulate_def Let_def fst_run_bind del: run_state_bind split: sum.split)
    (simp add: denied_actions_Nil_iff)

lemma scan_routes:
  "foldl scan_route acc rs =
     (fst acc \<or> (\<exists>r \<in> set rs. firewall_route r), snd acc \<or> (\<exists>r \<in> set rs. route_dest r = metadataCIDR))"
  by (induction rs arbitrary: acc) (auto simp: scan_route_def split: prod.split)

lemma scan_route_tables_iff:
  "scan_route_tables rts =
     (\<exists>rt \<in> set rts. \<exists>r \<in> set rt. firewall_route r,
      \<exists>rt \<in> set rts. \<exists>r \<in> set rt. route_dest r = metadataCIDR)"
proof -
  have "foldl (\<lambda>acc rt. foldl scan_route acc rt) acc rts =
     (fst acc \<or> (\<exists>rt \<in> set rts. \<exists>r \<in> set rt. firewall_route r),
      snd acc \<or> (\<exists>rt \<in> set rts. \<exists>r \<in> set rt. route_dest r = metadataCIDR))" for acc
    by (induction rts arbitrary: acc) (auto simp: scan_routes)
  then show ?thesis by (simp add: scan_route_tables_def)
qed

lemma fqdn_all_amber:
  "(\<exists>r \<in> set (fst (run_state (checkFQDNReachability p) w)). crStatus r = StatusAmber) \<and>
   (\<forall>r \<in> set (fst (run_state (checkFQDNReachability p) w)). crStatus r = StatusAmber)"
proof -
  have "\<forall>r \<in> set (fqdn_result t). crStatus r = StatusAmber" for t
    by (cases t) (simp add: fqdn_result_def)
  then show ?thesis
    by (auto simp: checkFQDNReachability_def Let_def foldl_append_concat fst_run_bind simp del: run_state_bind)
qed

lemma nat_result_not_red [simp]: "crStatus (nat_result vpc nats) \<noteq> StatusRed"
  by (simp add: nat_result_def split: sum.split)

subsection \<open>Properties\<close>

text \<open>The simulated actions are the create-actions of the concerns in scope, in the
  fixed order and each once: every concern when the list is nil, exactly the listed ones when it
  is not, so none for an empty list; unknown and repeated entries change nothing.\<close>

lemma requiredDeployActions_in_scope:
  "requiredDeployActions opts =
     map (\<lambda>c. the (deployActionByConcern c))
       (filter (\<lambda>c. case awProvisionConcerns opts of None \<Rightarrow> True | Some cs \<Rightarrow> c \<in> set cs)
          [''kms'', ''secrets'', ''iam'', ''cluster''])"
proof -
  have "requiredDeployActions opts =
      map (\<lambda>c. the (deployActionByConcern c))
        (filter (\<lambda>c. provisionConcerns opts c = Some True \<and> deployActionByConcern c \<noteq> None) concernOrder)"
    unfolding requiredDeployActions_def Let_def by (simp only: foldl_filter_map append_Nil comp_def)
  also have "\<dots> = map (\<lambda>c. the (deployActionByConcern c))
       (filter (\<lambda>c. case awProvisionConcerns opts of None \<Rightarrow> True | Some cs \<Rightarrow> c \<in> set cs) concernOrder)"
    by (rule arg_cong [where f = "map _"], rule filter_cong)
      (auto simp: provisionConcerns_in concernOrder_def deployActionByConcern_def split: option.split)
  finally show ?thesis by (simp only: concernOrder_def)
qed

text \<open>Property C35: the AWS identity stage is green exactly if some action is in scope, a
  principal is known (configured, or resolved by STS), the simulation call succeeds and none of
  the evaluations it returns is a named action with a decision other than \<open>allowed\<close>.  An
  action the simulation returns no evaluation for, or an unnamed denial, does not prevent
  green.\<close>

theorem aws_identity_green_iff:
  "StageStatus (fst (run_state (aws_CheckIdentityPermissions p) w)) = StatusGreen \<longleftrightarrow>
     requiredDeployActions (awOptions p) \<noteq> [] \<and>
     (\<exists>arn w' evs. run_state (deploy_principal p) w = (Some arn, w') \<and>
        fst (run_state (SimulatePrincipalPolicy (awClients p) arn (requiredDeployActions (awOptions p))) w')
          = Inr evs \<and>
        \<not> (\<exists>e \<in> set evs. EvalDecision e \<noteq> ''allowed'' \<and> EvalActionName e \<noteq> None))"
proof -
  have unfold: "aws_CheckIdentityPermissions p =
      (if requiredDeployActions (awOptions p) = []
       then State_Monad.return [mk_result ''aws.identity'' StatusAmber
        ''no concerns are being provisioned (fully BYO); deploy-identity provisioning permissions not applicable''
        ''the workload's RUNTIME identity binding is still validated by the Kubernetes stages; no deploy-time provisioning grant is needed here'']
       else do {
         arn \<leftarrow> named_principal p;
         case arn of Inl err \<Rightarrow> State_Monad.return (aws_unresolved_caller err)
         | Inr a \<Rightarrow> aws_simulate p (requiredDeployActions (awOptions p)) a })"
    by (rule aws_identity_principal)
  obtain arn w' where a: "run_state (named_principal p) w = (arn, w')" by fastforce
  have d: "run_state (deploy_principal p) w = (case arn of Inl _ \<Rightarrow> None | Inr a \<Rightarrow> Some a, w')"
    by (simp add: deploy_principal_def a)
  show ?thesis
    unfolding unfold
    by (cases arn) (simp_all add: a d aws_unresolved_caller_def aws_simulate_green_iff)
qed

text \<open>When reading a secret's description changes nothing, the AWS secrets stage
  has one result per configured ARN, in order, and is green exactly if there are ARNs and each
  one is readable and encrypted with exactly the configured key; any other readable or
  unreadable secret turns the stage red.\<close>

lemma aws_secrets_green_iff:
  assumes "\<And>arn w. run_state (DescribeSecret (awClients p) arn) w = (describe arn, w)"
  shows "StageStatus (fst (run_state (aws_CheckSecretsBackend p) w)) =
      (if awSecretARNs (awOptions p) = [] then StatusAmber
       else if list_all (\<lambda>arn. describe arn = Inr (Some (awKMSKeyARN (awOptions p)))) (awSecretARNs (awOptions p))
       then StatusGreen else StatusRed)"
proof -
  have "(case describe arn of Inl _ \<Rightarrow> False | Inr kmsKeyId \<Rightarrow> kmsKeyId = Some (awKMSKeyARN (awOptions p))) \<longleftrightarrow>
      describe arn = Inr (Some (awKMSKeyARN (awOptions p)))" for arn
    by (simp split: sum.split)
  then show ?thesis
    by (simp add: aws_CheckSecretsBackend_def aws_secret_loop_read_each
        aws_secrets.stable_status [OF assms])
qed

text \<open>Read-only clients with fixed answers, for the witnesses.\<close>

definition fixed_clients :: "(string \<Rightarrow> string option go) \<Rightarrow> nat AWSClients" where
  "fixed_clients describe =
     \<lparr>SimulatePrincipalPolicy = (\<lambda>_ _. State_Monad.return (Inr [])),
      GetCallerIdentity = State_Monad.return (Inr None),
      DescribeKey = (\<lambda>_. State_Monad.return (Inr None)),
      GetKeyRotationStatus = (\<lambda>_. State_Monad.return (Inr True)),
      DescribeSecret = (\<lambda>arn. State_Monad.return (describe arn)),
      DescribeVpcs = (\<lambda>_. State_Monad.return (Inr [])),
      DescribeNatGateways = (\<lambda>_. State_Monad.return (Inr [])),
      DescribeRouteTables = (\<lambda>_. State_Monad.return (Inr [])),
      mapRangeSwapped = State_Monad.return False\<rparr>"

definition secrets_provider :: "string list \<Rightarrow> (string \<Rightarrow> string option go) \<Rightarrow> nat AWSProvider" where
  "secrets_provider arns describe =
     \<lparr>awOptions = \<lparr>awRegion = ''eu-west-1'', awKMSKeyARN = ''key-1'', awSecretARNs = arns, awVPCID = [],
        awEgressPathRef = [], awControlPlaneFQDN = [], awRequiredEgressFQDNs = [],
        awDeployPrincipalARN = [], awProvisionConcerns = None\<rparr>,
      awClients = fixed_clients describe\<rparr>"

theorem aws_secrets_green_witness:
  "StageStatus (fst (run_state (aws_CheckSecretsBackend
      (secrets_provider [''s1'', ''s2''] (\<lambda>arn. if arn = ''s1'' then Inr (Some ''key-1'') else Inl ''denied''))) 0))
     = StatusRed"
  by (subst aws_secrets_green_iff [where describe =
        "\<lambda>arn. if arn = ''s1'' then Inr (Some ''key-1'') else Inl ''denied''"])
    (simp_all add: secrets_provider_def fixed_clients_def)

text \<open>For a resolved egress path, \<open>egress.firewall_inpath\<close> is green exactly if the
  route tables are readable and some table of the VPC sends \<open>0.0.0.0/0\<close> to a gateway whose id
  starts with \<open>vpce-\<close>.  Which table it is, and whether another table sends the default route
  somewhere else, plays no part.  \<open>egress.metadata_block\<close> is reported exactly if the route
  tables were read.\<close>

lemma aws_firewall_inpath_iff:
  "((\<exists>r \<in> set (fst (run_state (checkFirewallInPath p) w)).
       crID r = ''egress.firewall_inpath'' \<and> crStatus r = StatusGreen) \<longleftrightarrow>
     awEgressPathRef (awOptions p) \<noteq> [] \<and>
     (\<exists>rts. fst (run_state (DescribeRouteTables (awClients p) (''vpc-id'', [awVPCID (awOptions p)])) w) = Inr rts \<and>
        (\<exists>rt \<in> set rts. \<exists>r \<in> set rt. DestinationCidrBlock r = Some ''0.0.0.0/0'' \<and>
           (\<exists>g. GatewayId r = Some (''vpce-'' @ g))))) \<and>
   ((\<exists>r \<in> set (fst (run_state (checkFirewallInPath p) w)). crID r = ''egress.metadata_block'') \<longleftrightarrow>
     awEgressPathRef (awOptions p) \<noteq> [] \<and>
     (\<exists>rts. fst (run_state (DescribeRouteTables (awClients p) (''vpc-id'', [awVPCID (awOptions p)])) w) = Inr rts))"
proof -
  have route: "firewall_route r \<longleftrightarrow> DestinationCidrBlock r = Some ''0.0.0.0/0'' \<and>
      (\<exists>g. GatewayId r = Some (''vpce-'' @ g))" for r
    by (auto simp: firewall_route_def route_dest_def HasPrefix_def prefix_def split: option.split)
  obtain rts w' where
    d: "run_state (DescribeRouteTables (awClients p) (''vpc-id'', [awVPCID (awOptions p)])) w = (rts, w')"
    by fastforce
  show ?thesis
    unfolding route [symmetric]
    by (cases rts; cases "awEgressPathRef (awOptions p) = []")
      (simp_all add: d checkFirewallInPath_def firewall_results_def scan_route_tables_iff)
qed

text \<open>The AWS network stage is never green.  It is amber when no VPC is
  configured; otherwise red exactly if the VPC cannot be described, is missing or is not
  available, or the firewall check has a red result; and amber in every other case, because the
  reachability results are deferred.\<close>

lemma aws_egress_status:
  "StageStatus (fst (run_state (aws_CheckEgress p) w)) =
     (if awVPCID (awOptions p) = [] then StatusAmber
      else (case run_state (DescribeVpcs (awClients p) [awVPCID (awOptions p)]) w of
          (Inl err, w1) \<Rightarrow> StatusRed
        | (Inr vpcs, w1) \<Rightarrow>
            if vpcs \<noteq> [] \<and> vpcs ! 0 = ''available'' then
              (if \<exists>r \<in> set (fst (run_state (checkFirewallInPath p)
                (snd (run_state (DescribeNatGateways (awClients p) (''vpc-id'', [awVPCID (awOptions p)])) w1)))).
                crStatus r = StatusRed
               then StatusRed else StatusAmber)
            else StatusRed))"
proof (cases "awVPCID (awOptions p) = []")
  case True
  then show ?thesis by (simp add: aws_CheckEgress_def)
next
  case False
  let ?vpc = "awVPCID (awOptions p)"
  obtain vpcs w1 where v: "run_state (DescribeVpcs (awClients p) [?vpc]) w = (vpcs, w1)" by fastforce
  obtain nats w2 where n: "run_state (DescribeNatGateways (awClients p) (''vpc-id'', [?vpc])) w1 = (nats, w2)"
    by fastforce
  obtain fw w3 where f: "run_state (checkFirewallInPath p) w2 = (fw, w3)" by fastforce
  obtain fq w4 where q: "run_state (checkFQDNReachability p) w3 = (fq, w4)" by fastforce
  have deferred: "(\<exists>r \<in> set fq. crStatus r = StatusAmber)" "\<not> (\<exists>r \<in> set fq. crStatus r = StatusRed)"
    using fqdn_all_amber [of p w3] q by auto
  show ?thesis
    by (cases vpcs)
      (use False v n f q deferred in \<open>auto simp: aws_CheckEgress_def Let_def StageStatus_cases\<close>)
qed

end
