(* ===== verification/GCP_Provider.thy ===== *)
theory GCP_Provider
  imports Cloud_Stages Go_Strings "HOL-Library.Char_ord" "HOL-Library.List_Lexorder"
begin

text \<open>
  \<open>operator/internal/cloud/gcp\<close>: the four GCP checks, the adapters that narrow the SDK clients
  and the constructor.  The SDK clients are the parameters of the model.  The protobuf getters
  are nil-safe, so a nil message is the record of its zero fields; a key version's state is the
  name \<open>String()\<close> prints.
\<close>

subsection \<open>SDK clients and their adapters\<close>

record CryptoKey =
  ckPrimary :: "string option"
  ckNextRotationTime :: "string option"

text \<open>A secret's user-managed replication: each replica's KMS key name, if it has one.
  \<open>None\<close> is automatic replication.\<close>

record GSecret =
  gsUserManaged :: "string option list option"

datatype ClientOption = WithoutAuthentication

record 'w KeyManagementClient =
  kmGetCryptoKey :: "string \<Rightarrow> ('w, CryptoKey go) state"
  kmGetCryptoKeyVersion :: "string \<Rightarrow> ('w, string go) state"

record 'w GSDK =
  FindDefaultCredentials :: "('w, unit go) state"
  NewKeyManagementClient :: "ClientOption list \<Rightarrow> ('w, 'w KeyManagementClient go) state"
  NewSecretManagerClient :: "ClientOption list \<Rightarrow> ('w, (string \<Rightarrow> ('w, GSecret go) state) go) state"
  NewNetworksRESTClient :: "ClientOption list \<Rightarrow> ('w, (string \<Rightarrow> string \<Rightarrow> ('w, unit go) state) go) state"
  NewRoutersRESTClient ::
    "ClientOption list \<Rightarrow> ('w, (string \<Rightarrow> string \<Rightarrow> string \<Rightarrow> ('w, string list go) state) go) state"
  NewResourceManager ::
    "ClientOption list \<Rightarrow> ('w, (string \<Rightarrow> string list \<Rightarrow> ('w, string list go) state) go) state"

record 'w GCPProvider =
  gpProjectID :: string
  gpRegion :: string
  TestProjectIamPermissions :: "string \<Rightarrow> string list \<Rightarrow> ('w, string list go) state"
  GetCryptoKey :: "string \<Rightarrow> ('w, CryptoKey go) state"
  GetCryptoKeyVersion :: "string \<Rightarrow> ('w, string go) state"
  GSecretGet :: "string \<Rightarrow> ('w, GSecret go) state"
  GetNetwork :: "string \<Rightarrow> string \<Rightarrow> ('w, unit go) state"
  ListRouterNats :: "string \<Rightarrow> string \<Rightarrow> string \<Rightarrow> ('w, string list go) state"
  gpKMSKeyID :: string
  gpSecretIDs :: "string list"
  gpNetworkSelfLink :: string
  gpRouterName :: string

record GCPOptions =
  goProjectID :: string
  goRegion :: string
  goKMSKeyID :: string
  goSecretIDs :: "string list"
  goNetworkSelfLink :: string
  goRouterName :: string

text \<open>\<open>kmsAdapter\<close>, \<open>secretsAdapter\<close> and \<open>computeAdapter\<close> forward to their clients.\<close>

definition kms_GetCryptoKey :: "'w KeyManagementClient \<Rightarrow> string \<Rightarrow> ('w, CryptoKey go) state" where
  [simp]: "kms_GetCryptoKey cli name = kmGetCryptoKey cli name"

definition kms_GetCryptoKeyVersion :: "'w KeyManagementClient \<Rightarrow> string \<Rightarrow> ('w, string go) state" where
  [simp]: "kms_GetCryptoKeyVersion cli name = kmGetCryptoKeyVersion cli name"

definition secrets_GetSecret :: "(string \<Rightarrow> ('w, GSecret go) state) \<Rightarrow> string \<Rightarrow> ('w, GSecret go) state" where
  [simp]: "secrets_GetSecret cli name = cli name"

definition compute_GetNetwork ::
    "(string \<Rightarrow> string \<Rightarrow> ('w, unit go) state) \<Rightarrow> string \<Rightarrow> string \<Rightarrow> ('w, unit go) state" where
  [simp]: "compute_GetNetwork net project name = net project name"

definition crm_TestProjectIamPermissions ::
    "(string \<Rightarrow> string list \<Rightarrow> ('w, string list go) state) \<Rightarrow> string \<Rightarrow> string list
      \<Rightarrow> ('w, string list go) state" where
  "crm_TestProjectIamPermissions svc project perms = do {
     resp \<leftarrow> svc project perms;
     case resp of
       Inl err \<Rightarrow> State_Monad.return (Inl err)
     | Inr permissions \<Rightarrow> State_Monad.return (Inr permissions)
   }"

definition compute_ListRouterNats ::
    "(string \<Rightarrow> string \<Rightarrow> string \<Rightarrow> ('w, string list go) state) \<Rightarrow> string \<Rightarrow> string \<Rightarrow> string
      \<Rightarrow> ('w, string list go) state" where
  "compute_ListRouterNats nat_get project region router = do {
     r \<leftarrow> nat_get project region router;
     case r of
       Inl err \<Rightarrow> State_Monad.return (Inl err)
     | Inr nats \<Rightarrow> State_Monad.return (Inr nats)
   }"

definition clientOptions :: "'w GSDK \<Rightarrow> ('w, ClientOption list) state" where
  "clientOptions sdk = do {
     creds \<leftarrow> FindDefaultCredentials sdk;
     case creds of
       Inl _ \<Rightarrow> State_Monad.return [WithoutAuthentication]
     | Inr _ \<Rightarrow> State_Monad.return []
   }"

definition gcp_New :: "'w GSDK \<Rightarrow> GCPOptions \<Rightarrow> ('w, 'w GCPProvider go) state" where
  "gcp_New sdk opts = do {
     co \<leftarrow> clientOptions sdk;
     kmsCli \<leftarrow> NewKeyManagementClient sdk co;
     case kmsCli of Inl err \<Rightarrow> State_Monad.return (Inl err) | Inr kms \<Rightarrow> do {
       smCli \<leftarrow> NewSecretManagerClient sdk co;
       case smCli of Inl err \<Rightarrow> State_Monad.return (Inl err) | Inr sm \<Rightarrow> do {
         netCli \<leftarrow> NewNetworksRESTClient sdk co;
         case netCli of Inl err \<Rightarrow> State_Monad.return (Inl err) | Inr net \<Rightarrow> do {
           natCli \<leftarrow> NewRoutersRESTClient sdk co;
           case natCli of Inl err \<Rightarrow> State_Monad.return (Inl err) | Inr nat_get \<Rightarrow> do {
             crm \<leftarrow> NewResourceManager sdk co;
             case crm of Inl err \<Rightarrow> State_Monad.return (Inl err) | Inr svc \<Rightarrow>
               State_Monad.return (Inr
                 \<lparr>gpProjectID = goProjectID opts, gpRegion = goRegion opts,
                  TestProjectIamPermissions = crm_TestProjectIamPermissions svc,
                  GetCryptoKey = kms_GetCryptoKey kms, GetCryptoKeyVersion = kms_GetCryptoKeyVersion kms,
                  GSecretGet = secrets_GetSecret sm, GetNetwork = compute_GetNetwork net,
                  ListRouterNats = compute_ListRouterNats nat_get,
                  gpKMSKeyID = goKMSKeyID opts, gpSecretIDs = goSecretIDs opts,
                  gpNetworkSelfLink = goNetworkSelfLink opts, gpRouterName = goRouterName opts\<rparr>)
           }
         }
       }
     }
   }"

subsection \<open>Stage 0: identity\<close>

definition requiredDeployPermissions :: "string list" where
  "requiredDeployPermissions =
     [''cloudkms.keyRings.create'', ''cloudkms.cryptoKeys.create'', ''secretmanager.secrets.create'',
      ''iam.roles.create'', ''iam.serviceAccounts.create'', ''container.clusters.create'',
      ''compute.networks.create'']"

definition missing_permissions :: "string list \<Rightarrow> string list" where
  "missing_permissions held =
     (let heldSet = foldl (\<lambda>m perm. m(perm \<mapsto> True)) Map.empty held in
      foldl (\<lambda>missing req. if heldSet req \<noteq> Some True then missing @ [req] else missing)
        [] requiredDeployPermissions)"

definition gcp_CheckIdentityPermissions :: "'w GCPProvider \<Rightarrow> ('w, CheckResult list) state" where
  "gcp_CheckIdentityPermissions p = do {
     out \<leftarrow> TestProjectIamPermissions p (gpProjectID p) requiredDeployPermissions;
     case out of
       Inl err \<Rightarrow> State_Monad.return [mk_result ''gcp.identity.test'' StatusRed
         (''could not test deploy-identity permissions on project '' @ gpProjectID p @ '': '' @ err)
         ''ensure valid GCP application default credentials are present and can call resourcemanager.projects.testIamPermissions'']
     | Inr held \<Rightarrow>
         let missing = missing_permissions held in
         if length missing > 0 then State_Monad.return [mk_result ''gcp.identity.missing'' StatusRed
           (''deploy identity is missing required permissions on project '' @ gpProjectID p @ '': ''
             @ Join (sort missing) '', '')
           ''grant the deploy-time custom role (modules/gcp/iam deploy-policy/role.json) to the deploy identity'']
         else State_Monad.return [mk_result ''gcp.identity'' StatusGreen
           (''deploy identity holds all required permissions on project '' @ gpProjectID p
             @ '' (excess-permission detection is best-effort)'') []]
   }"

subsection \<open>Stage 1: KMS\<close>

definition primaryState :: "CryptoKey \<Rightarrow> string" where
  "primaryState key = (case ckPrimary key of None \<Rightarrow> ''unknown'' | Some st \<Rightarrow> st)"

definition gcp_CheckKMSKey :: "'w GCPProvider \<Rightarrow> ('w, CheckResult list) state" where
  "gcp_CheckKMSKey p = do {
     out \<leftarrow> GetCryptoKey p (gpKMSKeyID p);
     case out of
       Inl err \<Rightarrow> State_Monad.return [mk_result ''gcp.kms.get'' StatusRed
         (''cannot get CryptoKey '' @ gpKMSKeyID p @ '': '' @ err)
         ''grant cloudkms.cryptoKeys.get on the resolved key and confirm the resource id is correct'']
     | Inr key \<Rightarrow>
         if ckPrimary key = None \<or> ckPrimary key \<noteq> Some ''ENABLED''
         then State_Monad.return [mk_result ''gcp.kms.enabled'' StatusRed
           (''CryptoKey '' @ gpKMSKeyID p @ '' primary version is not ENABLED (state: ''
             @ primaryState key @ '')'')
           ''enable the primary CryptoKeyVersion or supply an enabled key in BYO mode'']
         else if ckNextRotationTime key = None
         then State_Monad.return [mk_result ''gcp.kms.rotation'' StatusAmber
           (''CryptoKey '' @ gpKMSKeyID p @ '' is enabled but no automatic rotation is scheduled'')
           ''set a rotation_period on the CryptoKey (rotation policy)'']
         else State_Monad.return [mk_result ''gcp.kms'' StatusGreen
           (''CryptoKey '' @ gpKMSKeyID p @ '' enabled with rotation scheduled'') []]
   }"

subsection \<open>Stage 2: secrets\<close>

text \<open>\<open>GetKmsKeyName\<close> of a replica without customer-managed encryption is the empty string.\<close>

definition replica_key :: "string option \<Rightarrow> string" where
  "replica_key r = (case r of None \<Rightarrow> [] | Some k \<Rightarrow> k)"

fun replicas_match :: "string option list \<Rightarrow> string \<Rightarrow> bool" where
  "replicas_match [] keyID = True"
| "replicas_match (r # rs) keyID = (if replica_key r \<noteq> keyID then False else replicas_match rs keyID)"

definition cmekMatches :: "GSecret \<Rightarrow> string \<Rightarrow> bool" where
  "cmekMatches secret keyID =
     (case gsUserManaged secret of
        None \<Rightarrow> False
      | Some replicas \<Rightarrow> if length replicas = 0 then False else replicas_match replicas keyID)"

definition gcp_secret_result :: "string \<Rightarrow> string \<Rightarrow> GSecret go \<Rightarrow> CheckResult" where
  "gcp_secret_result keyID sid out =
     (case out of
        Inl err \<Rightarrow> mk_result ''gcp.secrets.get'' StatusRed
          (''cannot get secret '' @ sid @ '': '' @ err)
          ''grant secretmanager.secrets.get on the secret and confirm the id''
      | Inr secret \<Rightarrow>
          if \<not> cmekMatches secret keyID then mk_result ''gcp.secrets.encryption'' StatusRed
            (''secret '' @ sid @ '' is not CMEK-encrypted with the resolved key ('' @ keyID @ '')'')
            ''re-create the secret with a user-managed replica using the resolved CryptoKey for CMEK''
          else mk_result ''gcp.secrets'' StatusGreen
            (''secret '' @ sid @ '' is CMEK-encrypted with the resolved key'') [])"

fun gcp_secret_loop ::
    "'w GCPProvider \<Rightarrow> string list \<Rightarrow> CheckResult list \<Rightarrow> ('w, CheckResult list) state" where
  "gcp_secret_loop p [] results = State_Monad.return results"
| "gcp_secret_loop p (sid # sids) results = do {
     out \<leftarrow> GSecretGet p sid;
     gcp_secret_loop p sids (results @ [gcp_secret_result (gpKMSKeyID p) sid out])
   }"

definition gcp_CheckSecretsBackend :: "'w GCPProvider \<Rightarrow> ('w, CheckResult list) state" where
  "gcp_CheckSecretsBackend p =
     (if length (gpSecretIDs p) = 0
      then State_Monad.return [mk_result ''gcp.secrets'' StatusAmber
        ''no secrets configured to validate''
        ''if the workload needs secrets, provide their ids; otherwise this is informational'']
      else gcp_secret_loop p (gpSecretIDs p) [])"

subsection \<open>Stage 3: egress\<close>

text \<open>The loop of \<open>lastSegment\<close>: the second argument is \<open>i + 1\<close>.\<close>

fun lastSegment_loop :: "string \<Rightarrow> nat \<Rightarrow> string" where
  "lastSegment_loop s 0 = s"
| "lastSegment_loop s (Suc i) = (if s ! i = CHR ''/'' then drop (i + 1) s else lastSegment_loop s i)"

definition lastSegment :: "string \<Rightarrow> string" where
  "lastSegment s = lastSegment_loop s (length s)"

definition gcp_CheckEgress :: "'w GCPProvider \<Rightarrow> ('w, CheckResult list) state" where
  "gcp_CheckEgress p = do {
     let netName = lastSegment (gpNetworkSelfLink p);
     network \<leftarrow> GetNetwork p (gpProjectID p) netName;
     case network of
       Inl err \<Rightarrow> State_Monad.return [mk_result ''egress.vpc'' StatusRed
         (''cannot get VPC network '' @ gpNetworkSelfLink p @ '': '' @ err)
         ''grant compute.networks.get and confirm the network self-link is correct'']
     | Inr _ \<Rightarrow>
         if gpRouterName p = [] then State_Monad.return [mk_result ''egress.nat'' StatusAmber
           ''VPC resolves but no Cloud Router was supplied to confirm a Cloud NAT egress path''
           ''supply the Cloud Router name (network module's router), or confirm the customer's controlled egress path'']
         else do {
           nats \<leftarrow> ListRouterNats p (gpProjectID p) (gpRegion p) (gpRouterName p);
           case nats of
             Inl err \<Rightarrow> State_Monad.return [mk_result ''egress.nat'' StatusAmber
               (''VPC resolves but Cloud NAT status unknown: '' @ err)
               ''grant compute.routers.get or confirm a controlled egress path exists'']
           | Inr ns \<Rightarrow>
               if length ns = 0 then State_Monad.return [mk_result ''egress.nat'' StatusAmber
                 (''VPC '' @ gpNetworkSelfLink p @ '' has no Cloud NAT on router '' @ gpRouterName p
                   @ ''; controlled egress path not confirmed'')
                 ''provision a Cloud NAT (network module) or confirm the customer's controlled egress path'']
               else State_Monad.return [mk_result ''egress.vpc'' StatusGreen
                 (''VPC '' @ gpNetworkSelfLink p @ '' resolves with a controlled egress path (Cloud NAT)'') []]
         }
   }"

definition gcp_provider :: "'w GCPProvider \<Rightarrow> 'w PreflightProvider" where
  "gcp_provider p =
     \<lparr>CheckIdentityPermissions = gcp_CheckIdentityPermissions p,
      CheckKMSKey = gcp_CheckKMSKey p,
      CheckSecretsBackend = gcp_CheckSecretsBackend p,
      CheckEgress = gcp_CheckEgress p\<rparr>"

subsection \<open>The provider contract\<close>

interpretation gcp_secrets: secrets_backend "gcp_secret_result key" "\<lambda>secret. cmekMatches secret key"
  for key
  by unfold_locales (auto simp: gcp_secret_result_def split: sum.splits if_splits)

lemma gcp_secret_loop_read_each:
  "gcp_secret_loop p sids acc = read_each (GSecretGet p) (gcp_secret_result (gpKMSKeyID p)) sids acc"
  by (induction sids arbitrary: acc) simp_all

lemma gcp_identity_good: "pred_state good_results (gcp_CheckIdentityPermissions p)"
  unfolding gcp_CheckIdentityPermissions_def Let_def by (intro outcome_intros) simp_all

lemma gcp_kms_good: "pred_state good_results (gcp_CheckKMSKey p)"
  unfolding gcp_CheckKMSKey_def by (intro outcome_intros) simp_all

lemma gcp_secrets_good: "pred_state good_results (gcp_CheckSecretsBackend p)"
  unfolding gcp_CheckSecretsBackend_def gcp_secret_loop_read_each
  by (intro outcome_if gcp_secrets.results_good outcome_return) simp_all

lemma gcp_egress_good: "pred_state good_results (gcp_CheckEgress p)"
  unfolding gcp_CheckEgress_def Let_def by (intro outcome_intros) simp_all

interpretation gcp: preflight_provider "gcp_provider p" for p
  by unfold_locales
    (simp_all add: gcp_provider_def gcp_identity_good gcp_kms_good gcp_secrets_good gcp_egress_good)

subsection \<open>What the helpers compute\<close>

lemma held_set: "foldl (\<lambda>m perm. m(perm \<mapsto> True)) m held perm =
   (if perm \<in> set held then Some True else m perm)"
  by (induction held arbitrary: m) simp_all

lemma missing_permissions_filter:
  "missing_permissions held = filter (\<lambda>req. req \<notin> set held) requiredDeployPermissions"
proof -
  have "foldl (\<lambda>missing req. if P req then missing @ [req] else missing) acc reqs = acc @ filter P reqs"
    for P :: "string \<Rightarrow> bool" and acc reqs
    by (induction reqs arbitrary: acc) simp_all
  then show ?thesis by (simp add: missing_permissions_def Let_def held_set)
qed

lemma replicas_match_iff: "replicas_match rs keyID \<longleftrightarrow> list_all (\<lambda>r. replica_key r = keyID) rs"
  by (induction rs) simp_all

lemma lastSegment_loop_split:
  "i \<le> length s \<Longrightarrow> CHR ''/'' \<notin> set (drop i s) \<Longrightarrow>
   CHR ''/'' \<notin> set (lastSegment_loop s i) \<and>
   (\<exists>pre. s = pre @ lastSegment_loop s i \<and> (pre = [] \<or> last pre = CHR ''/''))"
proof (induction i)
  case (Suc i)
  show ?case
  proof (cases "s ! i = CHR ''/''")
    case True
    have "s = take (Suc i) s @ drop (Suc i) s" by simp
    moreover have "last (take (Suc i) s) = CHR ''/''"
      using Suc.prems(1) True by (simp add: take_Suc_conv_app_nth)
    ultimately have "\<exists>pre. s = pre @ drop (i + 1) s \<and> (pre = [] \<or> last pre = CHR ''/'')"
      by (metis Suc_eq_plus1)
    moreover have "lastSegment_loop s (Suc i) = drop (i + 1) s" using True by simp
    moreover have "CHR ''/'' \<notin> set (drop (i + 1) s)" using Suc.prems(2) by simp
    ultimately show ?thesis by metis
  next
    case False
    have "drop i s = s ! i # drop (Suc i) s" using Suc.prems(1) by (simp add: Cons_nth_drop_Suc)
    with False Suc.prems(2) have "CHR ''/'' \<notin> set (drop i s)" by auto
    with Suc False show ?thesis by simp
  qed
qed auto

subsection \<open>Properties\<close>

text \<open>Property C36: the GCP identity stage is green exactly if the permission test succeeds and
  every required permission is among those it returns; a failed call, or a permission it leaves
  out, is red, and then the message lists exactly the missing ones in sorted order.\<close>

theorem gcp_identity_fails_closed:
  "fst (run_state (gcp_CheckIdentityPermissions p) w) =
     (case fst (run_state (TestProjectIamPermissions p (gpProjectID p) requiredDeployPermissions) w) of
        Inl err \<Rightarrow> [mk_result ''gcp.identity.test'' StatusRed
          (''could not test deploy-identity permissions on project '' @ gpProjectID p @ '': '' @ err)
          ''ensure valid GCP application default credentials are present and can call resourcemanager.projects.testIamPermissions'']
      | Inr held \<Rightarrow>
          if set requiredDeployPermissions \<subseteq> set held
          then [mk_result ''gcp.identity'' StatusGreen
            (''deploy identity holds all required permissions on project '' @ gpProjectID p
              @ '' (excess-permission detection is best-effort)'') []]
          else [mk_result ''gcp.identity.missing'' StatusRed
            (''deploy identity is missing required permissions on project '' @ gpProjectID p @ '': ''
              @ Join (sorted_list_of_set (set requiredDeployPermissions - set held)) '', '')
            ''grant the deploy-time custom role (modules/gcp/iam deploy-policy/role.json) to the deploy identity''])"
proof -
  have dist: "distinct requiredDeployPermissions"
    by (simp add: requiredDeployPermissions_def)
  have sorted: "sort (missing_permissions held) =
      sorted_list_of_set (set requiredDeployPermissions - set held)" for held
  proof -
    have "set (missing_permissions held) = set requiredDeployPermissions - set held"
      by (auto simp: missing_permissions_filter)
    moreover have "distinct (missing_permissions held)"
      using dist by (simp add: missing_permissions_filter)
    ultimately show ?thesis by (metis sorted_list_of_set_sort_remdups remdups_id_iff_distinct)
  qed
  have none: "length (missing_permissions held) > 0 \<longleftrightarrow>
      \<not> set requiredDeployPermissions \<subseteq> set held" for held
    by (auto simp: missing_permissions_filter filter_empty_conv)
  show ?thesis
    unfolding gcp_CheckIdentityPermissions_def Let_def fst_run_bind none sorted
    by (simp split: sum.split)
qed

text \<open>A secret passes the CMEK test exactly if it has user-managed replication, at
  least one replica, and every replica names the given key, where a replica without
  customer-managed encryption counts as naming the empty key.  So with no key configured an
  unencrypted user-managed secret passes.\<close>

lemma cmekMatches_iff:
  "(cmekMatches secret key \<longleftrightarrow>
     (\<exists>reps. gsUserManaged secret = Some reps \<and> reps \<noteq> [] \<and>
        list_all (\<lambda>r. r = Some key \<or> (r = None \<and> key = [])) reps)) \<and>
   cmekMatches \<lparr>gsUserManaged = Some [None]\<rparr> []"
proof
  have r: "replica_key r = key \<longleftrightarrow> r = Some key \<or> (r = None \<and> key = [])" for r
    by (auto simp: replica_key_def split: option.split)
  show "cmekMatches secret key \<longleftrightarrow>
     (\<exists>reps. gsUserManaged secret = Some reps \<and> reps \<noteq> [] \<and>
        list_all (\<lambda>r. r = Some key \<or> (r = None \<and> key = [])) reps)"
    by (auto simp: cmekMatches_def replicas_match_iff r split: option.split)
qed (simp add: cmekMatches_def replica_key_def)

text \<open>When reading a secret changes nothing, the GCP secrets stage is amber without
  secrets, green exactly if each listed secret is readable and passes the CMEK test against the
  configured key, and red otherwise.\<close>

lemma gcp_secrets_status:
  assumes "\<And>sid w. run_state (GSecretGet p sid) w = (answer sid, w)"
  shows "StageStatus (fst (run_state (gcp_CheckSecretsBackend p) w)) =
      (if gpSecretIDs p = [] then StatusAmber
       else if list_all (\<lambda>sid. case answer sid of Inl _ \<Rightarrow> False | Inr secret \<Rightarrow> cmekMatches secret (gpKMSKeyID p))
              (gpSecretIDs p)
       then StatusGreen else StatusRed)"
  by (simp add: gcp_CheckSecretsBackend_def gcp_secret_loop_read_each
      gcp_secrets.stable_status [OF assms])

definition fixed_gcp :: "string list \<Rightarrow> (string \<Rightarrow> GSecret go) \<Rightarrow> nat GCPProvider" where
  "fixed_gcp sids answer =
     \<lparr>gpProjectID = ''p'', gpRegion = ''r'',
      TestProjectIamPermissions = (\<lambda>_ perms. State_Monad.return (Inr perms)),
      GetCryptoKey = (\<lambda>_. State_Monad.return (Inl ''denied'')),
      GetCryptoKeyVersion = (\<lambda>_. State_Monad.return (Inl ''denied'')),
      GSecretGet = (\<lambda>sid. State_Monad.return (answer sid)),
      GetNetwork = (\<lambda>_ _. State_Monad.return (Inr ())),
      ListRouterNats = (\<lambda>_ _ _. State_Monad.return (Inr [])),
      gpKMSKeyID = ''k'', gpSecretIDs = sids, gpNetworkSelfLink = ''net'', gpRouterName = ''rt''\<rparr>"

theorem gcp_secrets_status_witness:
  "StageStatus (fst (run_state (gcp_CheckSecretsBackend
      (fixed_gcp [''a''] (\<lambda>_. Inr \<lparr>gsUserManaged = Some [Some ''k'', Some ''k'']\<rparr>))) 0)) = StatusGreen"
  by (subst gcp_secrets_status [where answer = "\<lambda>_. Inr \<lparr>gsUserManaged = Some [Some ''k'', Some ''k'']\<rparr>"])
    (simp_all add: fixed_gcp_def cmekMatches_def replica_key_def)

text \<open>The network name the GCP egress check asks for is the part of the self-link
  after its last slash: it contains no slash, and the link is this name after a prefix that is
  empty or ends in a slash.\<close>

lemma lastSegment_after_last_slash:
  "CHR ''/'' \<notin> set (lastSegment s) \<and>
   (\<exists>pre. s = pre @ lastSegment s \<and> (pre = [] \<or> last pre = CHR ''/''))"
  unfolding lastSegment_def by (rule lastSegment_loop_split) simp_all

end
