(* ===== verification/Azure_Provider.thy ===== *)
theory Azure_Provider
  imports Cloud_Stages Go_Strings
begin

text \<open>
  \<open>operator/internal/cloud/azure\<close>: the four Azure checks, the pager adapter and the
  constructor.  The SDK clients are the parameters of the model.  Pointer fields are options; the
  entries of a subnet list are records, since the resource manager returns no null entries there
  (the code dereferences them unchecked), while the entries of a role assignment list may be nil.
\<close>

record RoleAssignmentProperties =
  raPrincipalID :: "string option"
  raRoleDefinitionID :: "string option"

record RoleAssignment =
  raProperties :: "RoleAssignmentProperties option"

record KeyAttributes =
  kaEnabled :: "bool option"
  kaExpires :: "string option"

record Subnet =
  snProperties :: "string option option option"

text \<open>A subnet's properties, its route table and the route table's id are nested pointers.  A
  VNet response is its properties, which hold the subnets.\<close>

type_synonym VNet = "Subnet list option"

record 'w AzureProvider =
  apSubscriptionID :: string
  GetKey :: "string \<Rightarrow> ('w, KeyAttributes option go) state"
  GetSecret :: "string \<Rightarrow> ('w, unit go) state"
  ListForScope :: "string \<Rightarrow> string \<Rightarrow> ('w, RoleAssignment option list go) state"
  GetVNet :: "string \<Rightarrow> string \<Rightarrow> ('w, VNet go) state"
  apKeyVaultURI :: string
  apKeyName :: string
  apKeyVaultID :: string
  apSecretNames :: "string list"
  apVNetID :: string
  apUAMIPrincipalID :: string

record AzureOptions =
  aoSubscriptionID :: string
  aoKeyVaultURI :: string
  aoKeyName :: string
  aoKeyVaultID :: string
  aoSecretNames :: "string list"
  aoVNetID :: string
  aoUAMIPrincipalID :: string

subsection \<open>Construction\<close>

text \<open>A pager is the sequence of its page requests: \<open>More\<close> holds while any is left.\<close>

type_synonym 'w pager = "('w, RoleAssignment option list go) state list"

record ('w, 'cred) AzureSDK =
  NewDefaultAzureCredential :: "('w, 'cred go) state"
  NewKeysClient :: "string \<Rightarrow> 'cred \<Rightarrow> (string \<Rightarrow> ('w, KeyAttributes option go) state) go"
  NewSecretsClient :: "string \<Rightarrow> 'cred \<Rightarrow> (string \<Rightarrow> ('w, unit go) state) go"
  NewRoleAssignmentsClient :: "string \<Rightarrow> 'cred \<Rightarrow> (string \<Rightarrow> string option \<Rightarrow> 'w pager) go"
  NewVirtualNetworksClient ::
    "string \<Rightarrow> 'cred \<Rightarrow> (string \<Rightarrow> string \<Rightarrow> unit option \<Rightarrow> ('w, VNet go) state) go"

fun drain_pager ::
    "'w pager \<Rightarrow> RoleAssignment option list \<Rightarrow> ('w, RoleAssignment option list go) state" where
  "drain_pager [] out = State_Monad.return (Inr out)"
| "drain_pager (next_page # pages) out = do {
     page \<leftarrow> next_page;
     case page of
       Inl err \<Rightarrow> State_Monad.return (Inl err)
     | Inr assignments \<Rightarrow> drain_pager pages (out @ assignments)
   }"

definition roleAssign_ListForScope ::
    "(string \<Rightarrow> string option \<Rightarrow> 'w pager) \<Rightarrow> string \<Rightarrow> string
      \<Rightarrow> ('w, RoleAssignment option list go) state" where
  "roleAssign_ListForScope newPager scope fltr =
     (let opts = (if fltr \<noteq> [] then Some fltr else None) in
      drain_pager (newPager scope opts) [])"

text \<open>\<open>vnetAdapter\<close> calls the client without options.\<close>

definition vnet_Get ::
    "(string \<Rightarrow> string \<Rightarrow> unit option \<Rightarrow> ('w, VNet go) state) \<Rightarrow> string \<Rightarrow> string \<Rightarrow> ('w, VNet go) state" where
  "vnet_Get c resourceGroup vnetName = c resourceGroup vnetName None"

definition azure_New ::
    "('w, 'cred) AzureSDK \<Rightarrow> AzureOptions \<Rightarrow> ('w, 'w AzureProvider go) state" where
  "azure_New sdk opts = do {
     credential \<leftarrow> NewDefaultAzureCredential sdk;
     case credential of Inl err \<Rightarrow> State_Monad.return (Inl err) | Inr cred \<Rightarrow>
     (case NewKeysClient sdk (aoKeyVaultURI opts) cred of Inl err \<Rightarrow> State_Monad.return (Inl err) | Inr keys \<Rightarrow>
     (case NewSecretsClient sdk (aoKeyVaultURI opts) cred of Inl err \<Rightarrow> State_Monad.return (Inl err) | Inr secrets \<Rightarrow>
     (case NewRoleAssignmentsClient sdk (aoSubscriptionID opts) cred of Inl err \<Rightarrow> State_Monad.return (Inl err) | Inr ra \<Rightarrow>
     (case NewVirtualNetworksClient sdk (aoSubscriptionID opts) cred of Inl err \<Rightarrow> State_Monad.return (Inl err) | Inr vnet \<Rightarrow>
       State_Monad.return (Inr
         \<lparr>apSubscriptionID = aoSubscriptionID opts, GetKey = keys, GetSecret = secrets,
          ListForScope = roleAssign_ListForScope ra, GetVNet = vnet_Get vnet,
          apKeyVaultURI = aoKeyVaultURI opts, apKeyName = aoKeyName opts,
          apKeyVaultID = aoKeyVaultID opts, apSecretNames = aoSecretNames opts,
          apVNetID = aoVNetID opts, apUAMIPrincipalID = aoUAMIPrincipalID opts\<rparr>)))))
   }"

subsection \<open>Stage 0: identity\<close>

definition builtInPrivilegedRoleGUIDs :: "string \<rightharpoonup> string" where
  "builtInPrivilegedRoleGUIDs =
     [''8e3af657-a8ff-443c-a75c-2fe8c4bcb635'' \<mapsto> ''Owner'',
      ''b24988ac-6180-42a0-ab88-20f7382dd24c'' \<mapsto> ''Contributor'',
      ''18d7d88d-d35e-4fb5-a5c3-7773c20a72d9'' \<mapsto> ''User Access Administrator'']"

definition roles_for :: "string \<Rightarrow> RoleAssignment option list \<Rightarrow> string list" where
  "roles_for uami assignments =
     foldl (\<lambda>forUAMI a.
         case a of None \<Rightarrow> forUAMI | Some ra \<Rightarrow>
         (case raProperties ra of None \<Rightarrow> forUAMI | Some props \<Rightarrow>
         (case raPrincipalID props of None \<Rightarrow> forUAMI | Some pid \<Rightarrow>
         (case raRoleDefinitionID props of None \<Rightarrow> forUAMI | Some rid \<Rightarrow>
            if \<not> EqualFold pid uami then forUAMI else forUAMI @ [rid]))))
       [] assignments"

definition role_guid :: "string \<Rightarrow> string" where
  "role_guid roleDefID = drop (nat (LastIndex roleDefID (CHR ''/'') + 1)) roleDefID"

fun first_privileged :: "string list \<Rightarrow> string option" where
  "first_privileged [] = None"
| "first_privileged (rid # rids) =
     (case builtInPrivilegedRoleGUIDs (ToLower (role_guid rid)) of
        Some name \<Rightarrow> Some name
      | None \<Rightarrow> first_privileged rids)"

definition azure_CheckIdentityPermissions :: "'w AzureProvider \<Rightarrow> ('w, CheckResult list) state" where
  "azure_CheckIdentityPermissions p = do {
     out \<leftarrow> ListForScope p (apKeyVaultID p) [];
     case out of
       Inl err \<Rightarrow> State_Monad.return [mk_result ''azure.identity.list'' StatusRed
         (''could not list role assignments at '' @ apKeyVaultID p @ '': '' @ err)
         ''grant Microsoft.Authorization/roleAssignments/read to the preflight identity, or review the assignment manually'']
     | Inr assignments \<Rightarrow>
         let forUAMI = roles_for (apUAMIPrincipalID p) assignments in
         if length forUAMI = 0 then State_Monad.return [mk_result ''azure.identity.missing'' StatusRed
           (''workload UAMI '' @ apUAMIPrincipalID p @ '' has no role assignment at the resolved Key Vault ''
             @ apKeyVaultID p)
           ''assign the custom workload role to the UAMI scoped to the resolved Key Vault (modules/azure/iam role-definition.json)'']
         else (case first_privileged forUAMI of
             Some name \<Rightarrow> State_Monad.return [mk_result ''azure.identity.excess'' StatusAmber
               (''workload UAMI holds the built-in privileged role '' @ Quote name @ '' at '' @ apKeyVaultID p
                 @ '' '' @ em_dash @ '' exceeds least privilege'')
               ''replace the built-in privileged role with the scoped custom workload role (no Owner/Contributor)'']
           | None \<Rightarrow> State_Monad.return [mk_result ''azure.identity'' StatusGreen
               (''workload UAMI holds a scoped (non-privileged) role at '' @ apKeyVaultID p
                 @ '' (excess-permission detection is best-effort)'') []])
   }"

subsection \<open>Stage 1: KMS\<close>

definition azure_CheckKMSKey :: "'w AzureProvider \<Rightarrow> ('w, CheckResult list) state" where
  "azure_CheckKMSKey p = do {
     out \<leftarrow> GetKey p (apKeyName p);
     case out of
       Inl err \<Rightarrow> State_Monad.return [mk_result ''azure.kms.get'' StatusRed
         (''cannot get Key Vault key '' @ apKeyName p @ '' in '' @ apKeyVaultURI p @ '': '' @ err)
         ''grant the deploy identity Key Vault Crypto/Reader on the resolved vault and confirm the key name'']
     | Inr attrs \<Rightarrow>
         if (case attrs of None \<Rightarrow> True | Some a \<Rightarrow> kaEnabled a = None \<or> kaEnabled a \<noteq> Some True)
         then State_Monad.return [mk_result ''azure.kms.enabled'' StatusRed
           (''Key Vault key '' @ apKeyName p @ '' is not enabled'')
           ''enable the key or supply an enabled key in BYO mode'']
         else if (case attrs of None \<Rightarrow> True | Some a \<Rightarrow> kaExpires a = None)
         then State_Monad.return [mk_result ''azure.kms.rotation'' StatusAmber
           (''Key Vault key '' @ apKeyName p @ '' is enabled but no rotation/expiry policy is set'')
           ''configure an automatic rotation policy'']
         else State_Monad.return [mk_result ''azure.kms'' StatusGreen
           (''Key Vault key '' @ apKeyName p @ '' enabled with a rotation/expiry policy'') []]
   }"

subsection \<open>Stage 2: secrets\<close>

definition azure_secret_result :: "string \<Rightarrow> string \<Rightarrow> unit go \<Rightarrow> CheckResult" where
  "azure_secret_result vault name out =
     (case out of
        Inl err \<Rightarrow> mk_result ''azure.secrets.get'' StatusRed
          (''cannot get secret '' @ name @ '' in vault '' @ vault @ '': '' @ err)
          ''grant Key Vault Secrets User on the resolved vault and confirm the secret name''
      | Inr _ \<Rightarrow> mk_result ''azure.secrets'' StatusGreen
          (''secret '' @ name @ '' present in the resolved Key Vault (key-encrypted at rest)'') [])"

fun azure_secret_loop ::
    "'w AzureProvider \<Rightarrow> string list \<Rightarrow> CheckResult list \<Rightarrow> ('w, CheckResult list) state" where
  "azure_secret_loop p [] results = State_Monad.return results"
| "azure_secret_loop p (name # names) results = do {
     out \<leftarrow> GetSecret p name;
     azure_secret_loop p names (results @ [azure_secret_result (apKeyVaultURI p) name out])
   }"

definition azure_CheckSecretsBackend :: "'w AzureProvider \<Rightarrow> ('w, CheckResult list) state" where
  "azure_CheckSecretsBackend p =
     (if length (apSecretNames p) = 0
      then State_Monad.return [mk_result ''azure.secrets'' StatusAmber
        ''no secrets configured to validate''
        ''if the workload needs secrets, provide their names; otherwise this is informational'']
      else azure_secret_loop p (apSecretNames p) [])"

subsection \<open>Stage 3: egress\<close>

text \<open>The loop of \<open>rgAndName\<close>: the index runs up over the parts.\<close>

fun find_rg :: "string list \<Rightarrow> nat list \<Rightarrow> string \<Rightarrow> string" where
  "find_rg parts [] rg = rg"
| "find_rg parts (i # is) rg =
     find_rg parts is
       (if EqualFold (parts ! i) ''resourceGroups'' \<and> i + 1 < length parts then parts ! (i + 1) else rg)"

definition rgAndName :: "string \<Rightarrow> string \<times> string" where
  "rgAndName vnetID =
     (let parts = Split vnetID (CHR ''/'');
          rg = find_rg parts [0..<length parts] [];
          name = (if length parts > 0 then parts ! (length parts - 1) else [])
      in (rg, name))"

definition has_route_table :: "Subnet \<Rightarrow> bool" where
  "has_route_table s =
     (case snProperties s of None \<Rightarrow> False
      | Some rt \<Rightarrow> (case rt of None \<Rightarrow> False | Some rtid \<Rightarrow> rtid \<noteq> None))"

definition azure_CheckEgress :: "'w AzureProvider \<Rightarrow> ('w, CheckResult list) state" where
  "azure_CheckEgress p = do {
     let rg_name = rgAndName (apVNetID p);
     out \<leftarrow> GetVNet p (fst rg_name) (snd rg_name);
     case out of
       Inl err \<Rightarrow> State_Monad.return [mk_result ''azure.egress.vnet'' StatusRed
         (''cannot get VNet '' @ apVNetID p @ '': '' @ err)
         ''grant Microsoft.Network/virtualNetworks/read and confirm the VNet ID is correct'']
     | Inr properties \<Rightarrow>
         (case properties of
            None \<Rightarrow> State_Monad.return [mk_result ''azure.egress.vnet'' StatusRed
              (''VNet '' @ apVNetID p @ '' has no subnets'')
              ''supply a resolvable VNet with a node subnet (provision the network module or fix the BYO VNet)'']
          | Some subnets \<Rightarrow>
              if length subnets = 0
              then State_Monad.return [mk_result ''azure.egress.vnet'' StatusRed
                (''VNet '' @ apVNetID p @ '' has no subnets'')
                ''supply a resolvable VNet with a node subnet (provision the network module or fix the BYO VNet)'']
              else if \<not> list_ex has_route_table subnets
              then State_Monad.return [mk_result ''azure.egress.udr'' StatusAmber
                (''VNet '' @ apVNetID p @ '' has no subnet route table; controlled egress path (UDR ''
                  @ right_arrow @ '' firewall) not confirmed'')
                ''attach a route table forcing 0.0.0.0/0 through the Azure Firewall (network module), or confirm the customer's controlled egress path'']
              else State_Monad.return [mk_result ''azure.egress'' StatusGreen
                (''VNet '' @ apVNetID p @ '' present with a controlled egress path (UDR route table)'') []])
   }"

definition azure_provider :: "'w AzureProvider \<Rightarrow> 'w PreflightProvider" where
  "azure_provider p =
     \<lparr>CheckIdentityPermissions = azure_CheckIdentityPermissions p,
      CheckKMSKey = azure_CheckKMSKey p,
      CheckSecretsBackend = azure_CheckSecretsBackend p,
      CheckEgress = azure_CheckEgress p\<rparr>"

subsection \<open>The provider contract\<close>

interpretation azure_secrets: secrets_backend "azure_secret_result vault" "\<lambda>_. True" for vault
  by unfold_locales (auto simp: azure_secret_result_def split: sum.splits if_splits)

lemma azure_secret_loop_read_each:
  "azure_secret_loop p names acc = read_each (GetSecret p) (azure_secret_result (apKeyVaultURI p)) names acc"
  by (induction names arbitrary: acc) simp_all

lemma azure_identity_good: "pred_state good_results (azure_CheckIdentityPermissions p)"
  unfolding azure_CheckIdentityPermissions_def Let_def by (intro outcome_intros) simp_all

lemma azure_kms_good: "pred_state good_results (azure_CheckKMSKey p)"
  unfolding azure_CheckKMSKey_def by (intro outcome_intros) simp_all

lemma azure_secrets_good: "pred_state good_results (azure_CheckSecretsBackend p)"
  unfolding azure_CheckSecretsBackend_def azure_secret_loop_read_each
  by (intro outcome_if azure_secrets.results_good outcome_return) simp_all

lemma azure_egress_good: "pred_state good_results (azure_CheckEgress p)"
  unfolding azure_CheckEgress_def Let_def by (intro outcome_intros) simp_all

interpretation azure: preflight_provider "azure_provider p" for p
  by unfold_locales
    (simp_all add: azure_provider_def azure_identity_good azure_kms_good azure_secrets_good azure_egress_good)

subsection \<open>What the helpers compute\<close>

definition assigned_roles :: "string \<Rightarrow> RoleAssignment option list \<Rightarrow> string set" where
  "assigned_roles uami assignments =
     {rid. \<exists>ra props pid. Some ra \<in> set assignments \<and> raProperties ra = Some props \<and>
        raPrincipalID props = Some pid \<and> raRoleDefinitionID props = Some rid \<and> EqualFold pid uami}"

lemma set_roles_for: "set (roles_for uami assignments) = assigned_roles uami assignments"
proof (induction assignments rule: rev_induct)
  case Nil
  then show ?case by (simp add: roles_for_def assigned_roles_def)
next
  case (snoc a as)
  have "assigned_roles uami (as @ [a]) = assigned_roles uami as \<union> assigned_roles uami [a]"
    by (auto simp: assigned_roles_def)
  moreover have "set (roles_for uami (as @ [a])) = set (roles_for uami as) \<union> assigned_roles uami [a]"
    by (auto simp: roles_for_def assigned_roles_def split: option.splits)
  ultimately show ?case using snoc by simp
qed

lemma first_privileged_iff:
  "first_privileged rids = None \<longleftrightarrow>
     \<not> (\<exists>rid \<in> set rids. ToLower (last (Split rid (CHR ''/''))) \<in> dom builtInPrivilegedRoleGUIDs)"
  by (induction rids) (auto simp: role_guid_def drop_LastIndex dom_def split: option.split)

lemma Split_slash:
  "CHR ''/'' \<notin> set s \<Longrightarrow> Split (s @ CHR ''/'' # t) (CHR ''/'') = s # Split t (CHR ''/'')"
  by (induction s) auto

lemma Split_single: "sep \<notin> set s \<Longrightarrow> Split s sep = [s]"
  by (induction s) auto

subsection \<open>Properties\<close>

text \<open>Property C37: the Azure identity stage looks at the roles assigned, at the key vault, to
  the workload identity, whose id is compared without regard to letter case and where entries
  with a missing field are passed over.  It is red if the list cannot be read or there is no
  such role; amber if the last segment of some role id is, in any letter case, one of the
  three privileged built-in roles; green otherwise.\<close>

theorem azure_identity_status:
  "StageStatus (fst (run_state (azure_CheckIdentityPermissions p) w)) =
     (case fst (run_state (ListForScope p (apKeyVaultID p) []) w) of
        Inl err \<Rightarrow> StatusRed
      | Inr assignments \<Rightarrow>
          if assigned_roles (apUAMIPrincipalID p) assignments = {} then StatusRed
          else if \<exists>rid \<in> assigned_roles (apUAMIPrincipalID p) assignments.
              ToLower (last (Split rid (CHR ''/''))) \<in> dom builtInPrivilegedRoleGUIDs
          then StatusAmber else StatusGreen)"
proof -
  obtain out w' where run: "run_state (ListForScope p (apKeyVaultID p) []) w = (out, w')" by fastforce
  show ?thesis
  proof (cases out)
    case (Inl err)
    then show ?thesis by (simp add: azure_CheckIdentityPermissions_def run)
  next
    case (Inr as)
    let ?roles = "roles_for (apUAMIPrincipalID p) as"
    have none: "?roles = [] \<longleftrightarrow> assigned_roles (apUAMIPrincipalID p) as = {}"
      by (simp add: set_roles_for [symmetric])
    show ?thesis
      using first_privileged_iff [of ?roles] none
      by (cases "first_privileged ?roles")
        (auto simp: azure_CheckIdentityPermissions_def run Inr set_roles_for)
  qed
qed

text \<open>For the resource id of a VNet, \<open>rgAndName\<close> recovers the resource group and
  the VNet name, however the word \<open>resourceGroups\<close> is capitalised, as long as the group is not
  itself called that.\<close>

lemma rgAndName_roundtrip:
  assumes "CHR ''/'' \<notin> set sub" and "CHR ''/'' \<notin> set rg" and "CHR ''/'' \<notin> set name"
    and "CHR ''/'' \<notin> set word" and "EqualFold word ''resourceGroups''"
    and "\<not> EqualFold rg ''resourceGroups''"
  shows "rgAndName (''/subscriptions/'' @ sub @ CHR ''/'' # word @ CHR ''/'' # rg
      @ ''/providers/Microsoft.Network/virtualNetworks/'' @ name) = (rg, name)"
proof -
  let ?parts = "[[], ''subscriptions'', sub, word, rg, ''providers'', ''Microsoft.Network'',
      ''virtualNetworks'', name]"
  have split: "Split (''/subscriptions/'' @ sub @ CHR ''/'' # word @ CHR ''/'' # rg
      @ ''/providers/Microsoft.Network/virtualNetworks/'' @ name) (CHR ''/'') = ?parts"
    using assms(1-4) by (simp add: Split_slash Split_single)
  have fixed: "\<not> EqualFold ''subscriptions'' ''resourceGroups''" "\<not> EqualFold [] ''resourceGroups''"
    "\<not> EqualFold ''providers'' ''resourceGroups''" "\<not> EqualFold ''Microsoft.Network'' ''resourceGroups''"
    "\<not> EqualFold ''virtualNetworks'' ''resourceGroups''"
    by (simp_all add: EqualFold_def ToLower_def lower_char_def)
  have idx: "[0..<length ?parts] = [0, 1, 2, 3, 4, 5, 6, 7, 8]"
    by (simp add: upt_rec)
  show ?thesis
    unfolding rgAndName_def Let_def split idx using assms(5,6) fixed by simp
qed

text \<open>The witness: a resource id the way the portal prints it, with a lower-case word.\<close>

theorem rgAndName_roundtrip_witness:
  "rgAndName ''/subscriptions/s-1/resourcegroups/rg-1/providers/Microsoft.Network/virtualNetworks/vnet''
     = (''rg-1'', ''vnet'')"
proof -
  have "EqualFold ''resourcegroups'' ''resourceGroups''" "\<not> EqualFold ''rg-1'' ''resourceGroups''"
    by code_simp+
  then show ?thesis
    using rgAndName_roundtrip [of "''s-1''" "''rg-1''" "''vnet''" "''resourcegroups''"] by simp
qed

text \<open>The Azure network stage asks for the VNet named by the resource id.  It is red
  if the VNet cannot be read or has no subnets, green exactly if some subnet has a route table
  with an id, and amber otherwise.\<close>

lemma azure_egress_status:
  "StageStatus (fst (run_state (azure_CheckEgress p) w)) =
     (case fst (run_state (GetVNet p (fst (rgAndName (apVNetID p))) (snd (rgAndName (apVNetID p)))) w) of
        Inl err \<Rightarrow> StatusRed
      | Inr None \<Rightarrow> StatusRed
      | Inr (Some subnets) \<Rightarrow>
          if subnets = [] then StatusRed
          else if \<exists>s \<in> set subnets. \<exists>rtid. snProperties s = Some (Some (Some rtid)) then StatusGreen
          else StatusAmber)"
proof -
  have "has_route_table s \<longleftrightarrow> (\<exists>rtid. snProperties s = Some (Some (Some rtid)))" for s
    by (auto simp: has_route_table_def split: option.split)
  then have rt: "list_ex has_route_table subnets \<longleftrightarrow>
      (\<exists>s \<in> set subnets. \<exists>rtid. snProperties s = Some (Some (Some rtid)))" for subnets
    by (simp add: list_ex_iff)
  show ?thesis
    unfolding azure_CheckEgress_def Let_def fst_run_bind rt
    by (simp split: sum.split option.split)
qed

text \<open>The pager adapter returns the entries of all pages in order; the first page
  that fails makes it return that error and nothing else, whatever was read before.\<close>

lemma role_assignment_pages_are_drained:
  "fst (run_state (roleAssign_ListForScope (\<lambda>_ _. map State_Monad.return pages) scope fltr) w) =
     (case find (\<lambda>page. case page of Inl _ \<Rightarrow> True | Inr _ \<Rightarrow> False) pages of
        Some (Inl err) \<Rightarrow> Inl err
      | _ \<Rightarrow> Inr (concat (map (\<lambda>page. case page of Inl _ \<Rightarrow> [] | Inr as \<Rightarrow> as) pages)))"
proof -
  have "fst (run_state (drain_pager (map State_Monad.return pages) out) w) =
     (case find (\<lambda>page. case page of Inl _ \<Rightarrow> True | Inr _ \<Rightarrow> False) pages of
        Some (Inl err) \<Rightarrow> Inl err
      | _ \<Rightarrow> Inr (out @ concat (map (\<lambda>page. case page of Inl _ \<Rightarrow> [] | Inr as \<Rightarrow> as) pages)))" for out
  proof (induction pages arbitrary: out)
    case (Cons page pages)
    then show ?case
      by (cases page) (simp_all split: option.split sum.split)
  qed simp
  then show ?thesis by (simp only: roleAssign_ListForScope_def Let_def append_Nil)
qed

end
