(* ===== verification/K8s_Stages.thy ===== *)
theory K8s_Stages
  imports Cloud_Stages Go_Strings
begin

text \<open>
  \<open>operator/internal/preflight/k8sstages.go\<close>: the checks of the target cluster, stage 4
  (infrastructure) and stage 5 (workload readiness).  The typed clientset and the apiextensions
  client are the parameters of the model: each call the code makes is a computation that returns
  an error or the part of the answer the code reads.  Annotations are listed in the order the
  run time ranges over the map.  \<open>scanError\<close> is the text of the error \<open>fmt.Sscanf\<close> returns
  for a string that does not start with an integer; only its presence matters to the checks.
\<close>

record CRDVersion =
  cvName :: string
  cvServed :: bool

record CRD =
  crdGroup :: string
  crdKind :: string
  crdVersions :: "CRDVersion list"

record VersionInfo =
  viMajor :: string
  viMinor :: string

record 'w kubeClient =
  ServerGroups :: "('w, string list go) state"
  ServerVersion :: "('w, VersionInfo go) state"
  ListIngressClasses :: "('w, string list go) state"
  CreateSSAR :: "string \<Rightarrow> string \<Rightarrow> string \<Rightarrow> string \<Rightarrow> ('w, bool go) state"
  GetServiceAccount :: "string \<Rightarrow> string \<Rightarrow> ('w, api_error + (string \<times> string) list) state"
  GetNamespace :: "string \<Rightarrow> ('w, api_error + unit) state"

record 'w k8sChecker = "'w kubeClient" +
  ListCRDs :: "('w, CRD list go) state"
  scanError :: "string \<Rightarrow> string"
  kNamespace :: string

text \<open>\<open>&k8sChecker{kc, ac, cfg, namespace}\<close>; the configuration is not read.\<close>

definition new_checker ::
    "'w kubeClient \<Rightarrow> ('w, CRD list go) state \<Rightarrow> (string \<Rightarrow> string) \<Rightarrow> string \<Rightarrow> 'w k8sChecker" where
  "new_checker kc ac scanErr namespace = kubeClient.extend kc (k8sChecker.fields ac scanErr namespace)"

definition minServerMajor :: int where "minServerMajor = 1"

definition minServerMinor :: int where "minServerMinor = 26"

definition minArgoServedVersion :: string where "minArgoServedVersion = ''v1alpha1''"

subsection \<open>Discovery\<close>

fun group_listed :: "string list \<Rightarrow> string \<Rightarrow> bool" where
  "group_listed [] grp = False"
| "group_listed (g # gs) grp = (if g = grp then True else group_listed gs grp)"

definition hasAPIGroup :: "'w k8sChecker \<Rightarrow> string \<Rightarrow> ('w, bool go) state" where
  "hasAPIGroup k grp = do {
     groups \<leftarrow> ServerGroups k;
     State_Monad.return (case groups of Inl err \<Rightarrow> Inl err | Inr gs \<Rightarrow> Inr (group_listed gs grp))
   }"

definition hasCRDByGroup :: "'w k8sChecker \<Rightarrow> string \<Rightarrow> ('w, bool go) state" where
  "hasCRDByGroup k grp = do {
     crds \<leftarrow> ListCRDs k;
     State_Monad.return (case crds of Inl err \<Rightarrow> Inl err
       | Inr items \<Rightarrow> Inr (group_listed (map crdGroup items) grp))
   }"

fun served_of_first :: "CRD list \<Rightarrow> string \<Rightarrow> string \<Rightarrow> string list \<times> bool" where
  "served_of_first [] grp kind = ([], False)"
| "served_of_first (crd # crds) grp kind =
     (if crdGroup crd \<noteq> grp \<or> crdKind crd \<noteq> kind then served_of_first crds grp kind
      else (foldl (\<lambda>served v. if cvServed v then served @ [cvName v] else served) [] (crdVersions crd),
            True))"

definition servedVersionsForKind ::
    "'w k8sChecker \<Rightarrow> string \<Rightarrow> string \<Rightarrow> ('w, (string list \<times> bool) go) state" where
  "servedVersionsForKind k grp kind = do {
     crds \<leftarrow> ListCRDs k;
     State_Monad.return (case crds of Inl err \<Rightarrow> Inl err
       | Inr items \<Rightarrow> Inr (served_of_first items grp kind))
   }"

definition canI :: "'w k8sChecker \<Rightarrow> string \<Rightarrow> string \<Rightarrow> string \<Rightarrow> string \<Rightarrow> ('w, bool go) state" where
  "canI k grp resource verb namespace = do {
     resp \<leftarrow> CreateSSAR k grp resource verb namespace;
     case resp of
       Inl err \<Rightarrow> State_Monad.return (Inl err)
     | Inr allowed \<Rightarrow> State_Monad.return (Inr allowed)
   }"

subsection \<open>Stage 4: network policy, Cilium, metrics server\<close>

definition checkNetworkPolicy :: "'w k8sChecker \<Rightarrow> ('w, CheckResult) state" where
  "checkNetworkPolicy k = do {
     present \<leftarrow> hasAPIGroup k ''networking.k8s.io'';
     case present of
       Inl err \<Rightarrow> State_Monad.return (mk_result ''k8s.networkpolicy'' StatusRed
         (''could not query API groups: '' @ err)
         ''ensure the cluster is reachable and the deploy identity can list API groups'')
     | Inr ok \<Rightarrow>
         if \<not> ok then State_Monad.return (mk_result ''k8s.networkpolicy'' StatusRed
           ''networking.k8s.io API (NetworkPolicy) is not served by the cluster''
           ''install a CNI that supports NetworkPolicy; default-deny egress is unenforceable without it'')
         else State_Monad.return (mk_result ''k8s.networkpolicy'' StatusGreen
           ''NetworkPolicy API present (enforcement depends on CNI; see k8s.cilium)'' [])
   }"

definition checkCilium :: "'w k8sChecker \<Rightarrow> ('w, CheckResult) state" where
  "checkCilium k = do {
     present \<leftarrow> hasCRDByGroup k ''cilium.io'';
     case present of
       Inl err \<Rightarrow> State_Monad.return (mk_result ''k8s.cilium'' StatusAmber
         (''could not list CRDs to detect Cilium: '' @ err)
         ''grant list on customresourcedefinitions, or confirm Cilium manually'')
     | Inr ok \<Rightarrow>
         if \<not> ok then State_Monad.return (mk_result ''k8s.cilium'' StatusAmber
           ''Cilium not detected; toFQDNs/Hubble unavailable''
           ''FQDN egress + L7 flow visibility fall back to the perimeter egress firewall and cloud flow logs (amber gap)'')
         else State_Monad.return (mk_result ''k8s.cilium'' StatusGreen
           ''Cilium detected (cilium.io CRDs present); toFQDNs/Hubble enhancements available'' [])
   }"

definition checkMetricsServer :: "'w k8sChecker \<Rightarrow> ('w, CheckResult) state" where
  "checkMetricsServer k = do {
     present \<leftarrow> hasAPIGroup k ''metrics.k8s.io'';
     case present of
       Inl err \<Rightarrow> State_Monad.return (mk_result ''k8s.metricsserver'' StatusAmber
         (''could not query API groups for metrics-server: '' @ err)
         ''confirm metrics-server is installed; HPA needs metrics.k8s.io'')
     | Inr ok \<Rightarrow>
         if \<not> ok then State_Monad.return (mk_result ''k8s.metricsserver'' StatusAmber
           ''metrics-server not detected (metrics.k8s.io not served); HPA will not scale on CPU''
           ''install metrics-server so the HorizontalPodAutoscaler can read pod metrics'')
         else State_Monad.return (mk_result ''k8s.metricsserver'' StatusGreen
           ''metrics-server present (metrics.k8s.io served)'' [])
   }"

subsection \<open>Stage 4: Argo Rollouts\<close>

fun mesh_group_present :: "'w k8sChecker \<Rightarrow> string list \<Rightarrow> ('w, string option) state" where
  "mesh_group_present k [] = State_Monad.return None"
| "mesh_group_present k (g # gs) = do {
     present \<leftarrow> hasCRDByGroup k g;
     case present of
       Inl _ \<Rightarrow> mesh_group_present k gs
     | Inr ok \<Rightarrow> if ok then State_Monad.return (Some g) else mesh_group_present k gs
   }"

definition checkArgoTrafficPrimitive :: "'w k8sChecker \<Rightarrow> ('w, CheckResult) state" where
  "checkArgoTrafficPrimitive k = do {
     mesh \<leftarrow> mesh_group_present k [''networking.istio.io'', ''split.smi-spec.io'', ''gateway.networking.k8s.io''];
     case mesh of
       Some g \<Rightarrow> State_Monad.return (mk_result ''k8s.argorollouts.traffic'' StatusGreen
         (''traffic-routing primitive present (mesh CRD group '' @ Quote g @ ''); fine-grained canary available'') [])
     | None \<Rightarrow> do {
         ics \<leftarrow> ListIngressClasses k;
         (case ics of
            Inl _ \<Rightarrow> State_Monad.return (mk_result ''k8s.argorollouts.traffic'' StatusAmber
              ''no mesh CRD or IngressClass detected; canary falls back to replica-weighted (no fine-grained traffic %)''
              ''install a service mesh or an IngressClass for traffic-percentage canary (amber gap, not a failure)'')
          | Inr items \<Rightarrow>
              if length items > 0 then State_Monad.return (mk_result ''k8s.argorollouts.traffic'' StatusGreen
                (''traffic-routing primitive present ('' @ Sprint_d (int (length items))
                  @ '' IngressClass); ingress-based canary available'') [])
              else State_Monad.return (mk_result ''k8s.argorollouts.traffic'' StatusAmber
                ''no mesh CRD or IngressClass detected; canary falls back to replica-weighted (no fine-grained traffic %)''
                ''install a service mesh or an IngressClass for traffic-percentage canary (amber gap, not a failure)''))
       }
   }"

definition argo_version_result :: "string list \<Rightarrow> CheckResult" where
  "argo_version_result served =
     (let compatible = foldl (\<lambda>compatible v. if v = minArgoServedVersion then True else compatible) False served in
      if compatible then mk_result ''k8s.argorollouts.version'' StatusGreen
        (''compatible Rollout CRD version '' @ Quote minArgoServedVersion @ '' served'') []
      else mk_result ''k8s.argorollouts.version'' StatusAmber
        (''Rollout CRD does not serve a version we validated ('' @ Quote minArgoServedVersion
          @ ''); served='' @ Sprint_strings served)
        ''align the Argo Rollouts version, or canary attach degrades to RollingUpdate'')"

definition checkArgoRollouts :: "'w k8sChecker \<Rightarrow> ('w, CheckResult list) state" where
  "checkArgoRollouts k = do {
     rollout \<leftarrow> servedVersionsForKind k ''argoproj.io'' ''Rollout'';
     case rollout of
       Inl err \<Rightarrow> State_Monad.return [mk_result ''k8s.argorollouts'' StatusAmber
         (''could not list CRDs to detect Argo Rollouts: '' @ err)
         ''grant list on customresourcedefinitions, or confirm Argo Rollouts manually'']
     | Inr served_found \<Rightarrow>
         if \<not> snd served_found then State_Monad.return [mk_result ''k8s.argorollouts'' StatusAmber
           ''Argo Rollouts not detected (no argoproj.io Rollout CRD); canary unavailable''
           ''Canary degrades to Kubernetes-native RollingUpdate (amber gap, not a failure)'']
         else do {
           let results = [mk_result ''k8s.argorollouts'' StatusGreen
             (''Argo Rollouts detected (Rollout CRD served versions: '' @ Sprint_strings (fst served_found) @ '')'') []];
           let results = results @ [argo_version_result (fst served_found)];
           traffic \<leftarrow> checkArgoTrafficPrimitive k;
           State_Monad.return (results @ [traffic])
         }
   }"

subsection \<open>Stage 4: server version, pod security\<close>

definition clean_version :: "string \<Rightarrow> string" where
  "clean_version s = TrimRight (TrimSpace s) (CHR ''+'')"

definition parseMajorMinor :: "'w k8sChecker \<Rightarrow> VersionInfo \<Rightarrow> (int \<times> int) go" where
  "parseMajorMinor k info =
     (case Sscanf_d (clean_version (viMajor info)) of
        None \<Rightarrow> Inl (scanError k (clean_version (viMajor info)))
      | Some major \<Rightarrow>
          (case Sscanf_d (clean_version (viMinor info)) of
             None \<Rightarrow> Inl (scanError k (clean_version (viMinor info)))
           | Some minor \<Rightarrow> Inr (major, minor)))"

definition show_version :: "int \<Rightarrow> int \<Rightarrow> string" where
  "show_version major minor = CHR ''v'' # Sprint_d major @ ''.'' @ Sprint_d minor"

definition checkMinVersion :: "'w k8sChecker \<Rightarrow> ('w, CheckResult) state" where
  "checkMinVersion k = do {
     version \<leftarrow> ServerVersion k;
     case version of
       Inl err \<Rightarrow> State_Monad.return (mk_result ''k8s.minversion'' StatusRed
         (''could not read server version: '' @ err)
         ''ensure the cluster is reachable so the version can be verified'')
     | Inr info \<Rightarrow>
         (case parseMajorMinor k info of
            Inl perr \<Rightarrow> State_Monad.return (mk_result ''k8s.minversion'' StatusAmber
              (''could not parse server version '' @ Quote (viMajor info) @ ''.'' @ Quote (viMinor info)
                @ '': '' @ perr)
              ''verify the cluster version manually meets the supported floor'')
          | Inr (major, minor) \<Rightarrow>
              if major < minServerMajor \<or> (major = minServerMajor \<and> minor < minServerMinor)
              then State_Monad.return (mk_result ''k8s.minversion'' StatusRed
                (''cluster is '' @ show_version major minor @ ''; minimum supported is ''
                  @ show_version minServerMajor minServerMinor)
                (''upgrade the cluster to at least '' @ show_version minServerMajor minServerMinor))
              else State_Monad.return (mk_result ''k8s.minversion'' StatusGreen
                (''cluster '' @ show_version major minor @ '' meets the ''
                  @ show_version minServerMajor minServerMinor @ '' floor'') []))
   }"

definition pod_security_unproven :: "CheckResult" where
  "pod_security_unproven = mk_result ''k8s.podsecurity'' StatusAmber
     ''Pod Security admission may not be GA on this cluster (pre-v1.25 or unparsable version)''
     ''enable PodSecurity admission, or apply an equivalent admission policy (e.g. Kyverno/Gatekeeper)''"

definition checkPodSecurity :: "'w k8sChecker \<Rightarrow> ('w, CheckResult) state" where
  "checkPodSecurity k = do {
     version \<leftarrow> ServerVersion k;
     case version of
       Inl err \<Rightarrow> State_Monad.return (mk_result ''k8s.podsecurity'' StatusAmber
         (''could not read server version to confirm PodSecurity admission: '' @ err)
         ''confirm Pod Security admission is enabled (GA since v1.25)'')
     | Inr info \<Rightarrow>
         (case parseMajorMinor k info of
            Inl _ \<Rightarrow> State_Monad.return pod_security_unproven
          | Inr (major, minor) \<Rightarrow>
              if major < 1 \<or> (major = 1 \<and> minor < 25) then State_Monad.return pod_security_unproven
              else State_Monad.return (mk_result ''k8s.podsecurity'' StatusGreen
                (''Pod Security admission available (cluster '' @ show_version major minor
                  @ ''; restricted profile enforced via namespace label)'') []))
   }"

subsection \<open>Stage 4: workload identity and install tier\<close>

definition saName :: string where "saName = ''workload''"

definition wi_annotation :: "string \<Rightarrow> bool" where
  "wi_annotation key \<longleftrightarrow> key = ''eks.amazonaws.com/role-arn'' \<or>
     key = ''iam.gke.io/gcp-service-account'' \<or> key = ''azure.workload.identity/client-id''"

definition sa_ref :: "'w k8sChecker \<Rightarrow> string" where
  "sa_ref k = Quote (kNamespace k) @ ''/'' @ Quote saName"

definition checkWorkloadIdentity :: "'w k8sChecker \<Rightarrow> ('w, CheckResult) state" where
  "checkWorkloadIdentity k = do {
     sa \<leftarrow> GetServiceAccount k (kNamespace k) saName;
     case sa of
       Inr annotations \<Rightarrow>
         (case find wi_annotation (map fst annotations) of
            Some key \<Rightarrow> State_Monad.return (mk_result ''k8s.workloadidentity'' StatusGreen
              (''ServiceAccount '' @ sa_ref k @ '' exists and carries a cloud-identity annotation ('' @ key @ '')'') [])
          | None \<Rightarrow> State_Monad.return (mk_result ''k8s.workloadidentity'' StatusAmber
              (''ServiceAccount '' @ sa_ref k @ '' exists but carries no recognized Workload Identity annotation'')
              ''annotate the SA for IRSA/GKE WI/AKS WI; the cloud-side trust binding is verified by the cloud provider check''))
     | Inl err \<Rightarrow>
         if \<not> IsNotFound err then State_Monad.return (mk_result ''k8s.workloadidentity'' StatusAmber
           (''could not read ServiceAccount '' @ sa_ref k @ '': '' @ error_text err) [])
         else do {
           allowed \<leftarrow> canI k [] ''serviceaccounts'' ''create'' (kNamespace k);
           (case allowed of
              Inl ssarErr \<Rightarrow> State_Monad.return (mk_result ''k8s.workloadidentity'' StatusAmber
                (''SelfSubjectAccessReview for serviceaccount create failed: '' @ ssarErr) [])
            | Inr ok \<Rightarrow>
                if \<not> ok then State_Monad.return (mk_result ''k8s.workloadidentity'' StatusRed
                  (''workload ServiceAccount '' @ sa_ref k @ '' does not exist and cannot be created'')
                  ''grant create on serviceaccounts in the target namespace, or pre-create the annotated SA'')
                else State_Monad.return (mk_result ''k8s.workloadidentity'' StatusGreen
                  (''workload ServiceAccount '' @ sa_ref k @ '' is creatable; the cloud-identity annotation will be applied at deploy and the cloud-side trust binding is verified by the cloud provider check'') []))
         }
   }"

definition tier_result :: "string \<Rightarrow> bool \<Rightarrow> bool \<Rightarrow> bool \<Rightarrow> CheckResult" where
  "tier_result namespace canCRD canClusterRole canDeploy =
     (if canCRD \<and> canClusterRole then mk_result ''k8s.installtier'' StatusGreen
        ''Tier A: can create cluster-scoped CRD + ClusterRole; operator install available'' []
      else if canDeploy then mk_result ''k8s.installtier'' StatusAmber
        ''Tier B: namespace-only permissions; operator-less namespaced manifests''
        ''Workload CR lifecycle (status, drift, canary) unavailable; grant CRD+ClusterRole create for Tier A''
      else mk_result ''k8s.installtier'' StatusRed
        (''cannot create namespaced Deployments in '' @ Quote namespace @ ''; nothing can be deployed'')
        ''grant create on apps/deployments in the target namespace (minimum), or CRD+ClusterRole for Tier A'')"

definition checkInstallTier :: "'w k8sChecker \<Rightarrow> ('w, CheckResult) state" where
  "checkInstallTier k = do {
     crd \<leftarrow> canI k ''apiextensions.k8s.io'' ''customresourcedefinitions'' ''create'' [];
     case crd of
       Inl err \<Rightarrow> State_Monad.return (mk_result ''k8s.installtier'' StatusRed
         (''SelfSubjectAccessReview failed: '' @ err)
         ''ensure the deploy identity can self-review its access (authorization.k8s.io)'')
     | Inr canCRD \<Rightarrow> do {
         cr \<leftarrow> canI k ''rbac.authorization.k8s.io'' ''clusterroles'' ''create'' [];
         (case cr of
            Inl err \<Rightarrow> State_Monad.return (mk_result ''k8s.installtier'' StatusRed
              (''SelfSubjectAccessReview failed: '' @ err) [])
          | Inr canClusterRole \<Rightarrow> do {
              deploy \<leftarrow> canI k ''apps'' ''deployments'' ''create'' (kNamespace k);
              (case deploy of
                 Inl err \<Rightarrow> State_Monad.return (mk_result ''k8s.installtier'' StatusRed
                   (''SelfSubjectAccessReview failed: '' @ err) [])
               | Inr canDeploy \<Rightarrow>
                   State_Monad.return (tier_result (kNamespace k) canCRD canClusterRole canDeploy))
            })
       }
   }"

subsection \<open>Stage 5\<close>

definition checkNamespaceCreatable :: "'w k8sChecker \<Rightarrow> ('w, CheckResult) state" where
  "checkNamespaceCreatable k = do {
     ns \<leftarrow> GetNamespace k (kNamespace k);
     case ns of
       Inr _ \<Rightarrow> State_Monad.return (mk_result ''workload.namespace'' StatusGreen
         (''namespace '' @ Quote (kNamespace k) @ '' already exists and is usable'') [])
     | Inl err \<Rightarrow>
         if \<not> IsNotFound err then State_Monad.return (mk_result ''workload.namespace'' StatusRed
           (''could not get namespace '' @ Quote (kNamespace k) @ '': '' @ error_text err)
           ''ensure the cluster is reachable and the deploy identity can read namespaces'')
         else do {
           allowed \<leftarrow> canI k [] ''namespaces'' ''create'' [];
           (case allowed of
              Inl ssarErr \<Rightarrow> State_Monad.return (mk_result ''workload.namespace'' StatusRed
                (''SelfSubjectAccessReview for namespace create failed: '' @ ssarErr) [])
            | Inr ok \<Rightarrow>
                if \<not> ok then State_Monad.return (mk_result ''workload.namespace'' StatusRed
                  (''namespace '' @ Quote (kNamespace k) @ '' does not exist and cannot be created'')
                  ''create the namespace ahead of time, or grant create on namespaces'')
                else State_Monad.return (mk_result ''workload.namespace'' StatusGreen
                  (''namespace '' @ Quote (kNamespace k) @ '' does not exist but is creatable'') []))
         }
   }"

definition checkImagePullable :: "'w k8sChecker \<Rightarrow> ('w, CheckResult) state" where
  "checkImagePullable k = State_Monad.return (mk_result ''workload.image'' StatusAmber
     ''image pullability not verified from the preflight context (best-effort)''
     ''confirm the runtime workload identity can pull the image; verified at first reconcile'')"

subsection \<open>The stages\<close>

definition stage4 :: "'w k8sChecker \<Rightarrow> ('w, CheckResult list) state" where
  "stage4 k = do {
     networkPolicy \<leftarrow> checkNetworkPolicy k;
     cilium \<leftarrow> checkCilium k;
     metricsServer \<leftarrow> checkMetricsServer k;
     minVersion \<leftarrow> checkMinVersion k;
     podSecurity \<leftarrow> checkPodSecurity k;
     installTier \<leftarrow> checkInstallTier k;
     workloadIdentity \<leftarrow> checkWorkloadIdentity k;
     let out = [networkPolicy, cilium, metricsServer, minVersion, podSecurity, installTier, workloadIdentity];
     argo \<leftarrow> checkArgoRollouts k;
     State_Monad.return (out @ argo)
   }"

definition stage5 :: "'w k8sChecker \<Rightarrow> ('w, CheckResult list) state" where
  "stage5 k = do {
     namespace \<leftarrow> checkNamespaceCreatable k;
     image \<leftarrow> checkImagePullable k;
     State_Monad.return [namespace, image]
   }"

definition fnCheck :: "StageID \<Rightarrow> string \<Rightarrow> ('w, CheckResult list) state \<Rightarrow> 'w Check" where
  "fnCheck stage name fn = \<lparr>ckStage = stage, ckName = name, ckRun = fn\<rparr>"

definition K8sChecks :: "'w k8sChecker \<Rightarrow> 'w Check list" where
  "K8sChecks k =
     [fnCheck StageKubernetes ''kubernetes-infra'' (stage4 k),
      fnCheck StageWorkload ''workload-readiness'' (stage5 k)]"

definition NoKubeconfigK8sChecks :: "'w Check list" where
  "NoKubeconfigK8sChecks =
     [fnCheck StageKubernetes ''kubernetes-unreachable''
        (State_Monad.return [mk_result ''k8s.unreachable'' StatusRed
           ''no kubeconfig provided; the target cluster (deploy target) is not reachable''
           ''pass --kubeconfig pointing at the target cluster so Stage 4/5 can run''])]"

subsection \<open>What the helpers compute\<close>

lemma group_listed_iff: "group_listed gs grp \<longleftrightarrow> grp \<in> set gs"
  by (induction gs) auto

lemma foldl_served: "foldl (\<lambda>served v. if cvServed v then served @ [cvName v] else served) acc vs =
   acc @ map cvName (filter cvServed vs)"
  by (induction vs arbitrary: acc) simp_all

lemma served_of_first_find:
  "served_of_first crds grp kind =
     (case find (\<lambda>crd. crdGroup crd = grp \<and> crdKind crd = kind) crds of
        None \<Rightarrow> ([], False)
      | Some crd \<Rightarrow> (map cvName (filter cvServed (crdVersions crd)), True))"
  by (induction crds) (simp_all add: foldl_served)

lemma argo_compatible: "foldl (\<lambda>compatible v. if v = minArgoServedVersion then True else compatible) b vs \<longleftrightarrow>
   b \<or> minArgoServedVersion \<in> set vs"
  by (induction vs arbitrary: b) auto

lemma digit_printable: "is_digit c \<Longrightarrow> 32 < byte c \<and> byte c < 128 \<and> c \<noteq> CHR ''+'' \<and> c \<noteq> CHR ''-''"
  by (auto simp: is_digit_def)

lemma Sscanf_dec: "n < 2 ^ 63 \<Longrightarrow> Sscanf_d (dec n) = Some (int n)"
proof -
  assume n: "n < 2 ^ 63"
  obtain c cs where d: "dec n = c # cs" by (cases "dec n") simp_all
  have digits: "\<forall>x \<in> set (dec n). is_digit x" by (rule dec_digits)
  then have c: "c \<noteq> CHR ''-''" "c \<noteq> CHR ''+''" using d digit_printable [of c] by auto
  have t: "takeWhile is_digit (dec n) = dec n" using digits by simp
  have b: "int n < 2 ^ 63" using n by (metis of_nat_less_iff of_nat_numeral of_nat_power)
  have "Sscanf_d (dec n) =
      (if dec n = [] \<or> digits_value (dec n) < - (2 ^ 63) \<or> digits_value (dec n) \<ge> 2 ^ 63
       then None else Some (digits_value (dec n)))"
    using c t by (simp add: Sscanf_d_def Let_def d)
  then show ?thesis using b by simp
qed

lemma clean_version_release: "clean_version (dec n @ replicate m (CHR ''+'')) = dec n"
proof -
  have digits: "\<forall>x \<in> set (dec n). is_digit x" by (rule dec_digits)
  have "32 < byte c \<and> byte c < 128" if "c \<in> set (dec n @ replicate m (CHR ''+''))" for c
    using that digits digit_printable [of c] by (cases "c = CHR ''+''") (simp_all split: if_splits)
  then have "TrimSpace (dec n @ replicate m (CHR ''+'')) = dec n @ replicate m (CHR ''+'')"
    by (intro TrimSpace_printable) simp
  moreover have "dropWhile (\<lambda>x. x = CHR ''+'') (replicate m (CHR ''+'') @ rev (dec n)) = rev (dec n)"
  proof -
    have "hd (rev (dec n)) \<noteq> CHR ''+''"
      using digits digit_printable by (metis hd_in_set set_rev rev_is_Nil_conv dec_nonempty)
    then have "dropWhile (\<lambda>x. x = CHR ''+'') (rev (dec n)) = rev (dec n)"
      by (cases "rev (dec n)") simp_all
    then show ?thesis by (induction m) simp_all
  qed
  ultimately show ?thesis by (simp add: clean_version_def TrimRight_def)
qed

lemma parseMajorMinor_release:
  assumes "major < 2 ^ 63" and "minor < 2 ^ 63"
  shows "parseMajorMinor k \<lparr>viMajor = dec major, viMinor = dec minor @ replicate n (CHR ''+'')\<rparr> =
    Inr (int major, int minor)"
  using clean_version_release [of major 0] clean_version_release [of minor n] assms
  by (simp add: parseMajorMinor_def Sscanf_dec)

lemma canI_run [simp]: "run_state (canI k grp resource verb namespace) w =
   run_state (CreateSSAR k grp resource verb namespace) w"
  by (simp add: canI_def split: prod.split sum.split)

subsection \<open>Which results can be red\<close>

definition only :: "string \<Rightarrow> Status set \<Rightarrow> CheckResult \<Rightarrow> bool" where
  "only rid ss r \<longleftrightarrow> crID r = rid \<and> crStatus r \<in> ss"

lemma only_mk [simp]: "only rid ss (mk_result i s m r) \<longleftrightarrow> i = rid \<and> s \<in> ss"
  by (simp add: only_def)

lemmas k8s_outcomes = outcome_if outcome_sum outcome_option outcome_bind_any outcome_return

lemma networkpolicy_outcome:
  "pred_state (only ''k8s.networkpolicy'' {StatusGreen, StatusRed}) (checkNetworkPolicy k)"
  unfolding checkNetworkPolicy_def by (intro k8s_outcomes) simp_all

lemma cilium_outcome: "pred_state (only ''k8s.cilium'' {StatusGreen, StatusAmber}) (checkCilium k)"
  unfolding checkCilium_def by (intro k8s_outcomes) simp_all

lemma metrics_outcome:
  "pred_state (only ''k8s.metricsserver'' {StatusGreen, StatusAmber}) (checkMetricsServer k)"
  unfolding checkMetricsServer_def by (intro k8s_outcomes) simp_all

lemma minversion_outcome: "pred_state (only ''k8s.minversion'' severities) (checkMinVersion k)"
  unfolding checkMinVersion_def
  by (intro k8s_outcomes) (auto split: prod.split intro!: k8s_outcomes)

lemma podsecurity_outcome:
  "pred_state (only ''k8s.podsecurity'' {StatusGreen, StatusAmber}) (checkPodSecurity k)"
  unfolding checkPodSecurity_def pod_security_unproven_def
  by (intro k8s_outcomes) (auto split: prod.split intro!: k8s_outcomes)

lemma installtier_outcome: "pred_state (only ''k8s.installtier'' severities) (checkInstallTier k)"
  unfolding checkInstallTier_def tier_result_def by (intro k8s_outcomes) simp_all

lemma workloadidentity_outcome:
  "pred_state (only ''k8s.workloadidentity'' severities) (checkWorkloadIdentity k)"
  unfolding checkWorkloadIdentity_def by (intro k8s_outcomes) simp_all

lemma traffic_outcome:
  "pred_state (only ''k8s.argorollouts.traffic'' {StatusGreen, StatusAmber}) (checkArgoTrafficPrimitive k)"
  unfolding checkArgoTrafficPrimitive_def by (intro k8s_outcomes) simp_all

lemma argo_version_outcome [simp]:
  "crID (argo_version_result served) = ''k8s.argorollouts.version''"
  "crStatus (argo_version_result served) = StatusGreen \<or>
   crStatus (argo_version_result served) = StatusAmber"
  by (simp_all add: argo_version_result_def Let_def)

definition argo_ids :: "string list set" where
  "argo_ids = {[''k8s.argorollouts''],
     [''k8s.argorollouts'', ''k8s.argorollouts.version'', ''k8s.argorollouts.traffic'']}"

lemma argo_outcome:
  "pred_state (\<lambda>rs. map crID rs \<in> argo_ids \<and> (\<forall>r \<in> set rs. crStatus r \<in> {StatusGreen, StatusAmber}))
     (checkArgoRollouts k)"
  unfolding checkArgoRollouts_def Let_def argo_ids_def
  by (rule outcome_bind_any, rule outcome_sum, rule outcome_return, simp, rule outcome_if,
      rule outcome_return, simp, rule outcome_bind [OF traffic_outcome], rule outcome_return)
    (simp add: only_def)

definition stage4_ids :: "string list" where
  "stage4_ids = [''k8s.networkpolicy'', ''k8s.cilium'', ''k8s.metricsserver'', ''k8s.minversion'',
     ''k8s.podsecurity'', ''k8s.installtier'', ''k8s.workloadidentity'']"

definition stage4_red_ids :: "string set" where
  "stage4_red_ids =
     {''k8s.networkpolicy'', ''k8s.minversion'', ''k8s.installtier'', ''k8s.workloadidentity''}"

definition stage4_ok :: "CheckResult \<Rightarrow> bool" where
  "stage4_ok r \<longleftrightarrow> crStatus r \<in> severities \<and> (crStatus r = StatusRed \<longrightarrow> crID r \<in> stage4_red_ids)"

lemma only_stage4_ok:
  "only rid ss r \<Longrightarrow> ss \<subseteq> severities \<Longrightarrow> StatusRed \<notin> ss \<or> rid \<in> stage4_red_ids \<Longrightarrow>
   crID r = rid \<and> stage4_ok r"
  by (auto simp: only_def stage4_ok_def)

lemmas stage4_result_outcomes =
  outcome_mono [OF networkpolicy_outcome only_stage4_ok] outcome_mono [OF cilium_outcome only_stage4_ok]
  outcome_mono [OF metrics_outcome only_stage4_ok] outcome_mono [OF minversion_outcome only_stage4_ok]
  outcome_mono [OF podsecurity_outcome only_stage4_ok] outcome_mono [OF installtier_outcome only_stage4_ok]
  outcome_mono [OF workloadidentity_outcome only_stage4_ok]

lemma argo_stage4_ok:
  "pred_state (\<lambda>rs. map crID rs \<in> argo_ids \<and> (\<forall>r \<in> set rs. stage4_ok r)) (checkArgoRollouts k)"
  by (rule outcome_mono [OF argo_outcome]) (auto simp: stage4_ok_def)

lemma stage4_outcome:
  "pred_state (\<lambda>rs. map crID (take 7 rs) = stage4_ids \<and> map crID (drop 7 rs) \<in> argo_ids \<and>
       (\<forall>r \<in> set rs. stage4_ok r)) (stage4 k)"
  unfolding stage4_def Let_def
  by (rule outcome_bind, rule stage4_result_outcomes(1), assumption, simp, simp add: stage4_red_ids_def,
      rule outcome_bind, rule stage4_result_outcomes(2), assumption, simp, simp,
      rule outcome_bind, rule stage4_result_outcomes(3), assumption, simp, simp,
      rule outcome_bind, rule stage4_result_outcomes(4), assumption, simp, simp add: stage4_red_ids_def,
      rule outcome_bind, rule stage4_result_outcomes(5), assumption, simp, simp,
      rule outcome_bind, rule stage4_result_outcomes(6), assumption, simp, simp add: stage4_red_ids_def,
      rule outcome_bind, rule stage4_result_outcomes(7), assumption, simp, simp add: stage4_red_ids_def,
      rule outcome_bind [OF argo_stage4_ok], rule outcome_return) (simp add: stage4_ids_def)

lemma stage5_amber: "pred_state (\<lambda>rs. \<exists>x \<in> set rs. crStatus x = StatusAmber \<or> crStatus x = StatusRed) (stage5 k)"
  unfolding stage5_def checkImagePullable_def
  by (intro outcome_bind_any outcome_bind [where Q = "\<lambda>r. crStatus r = StatusAmber"] outcome_return) simp_all

text \<open>A run that includes the cluster checks never ends green, whichever stages are informational
  and whatever the cloud and the cluster answer; without a kubeconfig it ends red whenever the
  cluster stage gates.\<close>

lemma cluster_run_never_green:
  "rpVerdict (fst (run_state (run_report (NewRunner (checks @ K8sChecks k)) info) w)) \<noteq> StatusGreen"
proof (rule verdict_not_green [of 5 "fnCheck StageWorkload ''workload-readiness'' (stage5 k)"])
  show "fnCheck StageWorkload ''workload-readiness'' (stage5 k) \<in>
      set (byStage (NewRunner (checks @ K8sChecks k)) ! 5)"
    by (simp add: NewRunner_bucket K8sChecks_def fnCheck_def stage_id_defs)
  show "pred_state (\<lambda>rs. \<exists>x \<in> set rs. crStatus x = StatusAmber \<or> crStatus x = StatusRed)
      (ckRun (fnCheck StageWorkload ''workload-readiness'' (stage5 k)))"
    by (simp add: fnCheck_def stage5_amber)
qed simp

lemma no_kubeconfig_run_red:
  assumes "\<not> info ! 4"
  shows "rpVerdict (fst (run_state (run_report (NewRunner (checks @ NoKubeconfigK8sChecks)) info) w)) = StatusRed"
proof (rule verdict_red [of 4 info "hd NoKubeconfigK8sChecks", OF _ assms])
  show "hd NoKubeconfigK8sChecks \<in> set (byStage (NewRunner (checks @ NoKubeconfigK8sChecks)) ! 4)"
    by (simp add: NewRunner_bucket NoKubeconfigK8sChecks_def fnCheck_def stage_id_defs)
  show "pred_state (\<lambda>rs. \<exists>x \<in> set rs. crStatus x = StatusRed) (ckRun (hd NoKubeconfigK8sChecks))"
    by (simp add: NoKubeconfigK8sChecks_def fnCheck_def outcome_return)
qed simp

subsection \<open>Properties\<close>

text \<open>Stage 4 reports its seven single checks in a fixed order and then the Argo
  checks, one result when the Rollout resource is absent or unreadable and three when it is
  there; every result is green, amber or red, and only the network policy, version, install
  tier and workload identity checks can turn the stage red.\<close>

lemma stage4_results:
  "let rs = fst (run_state (stage4 k) w) in
     map crID (take 7 rs) = [''k8s.networkpolicy'', ''k8s.cilium'', ''k8s.metricsserver'', ''k8s.minversion'',
       ''k8s.podsecurity'', ''k8s.installtier'', ''k8s.workloadidentity''] \<and>
     map crID (drop 7 rs) \<in> {[''k8s.argorollouts''],
       [''k8s.argorollouts'', ''k8s.argorollouts.version'', ''k8s.argorollouts.traffic'']} \<and>
     crStatus ` set rs \<subseteq> severities \<and>
     crID ` {r \<in> set rs. crStatus r = StatusRed} \<subseteq>
       {''k8s.networkpolicy'', ''k8s.minversion'', ''k8s.installtier'', ''k8s.workloadidentity''}"
  using outcome_run [OF stage4_outcome, of k w]
  unfolding Let_def stage4_ids_def argo_ids_def stage4_ok_def stage4_red_ids_def by blast

text \<open>Property C33: with stable access reviews, the install tier is green (operator) exactly if both
  cluster-scoped creates are allowed, amber (namespaced manifests) if only the deployment is, and
  red if neither holds or if any one of the three reviews fails, the last one included even when
  the operator tier is already established.\<close>

theorem install_tier_selection:
  assumes "\<And>g r v ns w. run_state (CreateSSAR k g r v ns) w = (answer g r v ns, w)"
  shows "crStatus (fst (run_state (checkInstallTier k) w)) =
    (case (answer ''apiextensions.k8s.io'' ''customresourcedefinitions'' ''create'' [],
           answer ''rbac.authorization.k8s.io'' ''clusterroles'' ''create'' [],
           answer ''apps'' ''deployments'' ''create'' (kNamespace k)) of
       (Inr crd, Inr clusterRole, Inr deploy) \<Rightarrow>
         if crd \<and> clusterRole then StatusGreen else if deploy then StatusAmber else StatusRed
     | _ \<Rightarrow> StatusRed)"
  by (simp add: checkInstallTier_def assms tier_result_def split: sum.split) blast

definition fixed_cluster ::
    "(string \<Rightarrow> string \<Rightarrow> string \<Rightarrow> string \<Rightarrow> bool go) \<Rightarrow> VersionInfo go \<Rightarrow> CRD list \<Rightarrow> nat k8sChecker" where
  "fixed_cluster answer version crds =
     \<lparr>ServerGroups = State_Monad.return (Inr [''networking.k8s.io'']),
      ServerVersion = State_Monad.return version,
      ListIngressClasses = State_Monad.return (Inr []),
      CreateSSAR = (\<lambda>g r v ns. State_Monad.return (answer g r v ns)),
      GetServiceAccount = (\<lambda>_ _. State_Monad.return (Inl (NotFound ''not found''))),
      GetNamespace = (\<lambda>_. State_Monad.return (Inl (NotFound ''not found''))),
      ListCRDs = State_Monad.return (Inr crds),
      scanError = (\<lambda>_. ''expected integer''), kNamespace = ''apps''\<rparr>"

theorem install_tier_selection_witness:
  "crStatus (fst (run_state (checkInstallTier
      (fixed_cluster (\<lambda>g r v ns. Inr (ns = ''apps'')) (Inl ''none'') [])) 0)) = StatusAmber"
  by (subst install_tier_selection [where answer = "\<lambda>g r v ns. Inr (ns = ''apps'')"])
    (simp_all add: fixed_cluster_def)

text \<open>Property C34: on a cluster that reports the release \<open>major.minor\<close>, with or without the plus
  signs some distributions add, the version check is green exactly if the release is 1.26 or
  later, comparing major before minor, and red otherwise; leading zeros do not occur and numbers
  beyond 64 bits are excluded.\<close>

theorem min_version_floor:
  assumes "fst (run_state (ServerVersion k) w) =
      Inr \<lparr>viMajor = dec major, viMinor = dec minor @ replicate n (CHR ''+'')\<rparr>"
    and "major < 2 ^ 63" and "minor < 2 ^ 63"
  shows "crStatus (fst (run_state (checkMinVersion k) w)) =
    (if major > 1 \<or> (major = 1 \<and> minor \<ge> 26) then StatusGreen else StatusRed)"
proof -
  have "int major < 1 \<longleftrightarrow> major = 0" "int minor < 26 \<longleftrightarrow> minor < 26" by linarith+
  then show ?thesis
    using assms
    by (simp add: checkMinVersion_def fst_run_bind parseMajorMinor_release minServerMajor_def
        minServerMinor_def del: run_state_bind) auto
qed

theorem min_version_floor_witness:
  "crStatus (fst (run_state (checkMinVersion
      (fixed_cluster (\<lambda>_ _ _ _. Inr True) (Inr \<lparr>viMajor = dec 1, viMinor = dec 25 @ ''+''\<rparr>) [])) 0)) = StatusRed"
  by (subst min_version_floor [where major = 1 and minor = 25 and n = 1])
    (simp_all add: fixed_cluster_def)

text \<open>On a cluster whose version does not change between the two reads, a green
  version check implies a green pod security check.\<close>

lemma pod_security_follows_min_version:
  assumes "\<And>w. run_state (ServerVersion k) w = (version, w)"
    and "crStatus (fst (run_state (checkMinVersion k) w)) = StatusGreen"
  shows "crStatus (fst (run_state (checkPodSecurity k) w')) = StatusGreen"
proof (cases version)
  case (Inl err)
  with assms show ?thesis by (simp add: checkMinVersion_def)
next
  case (Inr info)
  show ?thesis
    by (cases "parseMajorMinor k info")
      (use assms Inr in \<open>auto simp: checkMinVersion_def checkPodSecurity_def minServerMajor_def
        minServerMinor_def split: prod.splits if_splits\<close>)
qed

theorem pod_security_follows_witness:
  "crStatus (fst (run_state (checkPodSecurity
      (fixed_cluster (\<lambda>_ _ _ _. Inr True) (Inr \<lparr>viMajor = ''1'', viMinor = ''30''\<rparr>) [])) 5)) = StatusGreen"
proof (rule pod_security_follows_min_version [where version = "Inr \<lparr>viMajor = ''1'', viMinor = ''30''\<rparr>" and w = 0])
  let ?k = "fixed_cluster (\<lambda>_ _ _ _. Inr True) (Inr \<lparr>viMajor = ''1'', viMinor = ''30''\<rparr>) []"
  have "dec 1 = ''1''" "dec 30 = ''30''" by code_simp+
  then have "parseMajorMinor ?k \<lparr>viMajor = ''1'', viMinor = ''30''\<rparr> = Inr (1, 30)"
    using parseMajorMinor_release [of 1 30 ?k 0] by simp
  then show "crStatus (fst (run_state (checkMinVersion ?k) 0)) = StatusGreen"
    by (simp add: checkMinVersion_def fixed_cluster_def minServerMajor_def minServerMinor_def)
qed (simp add: fixed_cluster_def)

text \<open>The workload identity check is red exactly if the service account is reported
  not found and the access review answers that it may not be created; it is green exactly if
  the account exists with one of the three recognised annotations, or is not found and may be
  created.  Anything that cannot be read leaves it amber.\<close>

lemma workload_identity_status:
  "crStatus (fst (run_state (checkWorkloadIdentity k) w)) =
     (case run_state (GetServiceAccount k (kNamespace k) ''workload'') w of
        (Inr annotations, w') \<Rightarrow>
          if fst ` set annotations \<inter> {''eks.amazonaws.com/role-arn'', ''iam.gke.io/gcp-service-account'',
               ''azure.workload.identity/client-id''} \<noteq> {} then StatusGreen else StatusAmber
      | (Inl (NotFound _), w') \<Rightarrow>
          (case fst (run_state (CreateSSAR k [] ''serviceaccounts'' ''create'' (kNamespace k)) w') of
             Inl _ \<Rightarrow> StatusAmber
           | Inr allowed \<Rightarrow> if allowed then StatusGreen else StatusRed)
      | (Inl (OtherError _), w') \<Rightarrow> StatusAmber)"
proof -
  obtain sa w' where sa: "run_state (GetServiceAccount k (kNamespace k) saName) w = (sa, w')" by fastforce
  consider annotations where "sa = Inr annotations" | e where "sa = Inl (NotFound e)" | e where "sa = Inl (OtherError e)"
    by (metis obj_sumE api_error.exhaust)
  then show ?thesis
  proof cases
    case 1
    have "find wi_annotation (map fst annotations) = None \<longleftrightarrow>
        fst ` set annotations \<inter> {''eks.amazonaws.com/role-arn'', ''iam.gke.io/gcp-service-account'',
               ''azure.workload.identity/client-id''} = {}"
      by (simp only: find_None_iff wi_annotation_def set_map) blast
    with 1 sa show ?thesis
      by (cases "find wi_annotation (map fst annotations)") (simp_all add: checkWorkloadIdentity_def saName_def)
  next
    case 2
    with sa show ?thesis
      by (simp add: checkWorkloadIdentity_def saName_def fst_run_bind del: run_state_bind split: sum.split)
  next
    case 3
    with sa show ?thesis by (simp add: checkWorkloadIdentity_def saName_def)
  qed
qed

text \<open>The workload stage has exactly two results and is never green: the image check
  is always amber, so the stage is amber when the namespace exists or may be created and red
  otherwise.\<close>

lemma stage5_never_green:
  "map crID (fst (run_state (stage5 k) w)) = [''workload.namespace'', ''workload.image''] \<and>
   StageStatus (fst (run_state (stage5 k) w)) =
     (case run_state (GetNamespace k (kNamespace k)) w of
        (Inr _, w') \<Rightarrow> StatusAmber
      | (Inl (NotFound _), w') \<Rightarrow>
          (case fst (run_state (CreateSSAR k [] ''namespaces'' ''create'' []) w') of
             Inl _ \<Rightarrow> StatusRed
           | Inr allowed \<Rightarrow> if allowed then StatusAmber else StatusRed)
      | (Inl (OtherError _), w') \<Rightarrow> StatusRed)"
proof -
  obtain ns w' where ns: "run_state (GetNamespace k (kNamespace k)) w = (ns, w')" by fastforce
  consider "ns = Inr ()" | e where "ns = Inl (NotFound e)" | e where "ns = Inl (OtherError e)"
    by (metis obj_sumE api_error.exhaust old.unit.exhaust)
  then show ?thesis
    by cases
      (use ns in \<open>simp_all add: stage5_def checkNamespaceCreatable_def checkImagePullable_def fst_run_bind
        StageStatus_cases del: run_state_bind split: sum.split\<close>)
qed

text \<open>On a cluster whose resource lists do not change, the Argo checks follow the first
  Rollout resource of the group: without one they are a single amber; with one, presence is green,
  the version is green exactly if \<open>v1alpha1\<close> is among its served versions, and the traffic
  check is green exactly if some mesh group has a resource or an ingress class exists.\<close>

lemma argo_canary_signals:
  assumes "\<And>w. run_state (ListCRDs k) w = (Inr crds, w)"
    and "\<And>w. run_state (ListIngressClasses k) w = (ics, w)"
  shows "map (\<lambda>r. (crID r, crStatus r)) (fst (run_state (checkArgoRollouts k) w)) =
    (case find (\<lambda>crd. crdGroup crd = ''argoproj.io'' \<and> crdKind crd = ''Rollout'') crds of
       None \<Rightarrow> [(''k8s.argorollouts'', StatusAmber)]
     | Some crd \<Rightarrow>
         [(''k8s.argorollouts'', StatusGreen),
          (''k8s.argorollouts.version'',
            if \<lparr>cvName = ''v1alpha1'', cvServed = True\<rparr> \<in> set (crdVersions crd) then StatusGreen else StatusAmber),
          (''k8s.argorollouts.traffic'',
            if {''networking.istio.io'', ''split.smi-spec.io'', ''gateway.networking.k8s.io''}
                 \<inter> crdGroup ` set crds \<noteq> {} \<or> (\<exists>c cs. ics = Inr (c # cs))
            then StatusGreen else StatusAmber)])"
proof -
  have served: "minArgoServedVersion \<in> set (map cvName (filter cvServed vs)) \<longleftrightarrow>
      \<lparr>cvName = ''v1alpha1'', cvServed = True\<rparr> \<in> set vs" for vs
  proof -
    have "(v :: CRDVersion) = \<lparr>cvName = ''v1alpha1'', cvServed = True\<rparr> \<longleftrightarrow> cvName v = ''v1alpha1'' \<and> cvServed v" for v
      by (cases v) simp
    then have "(\<exists>v \<in> set vs. cvServed v \<and> cvName v = ''v1alpha1'') \<longleftrightarrow>
        \<lparr>cvName = ''v1alpha1'', cvServed = True\<rparr> \<in> set vs" by metis
    moreover have "''v1alpha1'' \<in> set (map cvName (filter cvServed vs)) \<longleftrightarrow>
        (\<exists>v \<in> set vs. cvServed v \<and> cvName v = ''v1alpha1'')" by (auto intro: rev_image_eqI)
    ultimately show ?thesis unfolding minArgoServedVersion_def by simp
  qed
  have version: "crStatus (argo_version_result (map cvName (filter cvServed vs))) =
      (if \<lparr>cvName = ''v1alpha1'', cvServed = True\<rparr> \<in> set vs then StatusGreen else StatusAmber)" for vs
    using served [of vs] by (simp add: argo_version_result_def Let_def argo_compatible)
  have mesh: "run_state (mesh_group_present k gs) w =
      (find (\<lambda>g. g \<in> crdGroup ` set crds) gs, w)" for gs w
    by (induction gs) (simp_all add: hasCRDByGroup_def assms group_listed_iff)
  have traffic: "crStatus (fst (run_state (checkArgoTrafficPrimitive k) w)) =
      (if {''networking.istio.io'', ''split.smi-spec.io'', ''gateway.networking.k8s.io''}
            \<inter> crdGroup ` set crds \<noteq> {} \<or> (\<exists>c cs. ics = Inr (c # cs))
       then StatusGreen else StatusAmber)" for w
  proof -
    let ?gs = "[''networking.istio.io'', ''split.smi-spec.io'', ''gateway.networking.k8s.io'']"
    have none: "find (\<lambda>g. g \<in> crdGroup ` set crds) ?gs = None \<longleftrightarrow> set ?gs \<inter> crdGroup ` set crds = {}"
      unfolding find_None_iff by blast
    have ing: "crStatus (fst (run_state (checkArgoTrafficPrimitive k) w)) =
        (if find (\<lambda>g. g \<in> crdGroup ` set crds) ?gs \<noteq> None \<or> (\<exists>c cs. ics = Inr (c # cs))
         then StatusGreen else StatusAmber)"
      by (cases "find (\<lambda>g. g \<in> crdGroup ` set crds) ?gs"; cases ics)
        (simp_all add: checkArgoTrafficPrimitive_def mesh assms neq_Nil_conv
          del: mesh_group_present.simps find.simps)
    show ?thesis unfolding ing none by simp
  qed
  have tid: "crID (fst (run_state (checkArgoTrafficPrimitive k) w)) = ''k8s.argorollouts.traffic''" for w
    using outcome_run [OF traffic_outcome, of k w] by (simp add: only_def)
  show ?thesis
    by (cases "find (\<lambda>crd. crdGroup crd = ''argoproj.io'' \<and> crdKind crd = ''Rollout'') crds")
      (simp_all add: checkArgoRollouts_def servedVersionsForKind_def assms(1) served_of_first_find
        fst_run_bind Let_def version traffic tid del: run_state_bind)
qed

theorem argo_canary_signals_witness:
  "map (\<lambda>r. (crID r, crStatus r)) (fst (run_state (checkArgoRollouts
      (fixed_cluster (\<lambda>_ _ _ _. Inr True) (Inl ''none'')
        [\<lparr>crdGroup = ''argoproj.io'', crdKind = ''Rollout'',
          crdVersions = [\<lparr>cvName = ''v1alpha1'', cvServed = False\<rparr>, \<lparr>cvName = ''v1'', cvServed = True\<rparr>]\<rparr>])) 0)) =
   [(''k8s.argorollouts'', StatusGreen), (''k8s.argorollouts.version'', StatusAmber),
    (''k8s.argorollouts.traffic'', StatusAmber)]"
  by (subst argo_canary_signals [where ics = "Inr []" and crds =
        "[\<lparr>crdGroup = ''argoproj.io'', crdKind = ''Rollout'',
          crdVersions = [\<lparr>cvName = ''v1alpha1'', cvServed = False\<rparr>, \<lparr>cvName = ''v1'', cvServed = True\<rparr>]\<rparr>]"])
    (simp_all add: fixed_cluster_def)

text \<open>With stable access reviews, the install tier check is red without any
  remediation exactly if the first review answers and the second fails, or both answer and the
  third fails; so a red result of the cluster stages need not tell the operator what to do.\<close>

lemma red_install_tier_without_remediation:
  assumes "\<And>g r v ns w. run_state (CreateSSAR k g r v ns) w = (answer g r v ns, w)"
  shows "(let r = fst (run_state (checkInstallTier k) w) in crStatus r = StatusRed \<and> crRemediation r = []) \<longleftrightarrow>
    (\<exists>crd. answer ''apiextensions.k8s.io'' ''customresourcedefinitions'' ''create'' [] = Inr crd) \<and>
    ((\<exists>e. answer ''rbac.authorization.k8s.io'' ''clusterroles'' ''create'' [] = Inl e) \<or>
     (\<exists>e. answer ''apps'' ''deployments'' ''create'' (kNamespace k) = Inl e))"
  by (cases "answer ''apiextensions.k8s.io'' ''customresourcedefinitions'' ''create'' []";
      cases "answer ''rbac.authorization.k8s.io'' ''clusterroles'' ''create'' []";
      cases "answer ''apps'' ''deployments'' ''create'' (kNamespace k)")
    (simp_all add: checkInstallTier_def assms tier_result_def)

theorem red_install_tier_witness:
  "let r = fst (run_state (checkInstallTier
      (fixed_cluster (\<lambda>g r v ns. if g = ''apps'' then Inl ''timeout'' else Inr True) (Inl ''none'') [])) 0)
   in crStatus r = StatusRed \<and> crRemediation r = []"
  by (subst red_install_tier_without_remediation
      [where answer = "\<lambda>g r v ns. if g = ''apps'' then Inl ''timeout'' else Inr True"])
    (auto simp: fixed_cluster_def)

end
