(* ===== verification/Go_JSON.thy ===== *)
theory Go_JSON
  imports Go_Strings
begin

text \<open>
  The part of Go's \<open>encoding/json\<close> the program uses: \<open>json.Marshal\<close> of strings, integers,
  booleans, slices, structs and string maps, and \<open>json.Unmarshal\<close>.

  \<open>encode\<close> writes what \<open>Marshal\<close> writes: no white space, HTML characters and the line
  separators escaped, every ill-formed byte replaced by an escaped U+FFFD.  \<open>decode\<close> reads any
  JSON text; a number is kept as its literal.  \<open>decode_encode\<close> is the round trip: reading
  what was written gives the value with its strings made well-formed.
\<close>

datatype json =
    JNull
  | JBool bool
  | JNum string
  | JStr string
  | JArr "json list"
  | JObj "(string \<times> json) list"

subsection \<open>Writing\<close>

definition esc_u :: "nat \<Rightarrow> string" where
  "esc_u n = [chr 92, CHR ''u'', hex_digit (n div 4096), hex_digit (n div 256 mod 16),
     hex_digit (n div 16 mod 16), hex_digit (n mod 16)]"

definition line_sep :: string where "line_sep = [chr 0xE2, chr 0x80, chr 0xA8]"

definition para_sep :: string where "para_sep = [chr 0xE2, chr 0x80, chr 0xA9]"

definition escape_ascii :: "char \<Rightarrow> string" where
  "escape_ascii c =
     (if c = chr 34 \<or> c = chr 92 then [chr 92, c]
      else if c = chr 8 then [chr 92, CHR ''b'']
      else if c = chr 12 then [chr 92, CHR ''f'']
      else if c = chr 10 then [chr 92, CHR ''n'']
      else if c = chr 13 then [chr 92, CHR ''r'']
      else if c = chr 9 then [chr 92, CHR ''t'']
      else if byte c < 32 \<or> c = CHR ''<'' \<or> c = CHR ''>'' \<or> c = CHR ''&'' then esc_u (byte c)
      else [c])"

fun escape_chunk :: "bool \<times> string \<Rightarrow> string" where
  "escape_chunk (ok, c) =
     (if \<not> ok then esc_u 0xFFFD
      else if c = line_sep then esc_u 0x2028
      else if c = para_sep then esc_u 0x2029
      else if length c = 1 then escape_ascii (hd c)
      else c)"

definition encode_string :: "string \<Rightarrow> string" where
  "encode_string s = chr 34 # concat (map escape_chunk (utf8_chunks s)) @ [chr 34]"

text \<open>Elements separated by commas, with the closing bracket.\<close>

fun commas :: "string list \<Rightarrow> string" where
  "commas [] = []"
| "commas [x] = x"
| "commas (x # y # xs) = x @ CHR '','' # commas (y # xs)"

fun encode :: "json \<Rightarrow> string" where
  "encode JNull = ''null''"
| "encode (JBool b) = (if b then ''true'' else ''false'')"
| "encode (JNum n) = n"
| "encode (JStr s) = encode_string s"
| "encode (JArr vs) = CHR ''['' # commas (map encode vs) @ '']''"
| "encode (JObj ms) =
     CHR ''{'' # commas (map (\<lambda>m. encode_string (fst m) @ CHR '':'' # encode (snd m)) ms) @ ''}''"

subsection \<open>Reading\<close>

definition is_json_space :: "char \<Rightarrow> bool" where
  "is_json_space c \<longleftrightarrow> c = chr 32 \<or> c = chr 9 \<or> c = chr 10 \<or> c = chr 13"

definition skip_ws :: "string \<Rightarrow> string" where
  "skip_ws s = dropWhile is_json_space s"

definition hex_val :: "char \<Rightarrow> nat option" where
  "hex_val c =
     (if 48 \<le> byte c \<and> byte c \<le> 57 then Some (byte c - 48)
      else if 97 \<le> byte c \<and> byte c \<le> 102 then Some (byte c - 87)
      else if 65 \<le> byte c \<and> byte c \<le> 70 then Some (byte c - 55)
      else None)"

fun hex4 :: "string \<Rightarrow> (nat \<times> string) option" where
  "hex4 (a # b # c # d # r) =
     (case (hex_val a, hex_val b, hex_val c, hex_val d) of
        (Some w, Some x, Some y, Some z) \<Rightarrow> Some (4096 * w + 256 * x + 16 * y + z, r)
      | _ \<Rightarrow> None)"
| "hex4 _ = None"

definition utf8_encode :: "nat \<Rightarrow> string" where
  "utf8_encode n =
     (if n < 0x80 then [chr n]
      else if n < 0x800 then [chr (0xC0 + n div 64), chr (0x80 + n mod 64)]
      else if 0xD800 \<le> n \<and> n \<le> 0xDFFF then replacement_char
      else if n < 0x10000 then [chr (0xE0 + n div 4096), chr (0x80 + n div 64 mod 64), chr (0x80 + n mod 64)]
      else [chr (0xF0 + n div 262144), chr (0x80 + n div 4096 mod 64), chr (0x80 + n div 64 mod 64),
            chr (0x80 + n mod 64)])"

text \<open>An escaped surrogate pair is one rune; a lone surrogate is U+FFFD.\<close>

definition low_surrogate :: "string \<Rightarrow> (nat \<times> string) option" where
  "low_surrogate s =
     (case s of
        b # u # r \<Rightarrow>
          if b = chr 92 \<and> u = CHR ''u'' then
            (case hex4 r of
               Some (n, r') \<Rightarrow> if 0xDC00 \<le> n \<and> n \<le> 0xDFFF then Some (n, r') else None
             | None \<Rightarrow> None)
          else None
      | _ \<Rightarrow> None)"

definition read_unicode :: "string \<Rightarrow> (string \<times> string) option" where
  "read_unicode s =
     (case hex4 s of
        None \<Rightarrow> None
      | Some (n, r) \<Rightarrow>
          if 0xD800 \<le> n \<and> n < 0xDC00 then
            (case low_surrogate r of
               Some (m, r') \<Rightarrow> Some (utf8_encode (0x10000 + (n - 0xD800) * 1024 + (m - 0xDC00)), r')
             | None \<Rightarrow> Some (replacement_char, r))
          else Some (utf8_encode n, r))"

definition read_escape :: "string \<Rightarrow> (string \<times> string) option" where
  "read_escape s =
     (case s of
        [] \<Rightarrow> None
      | c # r \<Rightarrow>
          if c = chr 34 \<or> c = chr 92 \<or> c = CHR ''/'' then Some ([c], r)
          else if c = CHR ''b'' then Some ([chr 8], r)
          else if c = CHR ''f'' then Some ([chr 12], r)
          else if c = CHR ''n'' then Some ([chr 10], r)
          else if c = CHR ''r'' then Some ([chr 13], r)
          else if c = CHR ''t'' then Some ([chr 9], r)
          else if c = CHR ''u'' then read_unicode r
          else None)"

text \<open>The body of a string literal after its opening quote; the first argument is fuel, and the
  length of the input is enough, since each step consumes a byte.\<close>

fun read_chars :: "nat \<Rightarrow> string \<Rightarrow> (string \<times> string) option" where
  "read_chars 0 s = None"
| "read_chars (Suc n) s =
     (case s of
        [] \<Rightarrow> None
      | c # r \<Rightarrow>
          if c = chr 34 then Some ([], r)
          else if c = chr 92 then
            (case read_escape r of
               None \<Rightarrow> None
             | Some (x, r') \<Rightarrow> map_option (\<lambda>(t, r''). (x @ t, r'')) (read_chars n r'))
          else if byte c < 32 then None
          else map_option (\<lambda>(t, r'). (c # t, r')) (read_chars n r))"

definition read_string :: "string \<Rightarrow> (string \<times> string) option" where
  "read_string s = map_option (\<lambda>(t, r). (to_valid_utf8 t, r)) (read_chars (length s) s)"

definition number_char :: "char \<Rightarrow> bool" where
  "number_char c \<longleftrightarrow> is_digit c \<or> c = CHR ''-'' \<or> c = CHR ''+'' \<or> c = CHR ''.'' \<or> c = CHR ''e'' \<or> c = CHR ''E''"

text \<open>The number grammar: an integer part without leading zeros, a fraction, an exponent.\<close>

definition valid_exponent :: "string \<Rightarrow> bool" where
  "valid_exponent s =
     (case s of
        [] \<Rightarrow> True
      | c # r \<Rightarrow> (c = CHR ''e'' \<or> c = CHR ''E'') \<and>
          (let ds = (case r of [] \<Rightarrow> [] | d # r' \<Rightarrow> if d = CHR ''+'' \<or> d = CHR ''-'' then r' else r)
           in ds \<noteq> [] \<and> list_all is_digit ds))"

definition valid_fraction :: "string \<Rightarrow> bool" where
  "valid_fraction s =
     (case s of
        [] \<Rightarrow> True
      | c # r \<Rightarrow>
          if c = CHR ''.'' then takeWhile is_digit r \<noteq> [] \<and> valid_exponent (dropWhile is_digit r)
          else valid_exponent s)"

definition valid_number :: "string \<Rightarrow> bool" where
  "valid_number s =
     (case (case s of c # r \<Rightarrow> if c = CHR ''-'' then r else s | [] \<Rightarrow> []) of
        [] \<Rightarrow> False
      | d # r \<Rightarrow>
          if d = CHR ''0'' then valid_fraction r
          else is_digit d \<and> valid_fraction (dropWhile is_digit r))"

definition read_number :: "string \<Rightarrow> (json \<times> string) option" where
  "read_number s =
     (let lit = takeWhile number_char s in
      if valid_number lit then Some (JNum lit, dropWhile number_char s) else None)"

definition read_literal :: "string \<Rightarrow> json \<Rightarrow> string \<Rightarrow> (json \<times> string) option" where
  "read_literal lit v s = (if prefix lit s then Some (v, drop (length lit) s) else None)"

fun read_value :: "nat \<Rightarrow> string \<Rightarrow> (json \<times> string) option"
  and read_elements :: "nat \<Rightarrow> string \<Rightarrow> (json list \<times> string) option"
  and read_members :: "nat \<Rightarrow> string \<Rightarrow> ((string \<times> json) list \<times> string) option" where
  "read_value 0 s = None"
| "read_value (Suc n) s =
     (case skip_ws s of
        [] \<Rightarrow> None
      | c # r \<Rightarrow>
          if c = chr 34 then map_option (\<lambda>(t, r'). (JStr t, r')) (read_string r)
          else if c = CHR ''['' then
            (case skip_ws r of
               d # r' \<Rightarrow> if d = CHR '']'' then Some (JArr [], r')
                 else map_option (\<lambda>(vs, r''). (JArr vs, r'')) (read_elements n r)
             | [] \<Rightarrow> None)
          else if c = CHR ''{'' then
            (case skip_ws r of
               d # r' \<Rightarrow> if d = CHR ''}'' then Some (JObj [], r')
                 else map_option (\<lambda>(ms, r''). (JObj ms, r'')) (read_members n r)
             | [] \<Rightarrow> None)
          else if c = CHR ''t'' then read_literal ''true'' (JBool True) (c # r)
          else if c = CHR ''f'' then read_literal ''false'' (JBool False) (c # r)
          else if c = CHR ''n'' then read_literal ''null'' JNull (c # r)
          else read_number (c # r))"
| "read_elements 0 s = None"
| "read_elements (Suc n) s =
     (case read_value n s of
        None \<Rightarrow> None
      | Some (v, r) \<Rightarrow>
          (case skip_ws r of
             [] \<Rightarrow> None
           | c # r' \<Rightarrow>
               if c = CHR '','' then map_option (\<lambda>(vs, r''). (v # vs, r'')) (read_elements n r')
               else if c = CHR '']'' then Some ([v], r')
               else None))"
| "read_members 0 s = None"
| "read_members (Suc n) s =
     (case skip_ws s of
        [] \<Rightarrow> None
      | q # r0 \<Rightarrow>
          if q \<noteq> chr 34 then None
          else (case read_string r0 of
             None \<Rightarrow> None
           | Some (key, r1) \<Rightarrow>
               (case skip_ws r1 of
                  [] \<Rightarrow> None
                | col # r2 \<Rightarrow>
                    if col \<noteq> CHR '':'' then None
                    else (case read_value n r2 of
                       None \<Rightarrow> None
                     | Some (v, r3) \<Rightarrow>
                         (case skip_ws r3 of
                            [] \<Rightarrow> None
                          | c # r4 \<Rightarrow>
                              if c = CHR '','' then
                                map_option (\<lambda>(ms, r5). ((key, v) # ms, r5)) (read_members n r4)
                              else if c = CHR ''}'' then Some ([(key, v)], r4)
                              else None)))))"

text \<open>A whole document: one value with nothing but white space after it.\<close>

definition decode :: "string \<Rightarrow> json option" where
  "decode s =
     (case read_value (2 * length s + 2) s of
        Some (v, r) \<Rightarrow> if skip_ws r = [] then Some v else None
      | None \<Rightarrow> None)"

text \<open>\<open>json.Unmarshal\<close> into a \<open>map[string]string\<close>: an object of strings (a null leaves the
  empty string, and a null document no map); a later member replaces an earlier one of the same
  name, and any other value is an error.\<close>

fun flat_entries :: "(string \<times> json) list \<Rightarrow> (string \<rightharpoonup> string) \<Rightarrow> (string \<rightharpoonup> string) option" where
  "flat_entries [] m = Some m"
| "flat_entries ((key, v) # ms) m =
     (case v of
        JStr s \<Rightarrow> flat_entries ms (m(key \<mapsto> s))
      | JNull \<Rightarrow> flat_entries ms (m(key \<mapsto> []))
      | _ \<Rightarrow> None)"

definition unmarshal_flat :: "string \<Rightarrow> (string \<rightharpoonup> string) option" where
  "unmarshal_flat s =
     (case decode s of
        Some (JObj ms) \<Rightarrow> flat_entries ms Map.empty
      | Some JNull \<Rightarrow> Some Map.empty
      | _ \<Rightarrow> None)"

subsection \<open>Strings survive\<close>

text \<open>What a chunk of a string is read back as.\<close>

definition chunk_text :: "bool \<times> string \<Rightarrow> string" where
  "chunk_text ch = (if fst ch then snd ch else replacement_char)"

lemma to_valid_chunks: "to_valid_utf8 s = concat (map chunk_text (utf8_chunks s))"
proof -
  have "(\<lambda>(ok, c). if ok then c else replacement_char) = chunk_text"
    by (auto simp: chunk_text_def)
  then show ?thesis by (simp only: to_valid_utf8_def)
qed

lemma conts_ok_high: "conts_ok k lo hi cs \<Longrightarrow> lo \<ge> 0x80 \<Longrightarrow> \<forall>b \<in> set (take k cs). byte b \<ge> 0x80"
  by (induction k lo hi cs rule: conts_ok.induct) auto

lemma utf8_lead_cases:
  "utf8_lead b = Some (k, lo, hi) \<Longrightarrow> lo \<ge> 0x80 \<and> (b < 0x80 \<and> k = 0 \<or> b \<ge> 0x80 \<and> k > 0)"
  by (auto simp: utf8_lead_def split: if_splits)

lemma utf8_size_shape:
  assumes "utf8_size s = n" and "n > 0"
  shows "(n = 1 \<and> byte (hd s) < 0x80) \<or> (n > 1 \<and> (\<forall>b \<in> set (take n s). byte b \<ge> 0x80))"
proof (cases s)
  case (Cons c cs)
  with assms obtain k lo hi where k: "utf8_lead (byte c) = Some (k, lo, hi)" "conts_ok k lo hi cs" "n = Suc k"
    by (auto split: option.splits if_splits)
  with utf8_lead_cases [OF k(1)] conts_ok_high [OF k(2)] Cons show ?thesis by auto
qed (use assms in simp)

definition chunk_ok :: "bool \<times> string \<Rightarrow> bool" where
  "chunk_ok ch \<longleftrightarrow> fst ch \<longrightarrow>
     (length (snd ch) = 1 \<and> byte (hd (snd ch)) < 0x80 \<or>
      length (snd ch) > 1 \<and> (\<forall>b \<in> set (snd ch). byte b \<ge> 0x80))"

lemma utf8_chunks_ok: "\<forall>ch \<in> set (utf8_chunks s). chunk_ok ch \<and> (fst ch \<longrightarrow> utf8_size (snd ch) = length (snd ch) \<and> snd ch \<noteq> [])"
proof (induction s rule: utf8_chunks.induct)
  case (1 s)
  let ?n = "utf8_size s"
  show ?case
  proof (cases "s = [] \<or> ?n = 0")
    case True
    then show ?thesis using 1 by (subst utf8_chunks.simps) (auto simp: chunk_ok_def)
  next
    case False
    then have n: "?n > 0" "?n \<le> length s" "s \<noteq> []" using utf8_size_le by auto
    have "utf8_size (take ?n s) = ?n" using utf8_size_take [of s ?n "[]"] n by simp
    moreover have "chunk_ok (True, take ?n s)"
      using utf8_size_shape [of s ?n] n by (auto simp: chunk_ok_def hd_take)
    moreover have "utf8_chunks s = (True, take ?n s) # utf8_chunks (drop ?n s)"
      using False by (subst utf8_chunks.simps) simp
    ultimately show ?thesis using 1 False n by auto
  qed
qed

lemma utf8_chunks_append:
  assumes "utf8_size c = length c" and "c \<noteq> []"
  shows "utf8_chunks (c @ t) = (True, c) # utf8_chunks t"
proof -
  have "utf8_size (c @ t) = length c"
    using utf8_size_take [of c "length c" t] assms by simp
  then show ?thesis using assms by (subst utf8_chunks.simps) simp
qed

lemma replacement_size: "utf8_size replacement_char = length replacement_char"
  by (simp add: replacement_char_def utf8_lead_def numeral_2_eq_2)

lemma to_valid_utf8_idem [simp]: "to_valid_utf8 (to_valid_utf8 s) = to_valid_utf8 s"
proof -
  have "utf8_chunks (concat (map chunk_text cs)) = map (\<lambda>ch. (True, chunk_text ch)) cs"
    if "\<forall>ch \<in> set cs. fst ch \<longrightarrow> utf8_size (snd ch) = length (snd ch) \<and> snd ch \<noteq> []" for cs
    using that
  proof (induction cs)
    case (Cons ch cs)
    have "utf8_size (chunk_text ch) = length (chunk_text ch) \<and> chunk_text ch \<noteq> []"
      using Cons.prems replacement_size by (auto simp: chunk_text_def replacement_char_def)
    then show ?case using Cons by (simp add: utf8_chunks_append)
  qed simp
  then have "utf8_chunks (to_valid_utf8 s) = map (\<lambda>ch. (True, chunk_text ch)) (utf8_chunks s)"
    using utf8_chunks_ok [of s] by (simp add: to_valid_chunks)
  then show ?thesis by (simp add: to_valid_chunks comp_def chunk_text_def [of "(True, _)"])
qed

lemma hex_val_digit: "k < 16 \<Longrightarrow> hex_val (hex_digit k) = Some k"
  by (simp add: hex_val_def hex_digit_def)

lemma hex4_esc: "n < 65536 \<Longrightarrow>
   hex4 (hex_digit (n div 4096) # hex_digit (n div 256 mod 16) # hex_digit (n div 16 mod 16)
     # hex_digit (n mod 16) # r) = Some (n, r)"
proof -
  assume n: "n < 65536"
  have "n div 4096 < 16" using n by (simp add: less_mult_imp_div_less)
  moreover have "4096 * (n div 4096) + 256 * (n div 256 mod 16) + 16 * (n div 16 mod 16) + n mod 16 = n"
  proof -
    have "n div 16 div 16 = n div 256" "n div 256 div 16 = n div 4096"
      by (simp_all add: div_mult2_eq [symmetric])
    then have "16 * (n div 256) + n div 16 mod 16 = n div 16"
      "16 * (n div 4096) + n div 256 mod 16 = n div 256"
      by (metis mult_div_mod_eq)+
    moreover have "16 * (n div 16) + n mod 16 = n" by simp
    ultimately show ?thesis by linarith
  qed
  ultimately show ?thesis by (simp add: hex_val_digit)
qed

lemma read_esc_u:
  assumes "n < 0xD800 \<or> (0xDFFF < n \<and> n < 65536)"
  shows "read_chars (Suc m) (esc_u n @ r) =
    map_option (\<lambda>(t, r'). (utf8_encode n @ t, r')) (read_chars m r)"
proof -
  have "n < 65536" using assms by auto
  then have "read_unicode (hex_digit (n div 4096) # hex_digit (n div 256 mod 16)
      # hex_digit (n div 16 mod 16) # hex_digit (n mod 16) # r) = Some (utf8_encode n, r)"
    using assms by (auto simp: read_unicode_def hex4_esc simp del: hex4.simps)
  then show ?thesis by (simp add: esc_u_def read_escape_def eq_chr)
qed

lemma read_plain:
  assumes "\<forall>b \<in> set c. byte b \<ge> 32 \<and> b \<noteq> chr 34 \<and> b \<noteq> chr 92"
  shows "read_chars (length c + m) (c @ r) = map_option (\<lambda>(t, r'). (c @ t, r')) (read_chars m r)"
  using assms
proof (induction c)
  case (Cons b c)
  then show ?case by (auto simp: option.map_comp comp_def case_prod_beta not_less)
qed (simp add: case_prod_beta option.map_id)

lemma read_two_byte:
  assumes "read_escape (e # r) = Some ([c], r)"
  shows "read_chars (Suc m) (chr 92 # e # r) = map_option (\<lambda>(t, r'). (c # t, r')) (read_chars m r)"
  using assms by (simp add: eq_chr)

declare read_chars.simps [simp del]

lemma read_escape_ascii:
  assumes "byte c < 0x80"
  shows "read_chars (Suc m) (escape_ascii c @ r) = map_option (\<lambda>(t, r'). (c # t, r')) (read_chars m r)"
proof -
  have u: "utf8_encode (byte c) = [c]" using assms by (simp add: utf8_encode_def)
  have two: "read_chars (Suc m) ([chr 92, e] @ r) = map_option (\<lambda>(t, r'). (c # t, r')) (read_chars m r)"
    if "read_escape (e # r) = Some ([c], r)" for e
    using read_two_byte [OF that] by simp
  let ?named = "c = chr 34 \<or> c = chr 92 \<or> c = chr 8 \<or> c = chr 12 \<or> c = chr 10 \<or> c = chr 13 \<or> c = chr 9"
  let ?hex = "byte c < 32 \<or> c = CHR ''<'' \<or> c = CHR ''>'' \<or> c = CHR ''&''"
  consider (named) ?named | (hex) "\<not> ?named" ?hex | (plain) "\<not> ?named" "\<not> ?hex" by blast
  then show ?thesis
  proof cases
    case named
    define e where "e = (if byte c = 8 then CHR ''b'' else if byte c = 12 then CHR ''f''
      else if byte c = 10 then CHR ''n'' else if byte c = 13 then CHR ''r''
      else if byte c = 9 then CHR ''t'' else c)"
    from named have named: "byte c = 34 \<or> byte c = 92 \<or> byte c = 8 \<or> byte c = 12 \<or> byte c = 10 \<or> byte c = 13 \<or> byte c = 9"
      by (simp add: eq_chr)
    then have "escape_ascii c = [chr 92, e]"
      by (elim disjE) (simp_all add: escape_ascii_def e_def eq_chr)
    moreover have "read_escape (e # r) = Some ([c], r)"
      using named by (elim disjE) (simp_all add: read_escape_def e_def eq_chr chr_eq)
    ultimately show ?thesis using two [of e] by simp
  next
    case hex
    then have "escape_ascii c = esc_u (byte c)" by (simp add: escape_ascii_def)
    moreover have "byte c < 0xD800" using assms by simp
    ultimately show ?thesis using read_esc_u [of "byte c" m r] u by simp
  next
    case plain
    then have "escape_ascii c = [c]" by (simp add: escape_ascii_def)
    then show ?thesis using read_plain [of "[c]" m r] plain by (simp add: not_less)
  qed
qed

lemma read_chunk_step:
  assumes "escape_chunk ch \<noteq> []" and "length (escape_chunk ch @ r) \<le> n"
    and "\<And>m. read_chars (Suc m) (escape_chunk ch @ r) =
      map_option (\<lambda>(t, r'). (chunk_text ch @ t, r')) (read_chars m r)"
  shows "\<exists>m. length r \<le> m \<and> read_chars n (escape_chunk ch @ r) =
    map_option (\<lambda>(t, r'). (chunk_text ch @ t, r')) (read_chars m r)"
proof -
  obtain m where m: "n = Suc m" using assms(1,2) by (cases n) auto
  have "length r \<le> m" using assms(1,2) m by (cases "escape_chunk ch") auto
  then show ?thesis using assms(3) m by blast
qed

lemma read_chunk:
  assumes "chunk_ok ch" and "length (escape_chunk ch @ r) \<le> n"
  shows "\<exists>m. length r \<le> m \<and> read_chars n (escape_chunk ch @ r) =
    map_option (\<lambda>(t, r'). (chunk_text ch @ t, r')) (read_chars m r)"
proof -
  obtain ok c where ch: "ch = (ok, c)" by (cases ch)
  note one = read_chunk_step [OF _ assms(2)]
  have esc: "esc_u k \<noteq> []" for k by (simp add: esc_u_def)
  have seps: "utf8_encode 0xFFFD = replacement_char" "utf8_encode 0x2028 = line_sep" "utf8_encode 0x2029 = para_sep"
    by (simp_all add: utf8_encode_def replacement_char_def line_sep_def para_sep_def)
  consider (escaped) "\<not> ok \<or> c = line_sep \<or> c = para_sep"
    | (ascii) "ok" "length c = 1" "byte (hd c) < 0x80" "c \<noteq> line_sep" "c \<noteq> para_sep"
    | (wide) "ok" "length c > 1" "\<forall>b \<in> set c. byte b \<ge> 0x80" "c \<noteq> line_sep" "c \<noteq> para_sep"
    using assms(1) ch by (auto simp: chunk_ok_def)
  then show ?thesis
  proof cases
    case escaped
    then show ?thesis
      by (intro one) (auto simp: ch esc read_esc_u chunk_text_def seps)
  next
    case ascii
    then obtain b where b: "c = [b]" by (cases c) auto
    have "escape_ascii b \<noteq> []" by (simp add: escape_ascii_def esc_u_def)
    then show ?thesis
      using ascii b by (intro one) (simp_all add: ch chunk_text_def read_escape_ascii)
  next
    case wide
    then have e: "escape_chunk ch = c" and t: "chunk_text ch = c" by (simp_all add: ch chunk_text_def)
    have n: "n = length c + (n - length c)" "length r \<le> n - length c" using assms(2) e by simp_all
    have "byte b \<ge> 32 \<and> b \<noteq> chr 34 \<and> b \<noteq> chr 92" if "b \<in> set c" for b
      using wide(3) that by (auto simp: eq_chr)
    then have "read_chars (length c + (n - length c)) (c @ r) =
        map_option (\<lambda>(t, r'). (c @ t, r')) (read_chars (n - length c) r)"
      by (intro read_plain) blast
    then show ?thesis using n e t by (intro exI [of _ "n - length c"]) simp
  qed
qed

lemma read_chars_body:
  "\<forall>ch \<in> set cs. chunk_ok ch \<Longrightarrow> length (concat (map escape_chunk cs) @ chr 34 # r) \<le> n \<Longrightarrow>
   read_chars n (concat (map escape_chunk cs) @ chr 34 # r) = Some (concat (map chunk_text cs), r)"
proof (induction cs arbitrary: n)
  case Nil
  then obtain m where "n = Suc m" by (cases n) auto
  then show ?case by (simp add: read_chars.simps)
next
  case (Cons ch cs)
  let ?rest = "concat (map escape_chunk cs) @ chr 34 # r"
  have "chunk_ok ch" "length (escape_chunk ch @ ?rest) \<le> n" using Cons.prems by simp_all
  from read_chunk [OF this] obtain m where m: "length ?rest \<le> m"
    "read_chars n (escape_chunk ch @ ?rest) =
      map_option (\<lambda>(t, r'). (chunk_text ch @ t, r')) (read_chars m ?rest)" by blast
  have "read_chars m ?rest = Some (concat (map chunk_text cs), r)"
    using Cons.prems(1) m(1) by (intro Cons.IH) auto
  then show ?case using m(2) by simp
qed

text \<open>Reading an encoded string, after its opening quote.\<close>

lemma read_encode_string:
  "read_string (concat (map escape_chunk (utf8_chunks s)) @ chr 34 # r) = Some (to_valid_utf8 s, r)"
proof -
  have "\<forall>ch \<in> set (utf8_chunks s). chunk_ok ch" using utf8_chunks_ok by blast
  from read_chars_body [OF this order_refl] show ?thesis
    by (simp only: read_string_def to_valid_chunks [symmetric] option.map to_valid_utf8_idem prod.case)
qed

subsection \<open>Values survive\<close>

fun json_ok :: "json \<Rightarrow> bool" where
  "json_ok (JNum n) = (valid_number n \<and> list_all number_char n)"
| "json_ok (JArr vs) = list_all json_ok vs"
| "json_ok (JObj ms) = list_all (\<lambda>m. json_ok (snd m)) ms"
| "json_ok _ = True"

fun clean :: "json \<Rightarrow> json" where
  "clean (JStr s) = JStr (to_valid_utf8 s)"
| "clean (JArr vs) = JArr (map clean vs)"
| "clean (JObj ms) = JObj (map (\<lambda>m. (to_valid_utf8 (fst m), clean (snd m))) ms)"
| "clean v = v"

lemma valid_number_first:
  "valid_number n \<Longrightarrow> \<exists>c r. n = c # r \<and> (is_digit c \<or> c = CHR ''-'')"
  by (cases n) (auto simp: valid_number_def is_digit_def split: list.splits if_splits)

text \<open>How a value starts.\<close>

definition starts_value :: "char \<Rightarrow> bool" where
  "starts_value c \<longleftrightarrow> c = chr 34 \<or> c = CHR ''['' \<or> c = CHR ''{'' \<or> c = CHR ''t'' \<or> c = CHR ''f'' \<or>
     c = CHR ''n'' \<or> c = CHR ''-'' \<or> is_digit c"

lemma encode_starts: "json_ok v \<Longrightarrow> \<exists>c r. encode v = c # r \<and> starts_value c"
  by (cases v) (auto simp: starts_value_def encode_string_def dest: valid_number_first)

lemma starts_value_no_space:
  "starts_value c \<Longrightarrow> \<not> is_json_space c \<and> c \<noteq> CHR '']'' \<and> c \<noteq> CHR ''}''"
  by (auto simp: starts_value_def is_json_space_def is_digit_def eq_chr)

lemma skip_ws_value: "json_ok v \<Longrightarrow> skip_ws (encode v @ r) = encode v @ r"
  using encode_starts [of v] starts_value_no_space by (auto simp: skip_ws_def)

lemma skip_ws_char: "\<not> is_json_space c \<Longrightarrow> skip_ws (c # r) = c # r"
  by (simp add: skip_ws_def)

lemma no_space [simp]:
  "\<not> is_json_space (CHR '','')" "\<not> is_json_space (CHR '']'')" "\<not> is_json_space (CHR ''}'')"
  "\<not> is_json_space (CHR '':'')" "\<not> is_json_space (CHR ''['')" "\<not> is_json_space (CHR ''{'')"
  "\<not> is_json_space (chr 34)"
  by (simp_all add: is_json_space_def eq_chr byte_chr)

definition follows :: "string \<Rightarrow> bool" where
  "follows r \<longleftrightarrow> (case r of [] \<Rightarrow> True | c # _ \<Rightarrow> \<not> number_char c)"

lemma follows_simps [simp]:
  "follows []" "follows (CHR '','' # r)" "follows (CHR '']'' # r)" "follows (CHR ''}'' # r)"
  by (simp_all add: follows_def number_char_def is_digit_def)

definition reads :: "json \<Rightarrow> bool" where
  "reads v \<longleftrightarrow> (\<forall>n r. 2 * length (encode v) \<le> n \<longrightarrow> follows r \<longrightarrow>
     read_value n (encode v @ r) = Some (clean v, r))"

lemma readsD: "reads v \<Longrightarrow> 2 * length (encode v) \<le> n \<Longrightarrow> follows r \<Longrightarrow>
   read_value n (encode v @ r) = Some (clean v, r)"
  by (simp add: reads_def)

lemma commas_Cons: "xs \<noteq> [] \<Longrightarrow> commas (x # xs) = x @ CHR '','' # commas xs"
  by (cases xs) simp_all

lemma read_elements_encode:
  "vs \<noteq> [] \<Longrightarrow> \<forall>v \<in> set vs. reads v \<Longrightarrow> 2 * length (commas (map encode vs)) + 2 \<le> n \<Longrightarrow>
   read_elements n (commas (map encode vs) @ CHR '']'' # r) = Some (map clean vs, r)"
proof (induction vs arbitrary: n)
  case (Cons v vs)
  obtain m where n: "n = Suc m" using Cons.prems(3) by (cases n) auto
  have v: "reads v" using Cons.prems(2) by simp
  show ?case
  proof (cases "vs = []")
    case True
    have "read_value m (encode v @ CHR '']'' # r) = Some (clean v, CHR '']'' # r)"
      using Cons.prems(3) True n by (intro readsD [OF v]) simp_all
    then show ?thesis by (simp add: n True skip_ws_char)
  next
    case False
    let ?rest = "CHR '','' # commas (map encode vs) @ CHR '']'' # r"
    have txt_eq: "commas (encode v # map encode vs) = encode v @ CHR '','' # commas (map encode vs)"
      using False by (simp add: commas_Cons)
    have "read_value m (encode v @ ?rest) = Some (clean v, ?rest)"
      using Cons.prems(3) n by (intro readsD [OF v]) (simp_all add: txt_eq)
    moreover have "read_elements m (commas (map encode vs) @ CHR '']'' # r) = Some (map clean vs, r)"
      using Cons.prems(2,3) n False by (intro Cons.IH) (simp_all add: txt_eq)
    ultimately show ?thesis by (simp add: n txt_eq skip_ws_char)
  qed
qed simp

abbreviation encode_member :: "string \<times> json \<Rightarrow> string" where
  "encode_member m \<equiv> encode_string (fst m) @ CHR '':'' # encode (snd m)"

abbreviation clean_member :: "string \<times> json \<Rightarrow> string \<times> json" where
  "clean_member m \<equiv> (to_valid_utf8 (fst m), clean (snd m))"

lemma read_string_literal:
  "read_string (tl (encode_string s) @ r) = Some (to_valid_utf8 s, r)"
  by (simp add: encode_string_def read_encode_string)

lemma encode_string_Cons: "encode_string s = chr 34 # tl (encode_string s)"
  by (simp add: encode_string_def)

lemma read_member:
  assumes "reads (snd m)" and "2 * length (encode_member m) \<le> n" and "follows (c # r)" and "\<not> is_json_space c"
  shows "read_members (Suc n) (encode_member m @ c # r) =
    (if c = CHR '','' then map_option (\<lambda>(ms, r5). (clean_member m # ms, r5)) (read_members n r)
     else if c = CHR ''}'' then Some ([clean_member m], r) else None)"
proof -
  let ?s = "tl (encode_string (fst m))"
  have txt_eq: "encode_member m @ c # r = chr 34 # ?s @ CHR '':'' # encode (snd m) @ c # r"
    by (subst encode_string_Cons) simp
  have "read_value n (encode (snd m) @ c # r) = Some (clean (snd m), c # r)"
    using assms(2,3) by (intro readsD [OF assms(1)]) simp_all
  then show ?thesis
    unfolding txt_eq using assms(4) by (simp add: skip_ws_char read_string_literal)
qed

lemma read_members_encode:
  "ms \<noteq> [] \<Longrightarrow> \<forall>m \<in> set ms. reads (snd m) \<Longrightarrow> 2 * length (commas (map encode_member ms)) + 2 \<le> n \<Longrightarrow>
   read_members n (commas (map encode_member ms) @ CHR ''}'' # r) = Some (map clean_member ms, r)"
proof (induction ms arbitrary: n)
  case (Cons m ms)
  obtain k where n: "n = Suc k" using Cons.prems(3) by (cases n) auto
  have m: "reads (snd m)" using Cons.prems(2) by simp
  show ?case
  proof (cases "ms = []")
    case True
    have "2 * length (encode_member m) \<le> k" using Cons.prems(3) True n by simp
    from read_member [OF m this, of "CHR ''}''" r] show ?thesis by (simp add: n True)
  next
    case False
    have txt_eq: "commas (map encode_member (m # ms)) = encode_member m @ CHR '','' # commas (map encode_member ms)"
      using False by (simp add: commas_Cons)
    have "2 * length (encode_member m) \<le> k" using Cons.prems(3) n unfolding txt_eq by simp
    note read_member [OF m this, of "CHR '',''" "commas (map encode_member ms) @ CHR ''}'' # r"]
    moreover have "read_members k (commas (map encode_member ms) @ CHR ''}'' # r) = Some (map clean_member ms, r)"
      using Cons.prems(2,3) n False unfolding txt_eq by (intro Cons.IH) simp_all
    ultimately show ?thesis unfolding n txt_eq append.assoc append_Cons by simp
  qed
qed simp

lemma skip_ws_start:
  assumes "starts_value c"
  shows "skip_ws (c # s) = c # s" "c \<noteq> CHR '']''" "c \<noteq> CHR ''}''"
  using starts_value_no_space [OF assms] by (simp_all add: skip_ws_char)

lemma commas_start:
  assumes "xs \<noteq> []" and "\<forall>x \<in> set xs. \<exists>c r. x = c # r \<and> starts_value c"
  shows "\<exists>c r. commas xs @ s = c # r \<and> starts_value c"
  using assms by (cases xs; cases "tl xs") auto

lemma number_first_tests:
  assumes "is_digit c \<or> c = CHR ''-''"
  shows "c \<noteq> chr 34 \<and> c \<noteq> CHR ''['' \<and> c \<noteq> CHR ''{'' \<and> c \<noteq> CHR ''t'' \<and> c \<noteq> CHR ''f'' \<and> c \<noteq> CHR ''n'' \<and>
    \<not> is_json_space c"
  using assms by (auto simp: is_digit_def is_json_space_def eq_chr)

lemma read_number_literal:
  assumes "valid_number n" and "list_all number_char n" and "follows r"
  shows "read_number (n @ r) = Some (JNum n, r)"
proof -
  have "takeWhile number_char r = []" "dropWhile number_char r = r"
    using assms(3) by (cases r; simp add: follows_def)+
  moreover have "takeWhile number_char (n @ r) = n @ takeWhile number_char r"
    "dropWhile number_char (n @ r) = dropWhile number_char r"
    using assms(2) by (simp_all add: list_all_iff takeWhile_append2 dropWhile_append2)
  ultimately show ?thesis using assms(1) by (simp add: read_number_def)
qed

lemma literal_tests:
  "CHR ''t'' \<noteq> chr 34" "CHR ''f'' \<noteq> chr 34" "CHR ''n'' \<noteq> chr 34" "CHR ''['' \<noteq> chr 34" "CHR ''{'' \<noteq> chr 34"
  "\<not> is_json_space (CHR ''t'')" "\<not> is_json_space (CHR ''f'')" "\<not> is_json_space (CHR ''n'')"
  by (simp_all add: is_json_space_def eq_chr)

lemma readsI:
  assumes "encode v \<noteq> []"
    and "\<And>m r. 2 * length (encode v) \<le> Suc m \<Longrightarrow> follows r \<Longrightarrow>
      read_value (Suc m) (encode v @ r) = Some (clean v, r)"
  shows "reads v"
  unfolding reads_def
proof (intro allI impI)
  fix n r assume "2 * length (encode v) \<le> n" "follows r"
  moreover from this assms(1) obtain m where "n = Suc m" by (cases n) auto
  ultimately show "read_value n (encode v @ r) = Some (clean v, r)" using assms(2) by simp
qed

lemma reads_JNum:
  assumes "valid_number l" and "list_all number_char l"
  shows "reads (JNum l)"
proof -
  obtain c cs where l: "l = c # cs" "is_digit c \<or> c = CHR ''-''"
    using valid_number_first [OF assms(1)] by auto
  show ?thesis
  proof (rule readsI)
    fix m r assume f: "follows r"
    have "read_number (c # cs @ r) = Some (JNum l, r)"
      using read_number_literal [of l r] assms f l by simp
    then show "read_value (Suc m) (encode (JNum l) @ r) = Some (clean (JNum l), r)"
      using number_first_tests [OF l(2)] by (simp add: l skip_ws_char)
  qed (simp add: l)
qed

lemma reads_JStr: "reads (JStr s)"
proof (rule readsI)
  fix m r
  have "encode (JStr s) @ r = chr 34 # tl (encode_string s) @ r"
    using encode_string_Cons [of s] by simp
  then show "read_value (Suc m) (encode (JStr s) @ r) = Some (clean (JStr s), r)"
    by (simp add: skip_ws_char read_string_literal del: encode.simps)
qed (simp add: encode_string_def)

lemma reads_JArr:
  assumes "list_all json_ok vs" and "list_all reads vs"
  shows "reads (JArr vs)"
proof (rule readsI)
  fix m r assume n: "2 * length (encode (JArr vs)) \<le> Suc m"
  show "read_value (Suc m) (encode (JArr vs) @ r) = Some (clean (JArr vs), r)"
  proof (cases "vs = []")
    case True
    then show ?thesis by (simp add: skip_ws_char literal_tests)
  next
    case False
    let ?body = "commas (map encode vs) @ CHR '']'' # r"
    have "\<forall>v \<in> set vs. reads v" using assms(2) by (simp add: list_all_iff)
    then have "read_elements m ?body = Some (map clean vs, r)"
      using False n by (intro read_elements_encode) simp_all
    moreover obtain c t where "?body = c # t" "starts_value c"
      using commas_start [of "map encode vs" "CHR '']'' # r"] False encode_starts assms(1)
      by (auto simp: list_all_iff)
    ultimately show ?thesis by (simp add: skip_ws_char literal_tests skip_ws_start)
  qed
qed simp

lemma reads_JObj:
  assumes "list_all (\<lambda>(_, v). reads v) ms"
  shows "reads (JObj ms)"
proof (rule readsI)
  fix m r assume n: "2 * length (encode (JObj ms)) \<le> Suc m"
  show "read_value (Suc m) (encode (JObj ms) @ r) = Some (clean (JObj ms), r)"
  proof (cases "ms = []")
    case True
    then show ?thesis by (simp add: skip_ws_char literal_tests)
  next
    case False
    let ?body = "commas (map encode_member ms) @ CHR ''}'' # r"
    have "\<forall>mb \<in> set ms. reads (snd mb)" using assms by (auto simp: list_all_iff)
    then have "read_members m ?body = Some (map clean_member ms, r)"
      using False n by (intro read_members_encode) simp_all
    moreover have "\<forall>x \<in> set (map encode_member ms). \<exists>c r. x = c # r \<and> starts_value c"
      by (auto simp: encode_string_def starts_value_def)
    then obtain c t where "?body = c # t" "starts_value c"
      using commas_start [of "map encode_member ms" "CHR ''}'' # r"] False by auto
    ultimately show ?thesis by (simp add: skip_ws_char literal_tests skip_ws_start)
  qed
qed simp

lemma encode_reads: "json_ok j \<Longrightarrow> reads j"
proof (induction j rule: encode.induct)
  case 1
  show ?case by (rule readsI) (simp_all add: skip_ws_char literal_tests read_literal_def)
next
  case (2 b)
  show ?case by (rule readsI) (simp_all add: skip_ws_char literal_tests read_literal_def)
next
  case (3 l)
  then show ?case by (simp add: reads_JNum)
next
  case (4 s)
  show ?case by (rule reads_JStr)
next
  case (5 vs)
  then show ?case by (intro reads_JArr) (simp_all add: list_all_iff)
next
  case (6 ms)
  then show ?case by (intro reads_JObj) (auto simp: list_all_iff)
qed

text \<open>Reading back what was written gives the value written, with every ill-formed byte of its
  strings replaced by U+FFFD.\<close>

lemma decode_encode:
  assumes "json_ok v"
  shows "decode (encode v) = Some (clean v)"
  using readsD [OF encode_reads [OF assms], of "2 * length (encode v) + 2" "[]"]
  by (simp add: decode_def skip_ws_def)

subsection \<open>What is written is well-formed UTF-8\<close>

lemma utf8_chunks_concat_append:
  "\<forall>c \<in> set cs. utf8_size c = length c \<and> c \<noteq> [] \<Longrightarrow>
   utf8_chunks (concat cs @ t) = map (\<lambda>c. (True, c)) cs @ utf8_chunks t"
  by (induction cs) (simp_all add: utf8_chunks_append)

lemma valid_utf8_append [simp]:
  assumes "valid_utf8 a"
  shows "valid_utf8 (a @ b) = valid_utf8 b"
proof -
  have "\<forall>c \<in> set (map snd (utf8_chunks a)). utf8_size c = length c \<and> c \<noteq> []"
    using utf8_chunks_ok [of a] assms by (auto simp: valid_utf8_def)
  from utf8_chunks_concat_append [OF this, of b]
  show ?thesis by (auto simp: utf8_chunks_concat valid_utf8_def)
qed

lemma valid_utf8_Nil [simp]: "valid_utf8 []"
  by (simp add: valid_utf8_def)

lemma valid_utf8_Cons: "byte c < 0x80 \<Longrightarrow> valid_utf8 (c # s) = valid_utf8 s"
  using valid_utf8_append [OF valid_utf8_ascii, of "[c]" s] by simp

lemma valid_utf8_concat: "\<forall>x \<in> set xs. valid_utf8 x \<Longrightarrow> valid_utf8 (concat xs)"
  by (induction xs) simp_all

lemma hex_digit_ascii: "k < 16 \<Longrightarrow> byte (hex_digit k) < 0x80"
  by (simp add: hex_digit_def byte_chr)

lemma esc_u_ascii: "n < 65536 \<Longrightarrow> \<forall>c \<in> set (esc_u n). byte c < 0x80"
  by (simp add: esc_u_def hex_digit_ascii byte_chr less_mult_imp_div_less)

lemma escape_ascii_valid: "byte c < 0x80 \<Longrightarrow> \<forall>b \<in> set (escape_ascii c). byte b < 0x80"
proof -
  assume c: "byte c < 0x80"
  have "\<forall>b \<in> set (esc_u (byte c)). byte b < 0x80" by (rule esc_u_ascii) (use c in simp)
  then show ?thesis using c unfolding escape_ascii_def by (simp only: split: if_split) (simp add: byte_chr)
qed

lemma escape_chunk_valid:
  assumes "chunk_ok ch \<and> (fst ch \<longrightarrow> utf8_size (snd ch) = length (snd ch) \<and> snd ch \<noteq> [])"
  shows "valid_utf8 (escape_chunk ch)"
proof -
  obtain ok c where ch: "ch = (ok, c)" by (cases ch)
  have wide: "valid_utf8 c" if "ok"
    using assms that utf8_chunks_append [of c "[]"] by (simp add: ch valid_utf8_def)
  have "byte (hd c) < 0x80" if "ok" "length c = 1"
    using assms that by (cases c) (auto simp: ch chunk_ok_def)
  then have "valid_utf8 (escape_ascii (hd c))" if "ok" "length c = 1"
    using that by (intro valid_utf8_ascii escape_ascii_valid) simp
  moreover have "valid_utf8 (esc_u k)" if "k < 65536" for k
    using that by (intro valid_utf8_ascii esc_u_ascii)
  ultimately show ?thesis using wide by (simp add: ch)
qed

lemma encode_string_valid: "valid_utf8 (encode_string s)"
proof -
  have "valid_utf8 (concat (map escape_chunk (utf8_chunks s)))"
    by (rule valid_utf8_concat) (use utf8_chunks_ok [of s] escape_chunk_valid in auto)
  then show ?thesis by (simp add: encode_string_def valid_utf8_Cons byte_chr)
qed

lemma commas_valid: "\<forall>x \<in> set xs. valid_utf8 x \<Longrightarrow> valid_utf8 (commas xs)"
  by (induction xs rule: commas.induct) (simp_all add: valid_utf8_Cons)

lemma number_char_ascii: "number_char c \<Longrightarrow> byte c < 0x80"
  by (auto simp: number_char_def is_digit_def)

lemma encode_valid: "json_ok v \<Longrightarrow> valid_utf8 (encode v)"
proof (induction v rule: encode.induct)
  case (3 n)
  then show ?case by (auto intro!: valid_utf8_ascii number_char_ascii simp: list_all_iff)
next
  case (5 vs)
  then have "valid_utf8 (commas (map encode vs))" by (intro commas_valid) (auto simp: list_all_iff)
  then show ?case by (simp add: valid_utf8_Cons)
next
  case (6 ms)
  then have "valid_utf8 (commas (map encode_member ms))"
    by (intro commas_valid) (auto simp: list_all_iff encode_string_valid valid_utf8_Cons)
  then show ?case by (simp add: valid_utf8_Cons)
qed (simp_all add: encode_string_valid valid_utf8_Cons)

text \<open>Integers are number literals.\<close>

lemma dec_first: "n > 0 \<Longrightarrow> hd (dec n) \<noteq> CHR ''0''"
proof (induction n rule: dec.induct)
  case (1 n)
  then show ?case by (subst dec.simps) (auto simp: eq_chr chr_eq byte_chr)
qed

lemma dec_zero: "dec 0 = ''0''"
  by (subst dec.simps) (simp add: chr_eq)

lemma valid_dec: "valid_number (dec n) \<and> valid_number (CHR ''-'' # dec n)"
proof -
  obtain d r where d: "dec n = d # r" by (cases "dec n") simp_all
  have digits: "is_digit d" "\<forall>x \<in> set r. is_digit x" using dec_digits [of n] d by simp_all
  have "d = CHR ''0'' \<Longrightarrow> r = []" using dec_first [of n] d dec_zero by (cases "n = 0") auto
  moreover have "dropWhile is_digit r = []" using digits by (simp add: dropWhile_eq_Nil_conv)
  moreover have "valid_fraction []" by (simp add: valid_fraction_def)
  moreover have "d \<noteq> CHR ''-''" using digits by (auto simp: is_digit_def)
  ultimately show ?thesis using digits by (cases "d = CHR ''0''") (simp_all add: d valid_number_def del: dropWhile_eq_Nil_conv)
qed

lemma Sprint_d_number: "valid_number (Sprint_d i) \<and> list_all number_char (Sprint_d i)"
proof -
  have "list_all number_char (dec n)" for n
    using dec_digits [of n] by (auto simp: list_all_iff number_char_def)
  then show ?thesis using valid_dec by (simp add: Sprint_d_def number_char_def)
qed

end
