(* ===== verification/Preflight_Main.thy ===== *)
theory Preflight_Main
  imports AWS_Provider GCP_Provider Azure_Provider K8s_Stages Go_JSON
begin

text \<open>
  \<open>operator/cmd/preflight/main.go\<close>: the command that assembles the checks for its options, runs
  them and prints one flat JSON object.  The environment variables, the constructors of the
  cloud SDKs and of the Kubernetes clients are parameters; the options are those
  \<open>flag.Parse\<close> leaves.  The program's effects on the process are its result: what it writes
  to standard output and standard error, and its exit code.
\<close>

record options =
  kubeconfig :: string
  namespace :: string
  mode :: string
  cloud :: string
  exitOnRed :: bool
  skipK8sWhenNoKubeconfig :: bool

record ('w, 'cred) SDKs =
  LoadDefaultConfig :: "string \<Rightarrow> ('w, 'w AWSClients go) state"
  GoogleSDK :: "'w GSDK"
  AzureSDKs :: "('w, 'cred) AzureSDK"

record ('w, 'cfg) KubeSDK =
  BuildConfigFromFlags :: "string \<Rightarrow> ('w, 'cfg go) state"
  KubernetesNewForConfig :: "'cfg \<Rightarrow> 'w kubeClient go"
  ApiextNewForConfig :: "'cfg \<Rightarrow> ('w, CRD list go) state go"
  ScanError :: "string \<Rightarrow> string"

subsection \<open>The provider\<close>

text \<open>A nil slice is \<open>None\<close>.\<close>

definition splitNonEmpty :: "string \<Rightarrow> string list option" where
  "splitNonEmpty s =
     (if s = [] then None
      else foldl (\<lambda>out part.
          let p = TrimSpace part in
          if p \<noteq> [] then (case out of None \<Rightarrow> Some [p] | Some ps \<Rightarrow> Some (ps @ [p])) else out)
        None (Split s (CHR '','')))"

definition slice :: "'a list option \<Rightarrow> 'a list" where
  "slice xs = (case xs of None \<Rightarrow> [] | Some ys \<Rightarrow> ys)"

definition aws_env_options :: "(string \<Rightarrow> string) \<Rightarrow> AWSOptions" where
  "aws_env_options getenv =
     \<lparr>awRegion = getenv ''AWS_REGION'',
      awKMSKeyARN = getenv ''PREFLIGHT_AWS_KMS_KEY_ARN'',
      awSecretARNs = slice (splitNonEmpty (getenv ''PREFLIGHT_AWS_SECRET_ARNS'')),
      awVPCID = getenv ''PREFLIGHT_AWS_VPC_ID'',
      awEgressPathRef = getenv ''PREFLIGHT_AWS_EGRESS_PATH_REF'',
      awControlPlaneFQDN = getenv ''PREFLIGHT_AWS_CONTROL_PLANE_FQDN'',
      awRequiredEgressFQDNs = slice (splitNonEmpty (getenv ''PREFLIGHT_AWS_REQUIRED_EGRESS_FQDNS'')),
      awDeployPrincipalARN = getenv ''PREFLIGHT_AWS_DEPLOY_PRINCIPAL_ARN'',
      awProvisionConcerns = splitNonEmpty (getenv ''PREFLIGHT_AWS_PROVISION_CONCERNS'')\<rparr>"

definition gcp_env_options :: "(string \<Rightarrow> string) \<Rightarrow> GCPOptions" where
  "gcp_env_options getenv =
     \<lparr>goProjectID = getenv ''PREFLIGHT_GCP_PROJECT_ID'',
      goRegion = getenv ''PREFLIGHT_GCP_REGION'',
      goKMSKeyID = getenv ''PREFLIGHT_GCP_KMS_KEY_ID'',
      goSecretIDs = slice (splitNonEmpty (getenv ''PREFLIGHT_GCP_SECRET_IDS'')),
      goNetworkSelfLink = getenv ''PREFLIGHT_GCP_NETWORK_SELF_LINK'',
      goRouterName = getenv ''PREFLIGHT_GCP_ROUTER_NAME''\<rparr>"

definition azure_env_options :: "(string \<Rightarrow> string) \<Rightarrow> AzureOptions" where
  "azure_env_options getenv =
     \<lparr>aoSubscriptionID = getenv ''AZURE_SUBSCRIPTION_ID'',
      aoKeyVaultURI = getenv ''PREFLIGHT_AZURE_KEY_VAULT_URI'',
      aoKeyName = getenv ''PREFLIGHT_AZURE_KEY_NAME'',
      aoKeyVaultID = getenv ''PREFLIGHT_AZURE_KEY_VAULT_ID'',
      aoSecretNames = slice (splitNonEmpty (getenv ''PREFLIGHT_AZURE_SECRET_NAMES'')),
      aoVNetID = getenv ''PREFLIGHT_AZURE_VNET_ID'',
      aoUAMIPrincipalID = getenv ''PREFLIGHT_AZURE_UAMI_PRINCIPAL_ID''\<rparr>"

definition selectProvider ::
    "(string \<Rightarrow> string) \<Rightarrow> ('w, 'cred) SDKs \<Rightarrow> string \<Rightarrow> ('w, 'w PreflightProvider go) state" where
  "selectProvider getenv sdks name =
     (if name = [] then State_Monad.return (Inr (fake_provider zero_fake))
      else if name = ''aws'' then do {
        p \<leftarrow> aws_New (LoadDefaultConfig sdks) (aws_env_options getenv);
        State_Monad.return (map_sum id aws_provider p)
      }
      else if name = ''gcp'' then do {
        p \<leftarrow> gcp_New (GoogleSDK sdks) (gcp_env_options getenv);
        State_Monad.return (map_sum id gcp_provider p)
      }
      else if name = ''azure'' then do {
        p \<leftarrow> azure_New (AzureSDKs sdks) (azure_env_options getenv);
        State_Monad.return (map_sum id azure_provider p)
      }
      else State_Monad.return (Inl (''unknown --cloud value '' @ Quote name @ '' (want aws|gcp|azure or empty)'')))"

definition buildKubeClients ::
    "('w, 'cfg) KubeSDK \<Rightarrow> string \<Rightarrow> ('w, ('w kubeClient \<times> ('w, CRD list go) state) go) state" where
  "buildKubeClients kube path = do {
     config \<leftarrow> BuildConfigFromFlags kube path;
     case config of Inl err \<Rightarrow> State_Monad.return (Inl err) | Inr cfg \<Rightarrow>
     (case KubernetesNewForConfig kube cfg of Inl err \<Rightarrow> State_Monad.return (Inl err) | Inr kc \<Rightarrow>
     (case ApiextNewForConfig kube cfg of Inl err \<Rightarrow> State_Monad.return (Inl err) | Inr ac \<Rightarrow>
       State_Monad.return (Inr (kc, ac))))
   }"

subsection \<open>The report as JSON\<close>

definition result_json :: "CheckResult \<Rightarrow> json" where
  "result_json r = JObj
     ([(''id'', JStr (crID r)), (''status'', JStr (crStatus r)), (''message'', JStr (crMessage r))]
      @ (if crRemediation r = [] then [] else [(''remediation'', JStr (crRemediation r))]))"

definition slice_json :: "json list \<Rightarrow> json" where
  "slice_json vs = (if vs = [] then JNull else JArr vs)"

definition stage_json :: "Stage \<Rightarrow> json" where
  "stage_json s = JObj
     ([(''id'', JNum (Sprint_d (stID s))), (''name'', JStr (stName s)), (''status'', JStr (stStatus s)),
       (''results'', slice_json (map result_json (stResults s))), (''blocking'', JBool (stBlocking s))]
      @ (if stInformational s then [(''informational'', JBool True)] else []))"

definition report_json :: "Report \<Rightarrow> json" where
  "report_json r = JObj
     [(''verdict'', JStr (rpVerdict r)), (''stages'', slice_json (map stage_json (rpStages r)))]"

text \<open>\<open>json.Marshal\<close> has no error for these types, and writes the keys of a map in order.\<close>

definition emit :: "Report \<Rightarrow> string go" where
  "emit report =
     (let inner = encode (report_json report);
          flat = JObj [(''report_json'', JStr inner), (''verdict'', JStr (rpVerdict report))]
      in Inr (encode flat))"

definition error_report :: "go_error \<Rightarrow> Report" where
  "error_report runErr =
     \<lparr>rpVerdict = StatusRed,
      rpStages = [\<lparr>stID = StageIdentity, stName = ''preflight'', stStatus = StatusRed,
        stResults = [mk_result ''preflight.internal_error'' StatusRed
          (''preflight could not run: '' @ runErr)
          ''fix the reported error (e.g. kubeconfig path, credentials, --cloud value) and re-run terraform plan''],
        stBlocking = True, stInformational = False\<rparr>]\<rparr>"

definition fallback_literal :: string where
  "fallback_literal = encode (JObj [(''verdict'', JStr ''red''),
     (''report_json'', JStr (encode (JObj [(''verdict'', JStr ''red''), (''stages'', JArr [])])))])"

definition emitError :: "go_error \<Rightarrow> string" where
  "emitError runErr =
     (case emit (error_report runErr) of Inl _ \<Rightarrow> fallback_literal | Inr out \<Rightarrow> out)"

subsection \<open>The run\<close>

definition assemble_checks ::
    "('w, 'cfg) KubeSDK \<Rightarrow> options \<Rightarrow> 'w PreflightProvider \<Rightarrow> ('w, 'w Check list go) state" where
  "assemble_checks kube opts provider =
     (let checks = CloudChecks provider in
      if kubeconfig opts \<noteq> [] then do {
        clients \<leftarrow> buildKubeClients kube (kubeconfig opts);
        case clients of
          Inl kerr \<Rightarrow> State_Monad.return (Inl (''build kube clients: '' @ kerr))
        | Inr (kc, ac) \<Rightarrow>
            State_Monad.return (Inr (checks @ K8sChecks (new_checker kc ac (ScanError kube) (namespace opts))))
      }
      else if \<not> skipK8sWhenNoKubeconfig opts then State_Monad.return (Inr (checks @ NoKubeconfigK8sChecks))
      else State_Monad.return (Inr checks))"

definition run_mode :: "options \<Rightarrow> 'w Runner \<Rightarrow> ('w, Report go) state" where
  "run_mode opts runner =
     (if mode opts = ''full'' then do {
        report \<leftarrow> RunWithProvisionedStages runner [StageIdentity, StageKMS, StageSecrets, StageNetwork];
        State_Monad.return (Inr report)
      }
      else if mode opts = ''agnostic'' then do {
        report \<leftarrow> Run runner;
        State_Monad.return (Inr report)
      }
      else State_Monad.return (Inl (''unknown --mode '' @ Quote (mode opts) @ '' (want agnostic|full)'')))"

definition run_preflight ::
    "(string \<Rightarrow> string) \<Rightarrow> ('w, 'cred) SDKs \<Rightarrow> ('w, 'cfg) KubeSDK \<Rightarrow> options \<Rightarrow> ('w, string go) state" where
  "run_preflight getenv sdks kube opts = do {
     provider \<leftarrow> selectProvider getenv sdks (cloud opts);
     case provider of Inl err \<Rightarrow> State_Monad.return (Inl err) | Inr p \<Rightarrow> do {
       checks \<leftarrow> assemble_checks kube opts p;
       case checks of Inl err \<Rightarrow> State_Monad.return (Inl err) | Inr cs \<Rightarrow> do {
         report \<leftarrow> run_mode opts (NewRunner cs);
         case report of Inl err \<Rightarrow> State_Monad.return (Inl err) | Inr rep \<Rightarrow> State_Monad.return (emit rep)
       }
     }
   }"

record Process =
  stdout :: string
  stderr :: string
  exitCode :: int

definition main ::
    "(string \<Rightarrow> string) \<Rightarrow> ('w, 'cred) SDKs \<Rightarrow> ('w, 'cfg) KubeSDK \<Rightarrow> options \<Rightarrow> ('w, Process) state" where
  "main getenv sdks kube opts = do {
     result \<leftarrow> run_preflight getenv sdks kube opts;
     let out = (case result of Inl err \<Rightarrow> emitError err | Inr out \<Rightarrow> out);
     let errs = (case result of Inl err \<Rightarrow> ''preflight: '' @ err @ [chr 10] | Inr _ \<Rightarrow> []);
     let failed = exitOnRed opts \<and>
       (case unmarshal_flat out of
          None \<Rightarrow> False
        | Some flat \<Rightarrow> (case flat ''verdict'' of None \<Rightarrow> False | Some v \<Rightarrow> v = StatusRed));
     State_Monad.return \<lparr>stdout = out @ [chr 10], stderr = errs, exitCode = (if failed then 1 else 0)\<rparr>
   }"

subsection \<open>What is printed\<close>

definition emitted :: "Report \<Rightarrow> string" where
  "emitted rep = encode (JObj [(''report_json'', JStr (encode (report_json rep))), (''verdict'', JStr (rpVerdict rep))])"

lemma emit_emitted: "emit rep = Inr (emitted rep)"
  by (simp add: emit_def emitted_def Let_def)

lemma emitError_emitted: "emitError err = emitted (error_report err)"
  by (simp add: emitError_def emit_emitted)

lemma report_json_ok: "json_ok (report_json rep)"
proof -
  have "json_ok (result_json r)" for r by (simp add: result_json_def)
  then have "json_ok (slice_json (map result_json rs))" for rs
    by (simp add: slice_json_def list_all_iff)
  then have "json_ok (stage_json s)" for s
    using Sprint_d_number by (simp add: stage_json_def)
  then show ?thesis by (simp add: report_json_def slice_json_def list_all_iff)
qed

lemma valid_ascii_literal: "\<forall>c \<in> set s. byte c < 0x80 \<Longrightarrow> to_valid_utf8 s = s"
  by (simp add: to_valid_utf8_id valid_utf8_ascii)

lemma severity_valid: "s \<in> severities \<Longrightarrow> to_valid_utf8 s = s"
  by (erule severitiesE) (simp_all add: status_defs valid_ascii_literal)

lemma unmarshal_emitted:
  "unmarshal_flat (emitted rep) =
     Some [''report_json'' \<mapsto> encode (report_json rep), ''verdict'' \<mapsto> to_valid_utf8 (rpVerdict rep)]"
proof -
  have "decode (emitted rep) = Some (clean (JObj [(''report_json'', JStr (encode (report_json rep))),
      (''verdict'', JStr (rpVerdict rep))]))"
    unfolding emitted_def by (rule decode_encode) simp
  moreover have "to_valid_utf8 (encode (report_json rep)) = encode (report_json rep)"
    by (rule to_valid_utf8_id) (rule encode_valid [OF report_json_ok])
  ultimately show ?thesis
    by (simp add: unmarshal_flat_def valid_ascii_literal)
qed

text \<open>Whatever a predicate every report of a run satisfies, the printed report satisfies it or is
  the report of an internal error.\<close>

definition modes :: "bool list set" where
  "modes = {replicate 6 False, provisioned_mask}"

lemma run_mode_outcome:
  assumes "\<And>info w. info \<in> modes \<Longrightarrow> Q (fst (run_state (run_report runner info) w))"
  shows "pred_state (on_success Q) (run_mode opts runner)"
proof -
  have "pred_state Q (run_report runner info)" if "info \<in> modes" for info
    by (rule pred_stateI) (use assms [OF that] in \<open>metis fst_conv\<close>)
  then have "pred_state Q (RunWithProvisionedStages runner [StageIdentity, StageKMS, StageSecrets, StageNetwork])"
    "pred_state Q (Run runner)"
    unfolding RunWithProvisionedStages_def Run_def provisioned_mask by (simp_all add: modes_def)
  then show ?thesis
    unfolding run_mode_def
    by (intro outcome_if)
      (rule outcome_bind, assumption, rule outcome_return, simp,
        rule outcome_bind, assumption, rule outcome_return, simp, rule outcome_return, simp)
qed

lemma run_preflight_outcome:
  assumes checks: "\<And>p. pred_state (on_success C) (assemble_checks kube opts p)"
    and reports: "\<And>cs info w. C cs \<Longrightarrow> info \<in> modes \<Longrightarrow> Q (fst (run_state (run_report (NewRunner cs) info) w))"
  shows "pred_state (on_success (\<lambda>out. \<exists>rep. out = emitted rep \<and> Q rep))
    (run_preflight getenv sdks kube opts)"
  unfolding run_preflight_def
proof (rule outcome_bind_success [OF outcome_any_success])
  fix p
  show "pred_state (on_success (\<lambda>out. \<exists>rep. out = emitted rep \<and> Q rep)) (do {
      checks \<leftarrow> assemble_checks kube opts p;
      case checks of Inl err \<Rightarrow> State_Monad.return (Inl err) | Inr cs \<Rightarrow> do {
        report \<leftarrow> run_mode opts (NewRunner cs);
        case report of Inl err \<Rightarrow> State_Monad.return (Inl err) | Inr rep \<Rightarrow> State_Monad.return (emit rep)
      }})"
    by (rule outcome_bind_success [OF checks], rule outcome_bind_success,
        rule run_mode_outcome, rule reports, assumption+, unfold emit_emitted, rule outcome_return) auto
qed

lemma main_outcome:
  assumes checks: "\<And>p. pred_state (on_success C) (assemble_checks kube opts p)"
    and reports: "\<And>cs info w. C cs \<Longrightarrow> info \<in> modes \<Longrightarrow> Q (fst (run_state (run_report (NewRunner cs) info) w))"
    and error: "\<And>err. Q (error_report err)" and severe: "\<And>rep. Q rep \<Longrightarrow> rpVerdict rep \<in> severities"
  shows "\<exists>rep. Q rep \<and> stdout (fst (run_state (main getenv sdks kube opts) w)) = emitted rep @ [chr 10] \<and>
    exitCode (fst (run_state (main getenv sdks kube opts) w)) =
      (if exitOnRed opts \<and> rpVerdict rep = StatusRed then 1 else 0)"
proof -
  obtain r w' where r: "run_state (run_preflight getenv sdks kube opts) w = (r, w')" by fastforce
  have "pred_state (on_success (\<lambda>out. \<exists>rep. out = emitted rep \<and> Q rep)) (run_preflight getenv sdks kube opts)"
    by (rule run_preflight_outcome [of C kube opts Q]) (rule checks, rule reports)
  with r have q: "on_success (\<lambda>out. \<exists>rep. out = emitted rep \<and> Q rep) r" by (blast dest: pred_stateD)
  obtain rep where rep: "Q rep" "(case r of Inl err \<Rightarrow> emitError err | Inr out \<Rightarrow> out) = emitted rep"
    using q error by (cases r) (auto simp: emitError_emitted)
  have "to_valid_utf8 (rpVerdict rep) = rpVerdict rep"
    by (rule severity_valid) (rule severe [OF rep(1)])
  then show ?thesis
    using rep by (intro exI [of _ rep]) (simp add: main_def r Let_def unmarshal_emitted)
qed

lemma run_report_verdict:
  "rpVerdict (fst (run_state (run_report r info) w)) = ComputeVerdict (fst (run_state (run_report r info) w))"
  unfolding run_report_run(1) by (simp add: report_of_def Let_def ComputeVerdict_worst)

lemma error_report_verdict: "rpVerdict (error_report err) = ComputeVerdict (error_report err)"
  by (simp add: error_report_def ComputeVerdict_worst effective_status_def worst_def)

subsection \<open>Helper lemmas of the properties\<close>

definition cluster_covered :: "'w Check list \<Rightarrow> bool" where
  "cluster_covered cs \<longleftrightarrow> (\<exists>checks. (\<exists>k. cs = checks @ K8sChecks k) \<or> cs = checks @ NoKubeconfigK8sChecks)"

lemma cluster_coveredI [simp]:
  "cluster_covered (checks @ K8sChecks k)" "cluster_covered (checks @ NoKubeconfigK8sChecks)"
  by (auto simp: cluster_covered_def)

lemma assemble_default:
  assumes "\<not> skipK8sWhenNoKubeconfig opts"
  shows "pred_state (on_success cluster_covered) (assemble_checks kube opts p)"
  using assms unfolding assemble_checks_def Let_def
  by (intro outcome_if outcome_bind_any outcome_sum outcome_return)
    (auto intro: outcome_return split: prod.split)

lemma assemble_no_kubeconfig:
  assumes "\<not> skipK8sWhenNoKubeconfig opts" and "kubeconfig opts = []"
  shows "pred_state (on_success (\<lambda>cs. \<exists>checks. cs = checks @ NoKubeconfigK8sChecks)) (assemble_checks kube opts p)"
  using assms by (auto simp: assemble_checks_def intro!: outcome_return)

lemma modes_gate_cluster: "info \<in> modes \<Longrightarrow> \<not> info ! 4"
  by (auto simp: modes_def provisioned_mask_def)

lemma splitNonEmpty_filter:
  "splitNonEmpty s = (let ps = filter (\<lambda>p. p \<noteq> []) (map TrimSpace (Split s (CHR '','')))
     in if ps = [] then None else Some ps)"
proof -
  have fold: "foldl (\<lambda>out part.
          let p = TrimSpace part in
          if p \<noteq> [] then (case out of None \<Rightarrow> Some [p] | Some ps \<Rightarrow> Some (ps @ [p])) else out)
        (if acc = [] then None else Some acc) parts =
      (let ps = acc @ filter (\<lambda>p. p \<noteq> []) (map TrimSpace parts) in if ps = [] then None else Some ps)"
    for acc parts
  proof (induction parts arbitrary: acc)
    case (Cons part parts)
    show ?case
      using Cons.IH [of acc] Cons.IH [of "acc @ [TrimSpace part]"]
      by (cases "TrimSpace part = []"; cases "acc = []") (simp_all add: Let_def)
  qed simp
  have "TrimSpace [] = []"
    by (simp add: TrimSpace_def strip_prefixes_printable space_runes_ends)
  then show ?thesis
    using fold [of "[]" "Split s (CHR '','')"] by (simp add: splitNonEmpty_def)
qed

subsection \<open>Properties\<close>

text \<open>Property C1: whatever the options, the environment, the clouds and the cluster do, the command
  prints one line that reads back as an object with exactly the keys \<open>verdict\<close> and
  \<open>report_json\<close>.  The verdict is green, amber or red; \<open>report_json\<close> reads back as a report
  whose own verdict it is and recomputes to it; the exit code is 1 exactly if \<open>exitOnRed\<close> is set
  and the verdict is red, and 0 otherwise.\<close>

theorem main_prints_flat_report:
  "\<exists>rep txt. \<exists>line. stdout (fst (run_state (main getenv sdks kube opts) w)) = line @ [chr 10] \<and>
     unmarshal_flat line = Some [''report_json'' \<mapsto> txt, ''verdict'' \<mapsto> rpVerdict rep] \<and>
     decode txt = Some (clean (report_json rep)) \<and>
     rpVerdict rep = ComputeVerdict rep \<and> rpVerdict rep \<in> {StatusGreen, StatusAmber, StatusRed} \<and>
     exitCode (fst (run_state (main getenv sdks kube opts) w)) =
       (if exitOnRed opts \<and> rpVerdict rep = StatusRed then 1 else 0)"
proof -
  obtain rep where rep: "rpVerdict rep = ComputeVerdict rep"
    "stdout (fst (run_state (main getenv sdks kube opts) w)) = emitted rep @ [chr 10]"
    "exitCode (fst (run_state (main getenv sdks kube opts) w)) =
      (if exitOnRed opts \<and> rpVerdict rep = StatusRed then 1 else 0)"
  proof -
    have "\<exists>rep. rpVerdict rep = ComputeVerdict rep \<and>
        stdout (fst (run_state (main getenv sdks kube opts) w)) = emitted rep @ [chr 10] \<and>
        exitCode (fst (run_state (main getenv sdks kube opts) w)) =
          (if exitOnRed opts \<and> rpVerdict rep = StatusRed then 1 else 0)"
      by (rule main_outcome [where C = "\<lambda>_. True"])
        (rule outcome_any_success run_report_verdict error_report_verdict | simp)+
    then show ?thesis using that by blast
  qed
  have sev: "rpVerdict rep \<in> severities" using rep(1) by simp
  moreover have "unmarshal_flat (emitted rep) =
      Some [''report_json'' \<mapsto> encode (report_json rep), ''verdict'' \<mapsto> rpVerdict rep]"
    using sev by (simp add: unmarshal_emitted severity_valid)
  ultimately show ?thesis
    using rep decode_encode [OF report_json_ok, of rep] unfolding severities_def by blast
qed

text \<open>On the command line, where the test-only switch is off, the printed verdict is
  never green: with a cluster the workload stage is at best amber, and without one, or after an
  internal failure, the verdict is red.\<close>

lemma command_line_never_green:
  "\<not> skipK8sWhenNoKubeconfig opts \<Longrightarrow>
   \<exists>line flat. stdout (fst (run_state (main getenv sdks kube opts) w)) = line @ [chr 10] \<and>
     unmarshal_flat line = Some flat \<and> flat ''verdict'' \<in> {Some StatusAmber, Some StatusRed}"
proof -
  assume noskip: "\<not> skipK8sWhenNoKubeconfig opts"
  let ?Q = "\<lambda>rep. rpVerdict rep \<in> {StatusAmber, StatusRed}"
  have reports: "?Q (fst (run_state (run_report (NewRunner cs) info) v))"
    if "cluster_covered cs" "info \<in> modes" for cs info and v :: 'a
  proof -
    have "rpVerdict (fst (run_state (run_report (NewRunner cs) info) v)) \<noteq> StatusGreen"
    proof -
      from that(1) consider checks k where "cs = checks @ K8sChecks k"
        | checks where "cs = checks @ NoKubeconfigK8sChecks" by (auto simp: cluster_covered_def)
      then show ?thesis
        by cases (simp_all add: cluster_run_never_green no_kubeconfig_run_red modes_gate_cluster [OF that(2)])
    qed
    moreover have "rpVerdict (fst (run_state (run_report (NewRunner cs) info) v)) \<in> severities"
      by (simp add: run_report_verdict)
    ultimately show ?thesis by (auto simp: severities_def)
  qed
  have "\<exists>rep. ?Q rep \<and> stdout (fst (run_state (main getenv sdks kube opts) w)) = emitted rep @ [chr 10] \<and>
      exitCode (fst (run_state (main getenv sdks kube opts) w)) =
        (if exitOnRed opts \<and> rpVerdict rep = StatusRed then 1 else 0)"
    by (rule main_outcome [where C = cluster_covered and Q = ?Q])
      (rule assemble_default [OF noskip], rule reports, assumption+, auto simp: error_report_def)
  then obtain rep where rep: "?Q rep"
    "stdout (fst (run_state (main getenv sdks kube opts) w)) = emitted rep @ [chr 10]" by blast
  then have "to_valid_utf8 (rpVerdict rep) = rpVerdict rep" by (intro severity_valid) auto
  then show ?thesis using rep by (auto simp: unmarshal_emitted)
qed

text \<open>Property C23: without a kubeconfig the command line always prints a red verdict, in both modes:
  a missing deploy target is never waved through, not even when every cloud stage is
  informational.\<close>

theorem no_kubeconfig_always_red:
  "\<not> skipK8sWhenNoKubeconfig opts \<Longrightarrow> kubeconfig opts = [] \<Longrightarrow>
   \<exists>line flat. stdout (fst (run_state (main getenv sdks kube opts) w)) = line @ [chr 10] \<and>
     unmarshal_flat line = Some flat \<and> flat ''verdict'' = Some StatusRed"
proof -
  assume asm: "\<not> skipK8sWhenNoKubeconfig opts" "kubeconfig opts = []"
  let ?Q = "\<lambda>rep. rpVerdict rep = StatusRed"
  have reports: "?Q (fst (run_state (run_report (NewRunner cs) info) v))"
    if "\<exists>checks. cs = checks @ NoKubeconfigK8sChecks" "info \<in> modes" for cs info and v :: 'a
    using that no_kubeconfig_run_red [OF modes_gate_cluster [OF that(2)]] by auto
  have "\<exists>rep. ?Q rep \<and> stdout (fst (run_state (main getenv sdks kube opts) w)) = emitted rep @ [chr 10] \<and>
      exitCode (fst (run_state (main getenv sdks kube opts) w)) =
        (if exitOnRed opts \<and> rpVerdict rep = StatusRed then 1 else 0)"
    by (rule main_outcome [where C = "\<lambda>cs. \<exists>checks. cs = checks @ NoKubeconfigK8sChecks" and Q = ?Q])
      (rule assemble_no_kubeconfig [OF asm], rule reports, assumption+, auto simp: error_report_def)
  then obtain rep where rep: "?Q rep"
    "stdout (fst (run_state (main getenv sdks kube opts) w)) = emitted rep @ [chr 10]" by blast
  moreover have "to_valid_utf8 StatusRed = StatusRed" by (rule severity_valid) simp
  ultimately show ?thesis by (auto simp: unmarshal_emitted)
qed

text \<open>A comma-separated variable becomes the list of its trimmed non-empty entries, and
  a variable with no such entry becomes the nil slice, never an empty one.  So the environment
  cannot ask for no provisioned concern at all: an empty list of concerns means all four.\<close>

lemma env_lists_are_nil_or_nonempty:
  "splitNonEmpty s = (let ps = filter (\<lambda>p. p \<noteq> []) (map TrimSpace (Split s (CHR '',''))) in
     if ps = [] then None else Some ps) \<and>
   awProvisionConcerns (aws_env_options getenv) \<noteq> Some [] \<and>
   (filter (\<lambda>p. p \<noteq> []) (map TrimSpace (Split (getenv ''PREFLIGHT_AWS_PROVISION_CONCERNS'') (CHR '','')))  = []
     \<longleftrightarrow> awProvisionConcerns (aws_env_options getenv) = None)"
  by (simp add: splitNonEmpty_filter Let_def aws_env_options_def)

text \<open>Property C30: whichever provider \<open>selectProvider\<close> returns, a cloud stage the report shows red
  holds a red result with a remediation, whatever checks of the later stages follow, whichever
  stages are informational and whatever the cloud answers.\<close>

theorem red_cloud_stage_tells_what_to_do:
  assumes "fst (run_state (selectProvider getenv sdks name) v) = Inr p"
    and "i < 4" and "list_all (\<lambda>c. ckStage c \<ge> 4) later"
    and "stStatus (rpStages (fst (run_state (run_report (NewRunner (CloudChecks p @ later)) info) w)) ! i) = StatusRed"
  shows "\<exists>c \<in> set (stResults (rpStages (fst (run_state
      (run_report (NewRunner (CloudChecks p @ later)) info) w)) ! i)). crStatus c = StatusRed \<and> crRemediation c \<noteq> []"
proof -
  have later: "\<forall>c \<in> set later. ckStage c \<ge> 4" using assms(3) by (simp add: list_all_iff)
  let ?Q = "\<lambda>p. p = fake_provider zero_fake \<or> (\<exists>a. p = aws_provider a) \<or> (\<exists>g. p = gcp_provider g) \<or> (\<exists>z. p = azure_provider z)"
  have "pred_state (on_success ?Q) (selectProvider getenv sdks name)"
    unfolding selectProvider_def
  proof (intro outcome_if outcome_bind_any outcome_return)
    show "on_success ?Q (map_sum id aws_provider x)" for x by (cases x) auto
    show "on_success ?Q (map_sum id gcp_provider x)" for x by (cases x) auto
    show "on_success ?Q (map_sum id azure_provider x)" for x by (cases x) auto
  qed simp_all
  then have "on_success ?Q (fst (run_state (selectProvider getenv sdks name) v))" by (rule outcome_run)
  with assms(1) have "?Q p" by simp
  then show ?thesis
    using fake.red_cloud_stage_has_remediation [OF assms(2) later, of info w]
      aws.red_cloud_stage_has_remediation [OF assms(2) later, of _ info w]
      gcp.red_cloud_stage_has_remediation [OF assms(2) later, of _ info w]
      azure.red_cloud_stage_has_remediation [OF assms(2) later, of _ info w] assms(4)
    by metis
qed

text \<open>SDKs for the witnesses: AWS answers with fixed clients, the other clouds are unreachable.\<close>

definition demo_sdks :: "(nat, unit) SDKs" where
  "demo_sdks =
     \<lparr>LoadDefaultConfig = (\<lambda>_. State_Monad.return (Inr (fixed_clients (\<lambda>_. Inl ''denied'')))),
      GoogleSDK = \<lparr>FindDefaultCredentials = State_Monad.return (Inl ''offline''),
        NewKeyManagementClient = (\<lambda>_. State_Monad.return (Inl ''offline'')),
        NewSecretManagerClient = (\<lambda>_. State_Monad.return (Inl ''offline'')),
        NewNetworksRESTClient = (\<lambda>_. State_Monad.return (Inl ''offline'')),
        NewRoutersRESTClient = (\<lambda>_. State_Monad.return (Inl ''offline'')),
        NewResourceManager = (\<lambda>_. State_Monad.return (Inl ''offline''))\<rparr>,
      AzureSDKs = \<lparr>NewDefaultAzureCredential = State_Monad.return (Inl ''offline''),
        NewKeysClient = (\<lambda>_ _. Inl ''offline''), NewSecretsClient = (\<lambda>_ _. Inl ''offline''),
        NewRoleAssignmentsClient = (\<lambda>_ _. Inl ''offline''),
        NewVirtualNetworksClient = (\<lambda>_ _. Inl ''offline'')\<rparr>\<rparr>"

definition demo_kube :: "(nat, unit) KubeSDK" where
  "demo_kube =
     \<lparr>BuildConfigFromFlags = (\<lambda>_. State_Monad.return (Inl ''no such file'')),
      KubernetesNewForConfig = (\<lambda>_. Inl ''no config''), ApiextNewForConfig = (\<lambda>_. Inl ''no config''),
      ScanError = (\<lambda>_. ''expected integer'')\<rparr>"

definition demo_options :: "string \<Rightarrow> options" where
  "demo_options path = \<lparr>kubeconfig = path, namespace = ''default'', mode = ''full'', cloud = [],
     exitOnRed = True, skipK8sWhenNoKubeconfig = False\<rparr>"

theorem red_cloud_stage_witness:
  "\<exists>c \<in> set (stResults (rpStages (fst (run_state (run_report (NewRunner (CloudChecks
      (aws_provider \<lparr>awOptions = aws_env_options (\<lambda>_. []), awClients = fixed_clients (\<lambda>_. Inl ''denied'')\<rparr>) @ []))
      (replicate 6 False)) 0)) ! 0)). crStatus c = StatusRed \<and> crRemediation c \<noteq> []"
proof (rule red_cloud_stage_tells_what_to_do [where getenv = "\<lambda>_. []" and sdks = demo_sdks and name = "''aws''" and v = 0])
  let ?p = "\<lparr>awOptions = aws_env_options (\<lambda>_. []), awClients = fixed_clients (\<lambda>_. Inl ''denied'')\<rparr>"
  show "fst (run_state (selectProvider (\<lambda>_. []) demo_sdks ''aws'') 0) = Inr (aws_provider ?p)"
    by (simp add: selectProvider_def demo_sdks_def aws_New_def aws_env_options_def)
  have "requiredDeployActions (awOptions ?p) \<noteq> []"
    by (simp add: aws_env_options_def splitNonEmpty_def requiredDeployActions_def provisionConcerns_def
        concernOrder_def deployActionByConcern_def)
  moreover have "awDeployPrincipalARN (awOptions ?p) = []" by (simp add: aws_env_options_def)
  ultimately have "run_state (aws_CheckIdentityPermissions ?p) 0 = (aws_unresolved_caller ''<nil>'', 0)"
    by (simp add: aws_CheckIdentityPermissions_def Let_def fixed_clients_def)
  then show "stStatus (rpStages (fst (run_state (run_report (NewRunner (CloudChecks (aws_provider ?p) @ []))
      (replicate 6 False)) 0)) ! 0) = StatusRed"
    using outcome_source [of 0 "replicate 6 False" "NewRunner (CloudChecks (aws_provider ?p) @ [])" 0]
    by (simp add: run_report_run run_outcomes_def upt6 stage_inputs_def NewRunner_bucket CloudChecks_def
        providerCheck_def stage_id_defs aws_provider_def aws_unresolved_caller_def Let_def split: prod.split)
qed simp_all

theorem command_line_never_green_witness:
  "\<exists>line flat. stdout (fst (run_state (main (\<lambda>_. []) demo_sdks demo_kube (demo_options ''/etc/kube'')) 0)) = line @ [chr 10] \<and>
     unmarshal_flat line = Some flat \<and> flat ''verdict'' \<in> {Some StatusAmber, Some StatusRed}"
  by (rule command_line_never_green) (simp add: demo_options_def)

theorem no_kubeconfig_always_red_witness:
  "\<exists>line flat. stdout (fst (run_state (main (\<lambda>_. []) demo_sdks demo_kube (demo_options [])) 0)) = line @ [chr 10] \<and>
     unmarshal_flat line = Some flat \<and> flat ''verdict'' = Some StatusRed"
  by (rule no_kubeconfig_always_red) (simp_all add: demo_options_def)

text \<open>A mode other than \<open>full\<close> and \<open>agnostic\<close> is rejected without running a check: the
  command fails with a message that quotes the mode, and the world is the one left by building
  the provider and the clients.  When no client has to be built it is the world before the run.\<close>

lemma unknown_mode_runs_nothing:
  assumes "mode opts \<noteq> ''full''" and "mode opts \<noteq> ''agnostic''"
    and "cloud opts = []" and "kubeconfig opts = []"
  shows "run_state (run_preflight getenv sdks kube opts) w =
    (Inl (''unknown --mode '' @ Quote (mode opts) @ '' (want agnostic|full)''), w)"
  using assms by (simp add: run_preflight_def selectProvider_def assemble_checks_def run_mode_def Let_def)

theorem unknown_mode_witness:
  "run_state (run_preflight (\<lambda>_. []) demo_sdks demo_kube ((demo_options [])\<lparr>mode := ''ful''\<rparr>)) 7 =
    (Inl (''unknown --mode '' @ Quote ''ful'' @ '' (want agnostic|full)''), 7)"
  by (subst unknown_mode_runs_nothing) (simp_all add: demo_options_def)

end
