(* ===== verification/Go_Flag.thy ===== *)
theory Go_Flag
  imports Go_Strings "HOL-Library.AList"
begin

text \<open>
  Go's package \<open>flag\<close>, as far as the two commands use it: the flag set of the process holds string
  and boolean flags, and \<open>flag.Parse\<close> takes them off the front of the arguments.  A flag set maps
  each name to the value its variable has; the kind of the value is the kind of the flag.  The process
  exits with code 0 if help is asked for and with code 2 if the arguments are wrong.
\<close>

datatype flag_value = StringVar string | BoolVar bool

type_synonym flag_set = "(string \<times> flag_value) list"

datatype flag_error = ErrHelp | FlagError go_error

text \<open>\<open>strconv.ParseBool\<close>\<close>

definition ParseBool :: "string \<Rightarrow> bool option" where
  "ParseBool s =
    (if s \<in> {''1'', ''t'', ''T'', ''TRUE'', ''true'', ''True''} then Some True
     else if s \<in> {''0'', ''f'', ''F'', ''FALSE'', ''false'', ''False''} then Some False
     else None)"

text \<open>The name and the value around the first equals sign; a name does not start with one.\<close>

definition cut_value :: "string \<Rightarrow> string \<times> string option" where
  "cut_value s = (let
     key = take 1 s @ takeWhile (\<lambda>c. c \<noteq> CHR ''='') (drop 1 s);
     rest = dropWhile (\<lambda>c. c \<noteq> CHR ''='') (drop 1 s)
   in (key, case rest of [] \<Rightarrow> None | _ # v \<Rightarrow> Some v))"

text \<open>
  \<open>parseOne\<close> takes one flag off the arguments and says whether there was one: parsing stops at the first
  argument that is no flag, or behind \<open>--\<close>.
\<close>

definition parse_named :: "flag_set \<Rightarrow> string \<Rightarrow> string option \<Rightarrow> string list
    \<Rightarrow> flag_error + bool \<times> flag_set \<times> string list" where
  "parse_named fs key val args =
    (case map_of fs key of
       None \<Rightarrow> Inl (if key = ''help'' \<or> key = ''h'' then ErrHelp
         else FlagError (''flag provided but not defined: -'' @ key))
     | Some (BoolVar _) \<Rightarrow> (let v = (case val of None \<Rightarrow> ''true'' | Some v \<Rightarrow> v) in
         case ParseBool v of
           None \<Rightarrow> Inl (FlagError (''invalid boolean value '' @ Quote v @ '' for -'' @ key @ '': parse error''))
         | Some b \<Rightarrow> Inr (True, AList.update key (BoolVar b) fs, args))
     | Some (StringVar _) \<Rightarrow>
         (case val of
            Some v \<Rightarrow> Inr (True, AList.update key (StringVar v) fs, args)
          | None \<Rightarrow> (case args of
              [] \<Rightarrow> Inl (FlagError (''flag needs an argument: -'' @ key))
            | v # args \<Rightarrow> Inr (True, AList.update key (StringVar v) fs, args))))"

fun parseOne :: "flag_set \<Rightarrow> string list \<Rightarrow> flag_error + bool \<times> flag_set \<times> string list" where
  "parseOne fs [] = Inr (False, fs, [])"
| "parseOne fs (s # args) =
    (if length s < 2 \<or> hd s \<noteq> CHR ''-'' then Inr (False, fs, s # args)
     else if s = ''--'' then Inr (False, fs, args)
     else let name = drop (if s ! 1 = CHR ''-'' then 2 else 1) s in
       if name = [] \<or> hd name = CHR ''-'' \<or> hd name = CHR ''=''
       then Inl (FlagError (''bad flag syntax: '' @ s))
       else parse_named fs (fst (cut_value name)) (snd (cut_value name)) args)"

lemma parse_named_shorter:
  "parse_named fs key val args = Inr (seen, fs', rest) \<Longrightarrow> length rest \<le> length args"
  by (auto simp: parse_named_def Let_def split: option.splits flag_value.splits list.splits)

lemma parseOne_shorter:
  "parseOne fs args = Inr (True, fs', rest) \<Longrightarrow> length rest < length args"
  by (cases args) (auto simp: Let_def less_Suc_eq_le split: if_splits dest: parse_named_shorter)

text \<open>The loop of \<open>Parse\<close>, with the arguments left over.\<close>

function Parse :: "flag_set \<Rightarrow> string list \<Rightarrow> flag_error + flag_set \<times> string list" where
  "Parse fs args =
    (case parseOne fs args of
       Inl err \<Rightarrow> Inl err
     | Inr (seen, fs, args) \<Rightarrow> if seen then Parse fs args else Inr (fs, args))"
  by pat_completeness auto

termination
  by (relation "measure (\<lambda>(fs, args). length args)") (auto dest: parseOne_shorter)

declare Parse.simps [simp del]

definition string_flag :: "flag_set \<Rightarrow> string \<Rightarrow> string" where
  "string_flag fs name = (case map_of fs name of Some (StringVar s) \<Rightarrow> s | _ \<Rightarrow> [])"

definition bool_flag :: "flag_set \<Rightarrow> string \<Rightarrow> bool" where
  "bool_flag fs name = (case map_of fs name of Some (BoolVar b) \<Rightarrow> b | _ \<Rightarrow> False)"

text \<open>The exit code of a process whose arguments are refused.\<close>

definition flag_exit :: "flag_error \<Rightarrow> int" where
  "flag_exit err = (case err of ErrHelp \<Rightarrow> 0 | FlagError _ \<Rightarrow> 2)"

subsection \<open>One argument\<close>

named_theorems flag_simps \<open>parsing one argument\<close>

definition flag_name :: "string \<Rightarrow> bool" where
  "flag_name key \<longleftrightarrow> key \<noteq> [] \<and> hd key \<noteq> CHR ''-'' \<and> CHR ''='' \<notin> set key"

lemma cut_value_plain: "CHR ''='' \<notin> set key \<Longrightarrow> cut_value key = (key, None)"
proof (cases key)
  case (Cons c cs)
  assume "CHR ''='' \<notin> set key"
  with Cons have "\<forall>x \<in> set cs. x \<noteq> CHR ''=''" by auto
  then have "takeWhile (\<lambda>c. c \<noteq> CHR ''='') cs = cs" "dropWhile (\<lambda>c. c \<noteq> CHR ''='') cs = []"
    by simp_all
  with Cons show ?thesis by (simp add: cut_value_def del: dropWhile_eq_Nil_conv)
qed (simp add: cut_value_def)

lemma cut_value_eq:
  assumes "CHR ''='' \<notin> set key" and "key \<noteq> []"
  shows "cut_value (key @ CHR ''='' # v) = (key, Some v)"
proof (cases key)
  case (Cons c cs)
  with assms(1) have "\<forall>x \<in> set cs. x \<noteq> CHR ''=''" by auto
  then have "takeWhile (\<lambda>c. c \<noteq> CHR ''='') (cs @ CHR ''='' # v) = cs"
    and "dropWhile (\<lambda>c. c \<noteq> CHR ''='') (cs @ CHR ''='' # v) = CHR ''='' # v"
    by (simp_all add: takeWhile_append dropWhile_append)
  with Cons show ?thesis by (simp add: cut_value_def)
qed (use assms in simp)

lemma flag_argument:
  assumes "flag_name key"
  shows "length (''--'' @ key @ rest) \<ge> 2" "hd (''--'' @ key @ rest) = CHR ''-''"
    "''--'' @ key @ rest \<noteq> ''--''" "(''--'' @ key @ rest) ! 1 = CHR ''-''"
    "drop 2 (''--'' @ key @ rest) = key @ rest" "key @ rest \<noteq> []"
    "hd (key @ rest) \<noteq> CHR ''-''" "hd (key @ rest) \<noteq> CHR ''=''"
  using assms by (cases key; auto simp: flag_name_def)+

lemma Parse_string_eq [flag_simps]:
  assumes "flag_name key" and "map_of fs key = Some (StringVar d)"
  shows "Parse fs ((''--'' @ key @ CHR ''='' # v) # args) = Parse (AList.update key (StringVar v) fs) args"
  using assms flag_argument [OF assms(1), of "CHR ''='' # v"] cut_value_eq [of key v]
  by (subst Parse.simps) (simp add: flag_name_def parse_named_def)

lemma Parse_string_next [flag_simps]:
  assumes "flag_name key" and "map_of fs key = Some (StringVar d)"
  shows "Parse fs ((''--'' @ key) # v # args) = Parse (AList.update key (StringVar v) fs) args"
  using assms flag_argument [OF assms(1), of "[]"] cut_value_plain [of key]
  by (subst Parse.simps) (simp add: flag_name_def parse_named_def)

lemma Parse_bool [flag_simps]:
  assumes "flag_name key" and "map_of fs key = Some (BoolVar d)"
  shows "Parse fs ((''--'' @ key) # args) = Parse (AList.update key (BoolVar True) fs) args"
  using assms flag_argument [OF assms(1), of "[]"] cut_value_plain [of key]
  by (subst Parse.simps) (simp add: flag_name_def parse_named_def ParseBool_def)

subsection \<open>Parsing keeps the flags\<close>

definition same_flags :: "flag_set \<Rightarrow> flag_set \<Rightarrow> bool" where
  "same_flags fs fs' \<longleftrightarrow> (\<forall>key. (case (map_of fs key, map_of fs' key) of
     (None, None) \<Rightarrow> True
   | (Some (StringVar _), Some (StringVar _)) \<Rightarrow> True
   | (Some (BoolVar _), Some (BoolVar _)) \<Rightarrow> True
   | _ \<Rightarrow> False))"

lemma same_flags_refl [simp]: "same_flags fs fs"
  by (auto simp: same_flags_def split: option.split flag_value.split)

lemma same_flags_updated:
  "map_of fs key = Some (StringVar d) \<Longrightarrow> same_flags fs (AList.update key (StringVar v) fs)"
  "map_of fs key = Some (BoolVar c) \<Longrightarrow> same_flags fs (AList.update key (BoolVar b) fs)"
  unfolding same_flags_def update_conv'
  by (intro allI; simp split: option.split flag_value.split)+

lemma parseOne_same_flags: "parseOne fs args = Inr (seen, fs', rest) \<Longrightarrow> same_flags fs fs'"
proof (cases args)
  case (Cons s args')
  have "same_flags fs fs'" if "parse_named fs key val args' = Inr (seen, fs', rest)" for key val
    using that by (auto simp: parse_named_def Let_def same_flags_updated
        split: option.splits flag_value.splits list.splits)
  moreover assume "parseOne fs args = Inr (seen, fs', rest)"
  ultimately show ?thesis using Cons by (auto simp: Let_def split: if_splits)
qed simp

lemma same_flags_trans: "same_flags fs fs' \<Longrightarrow> same_flags fs' fs'' \<Longrightarrow> same_flags fs fs''"
  unfolding same_flags_def
  by (intro allI, (drule_tac x = key in spec)+)
    (auto split: option.splits flag_value.splits)

lemma Parse_same_flags: "Parse fs args = Inr (fs', rest) \<Longrightarrow> same_flags fs fs'"
proof (induction fs args rule: Parse.induct)
  case (1 fs args)
  obtain r where r: "parseOne fs args = r" by blast
  show ?case
  proof (cases r)
    case (Inl err)
    with 1(2) r show ?thesis by (simp add: Parse.simps [of fs args])
  next
    case (Inr p)
    obtain seen fs1 args1 where p: "p = (seen, fs1, args1)" by (cases p)
    with Inr r have "same_flags fs fs1" by (blast intro: parseOne_same_flags)
    moreover have "same_flags fs1 fs'" using 1 r Inr p
      by (cases seen) (simp_all add: Parse.simps [of fs args])
    ultimately show ?thesis by (rule same_flags_trans)
  qed
qed

end
