(* ===== verification/Preflight_Gate.thy ===== *)
theory Preflight_Gate
  imports Preflight_Main Go_Flag
begin

text \<open>
  The preflight command from its arguments to the decision of Terraform: the flags of
  \<open>operator/cmd/preflight/main.go\<close>, and the module \<open>modules/preflight/main.tf\<close>, which builds those
  arguments, runs the command through the \<open>external\<close> data source, blocks on a red verdict and derives
  the install tier from the report.  The provider behind the data source is a parameter with a contract;
  of Terraform's language it is documented that \<open>for\<close> over a null value is an error.
\<close>

subsection \<open>The command line\<close>

definition preflight_flags :: flag_set where
  "preflight_flags =
    [(''kubeconfig'', StringVar []), (''namespace'', StringVar ''default''),
     (''mode'', StringVar ''agnostic''), (''cloud'', StringVar []), (''exit-on-red'', BoolVar False)]"

definition flag_options :: "flag_set \<Rightarrow> options" where
  "flag_options fs =
    \<lparr>kubeconfig = string_flag fs ''kubeconfig'', namespace = string_flag fs ''namespace'',
     mode = string_flag fs ''mode'', cloud = string_flag fs ''cloud'',
     exitOnRed = bool_flag fs ''exit-on-red'', skipK8sWhenNoKubeconfig = False\<rparr>"

text \<open>Refused arguments end the process before \<open>run\<close>; \<open>usage\<close> is what \<open>flag\<close> prints then.\<close>

definition preflight_command ::
    "(string \<Rightarrow> string) \<Rightarrow> ('w, 'cred) SDKs \<Rightarrow> ('w, 'cfg) KubeSDK \<Rightarrow> (flag_error \<Rightarrow> string)
     \<Rightarrow> string list \<Rightarrow> ('w, Process) state" where
  "preflight_command getenv sdks kube usage args =
    (case Parse preflight_flags args of
       Inl err \<Rightarrow> State_Monad.return \<lparr>stdout = [], stderr = usage err, exitCode = flag_exit err\<rparr>
     | Inr (fs, _) \<Rightarrow> main getenv sdks kube (flag_options fs))"

subsection \<open>The Terraform module\<close>

record preflight_vars =
  var_mode :: string
  var_kubeconfig_path :: string
  var_namespace :: string
  var_cloud :: string
  var_fail_on_red :: bool
  var_install_tier_override :: string

text \<open>The arguments after the binary.\<close>

definition preflight_args :: "preflight_vars \<Rightarrow> string list" where
  "preflight_args v =
    [''--mode='' @ var_mode v, ''--kubeconfig'', var_kubeconfig_path v,
     ''--namespace'', var_namespace v] @
    (if var_cloud v \<noteq> [] then [''--cloud='' @ var_cloud v] else [])"

text \<open>The \<open>validation\<close> blocks of the variables.\<close>

definition preflight_vars_valid :: "preflight_vars \<Rightarrow> bool" where
  "preflight_vars_valid v \<longleftrightarrow> var_install_tier_override v \<in> {''A'', ''B'', []} \<and>
     var_mode v \<in> {''agnostic'', ''full''} \<and> var_cloud v \<in> {[], ''aws'', ''gcp'', ''azure''}"

text \<open>
  The data source \<open>external\<close> of the provider hashicorp/external is a parameter: a function of the program, as
  the process it runs for a list of arguments, and of the arguments it is given.  \<open>external_contract\<close> is what the
  provider does: it runs the program once, without the arguments that are empty strings; an exit code
  other than 0, or output that is no flat object of strings, is an error; else the object is the result.
\<close>

type_synonym 'w external_source =
  "(string list \<Rightarrow> ('w, Process) state) \<Rightarrow> string list \<Rightarrow> ('w, (string \<rightharpoonup> string) go) state"

definition nonempty_args :: "string list \<Rightarrow> string list" where
  "nonempty_args args = filter (\<lambda>a. a \<noteq> []) args"

definition external_contract :: "'w external_source \<Rightarrow> bool" where
  "external_contract ext \<longleftrightarrow> (\<forall>run args w.
     case (run_state (run (nonempty_args args)) w, run_state (ext run args) w) of ((p, w'), (data, w'')) \<Rightarrow>
       w'' = w' \<and>
       (case (if exitCode p = 0 then unmarshal_flat (stdout p) else None) of
          None \<Rightarrow> \<exists>err. data = Inl err
        | Some m \<Rightarrow> data = Inr m))"

definition attribute :: "string \<Rightarrow> json \<Rightarrow> json option" where
  "attribute k j = (case j of JObj ms \<Rightarrow> map_of ms k | _ \<Rightarrow> None)"

text \<open>\<open>[for x in xs : x if x.k == y]\<close>\<close>

definition for_where :: "json option \<Rightarrow> string \<Rightarrow> json \<Rightarrow> json list go" where
  "for_where xs k y =
    (case xs of
       Some (JArr vs) \<Rightarrow> Inr (filter (\<lambda>v. attribute k v = Some y) vs)
     | Some JNull \<Rightarrow> Inl ''Iteration over null value''
     | _ \<Rightarrow> Inl ''Unsupported attribute'')"

definition tier_of_status :: "json option \<Rightarrow> string" where
  "tier_of_status status =
    (if status = Some (JStr ''green'') then ''A''
     else if status = Some (JStr ''amber'') then ''B''
     else if status = Some (JStr ''red'') then ''RED'' else ''B'')"

definition derived_install_tier :: "json \<Rightarrow> string go" where
  "derived_install_tier report =
    (case for_where (attribute ''stages'' report) ''id'' (JNum ''4'') of
       Inl err \<Rightarrow> Inl err
     | Inr stage4_list \<Rightarrow>
         (case (case stage4_list of [] \<Rightarrow> Inr []
              | s # _ \<Rightarrow> for_where (attribute ''results'' s) ''id'' (JStr ''k8s.installtier'')) of
            Inl err \<Rightarrow> Inl err
          | Inr installtier_list \<Rightarrow>
              Inr (tier_of_status (case installtier_list of [] \<Rightarrow> None | r # _ \<Rightarrow> attribute ''status'' r))))"

text \<open>The outputs \<open>verdict\<close> and \<open>install_tier\<close> for the result of the data source; every local is evaluated, used or not.\<close>

definition gate_outputs :: "preflight_vars \<Rightarrow> (string \<rightharpoonup> string) \<Rightarrow> (string \<times> string) go" where
  "gate_outputs v m =
    (case (m ''verdict'', m ''report_json'') of
       (Some verdict, Some txt) \<Rightarrow>
         if var_fail_on_red v \<and> verdict = ''red'' then Inl ''Preflight verdict is RED''
         else (case decode txt of
             None \<Rightarrow> Inl ''Error in function call''
           | Some report \<Rightarrow>
               (case derived_install_tier report of
                  Inl err \<Rightarrow> Inl err
                | Inr derived \<Rightarrow> Inr (verdict,
                    if var_install_tier_override v \<noteq> [] then var_install_tier_override v else derived)))
     | _ \<Rightarrow> Inl ''Unsupported attribute'')"

text \<open>The module, where \<open>run\<close> is the binary; variables that are not valid fail the plan before anything runs.\<close>

definition preflight_module ::
    "'w external_source \<Rightarrow> (string list \<Rightarrow> ('w, Process) state) \<Rightarrow> preflight_vars \<Rightarrow> ('w, (string \<times> string) go) state" where
  "preflight_module ext run v =
    (if \<not> preflight_vars_valid v then State_Monad.return (Inl ''Invalid value for variable'')
     else do {
       data \<leftarrow> ext run (preflight_args v);
       State_Monad.return (case data of Inl err \<Rightarrow> Inl err | Inr m \<Rightarrow> gate_outputs v m)
     })"

text \<open>A source that keeps the contract.\<close>

definition run_external :: "'w external_source" where
  "run_external run args = do {
     p \<leftarrow> run (nonempty_args args);
     State_Monad.return
       (case (if exitCode p = 0 then unmarshal_flat (stdout p) else None) of
          None \<Rightarrow> Inl ''External Program Execution Failed''
        | Some m \<Rightarrow> Inr m)
   }"

lemma run_external_contract: "external_contract run_external"
  by (simp add: external_contract_def run_external_def split: prod.split option.split)

lemma module_result:
  assumes "external_contract ext" and "preflight_vars_valid v"
    and "p = fst (run_state (run (nonempty_args (preflight_args v))) w)"
  shows "snd (run_state (preflight_module ext run v) w) = snd (run_state (run (nonempty_args (preflight_args v))) w)"
    and "exitCode p = 0 \<Longrightarrow> unmarshal_flat (stdout p) = Some m \<Longrightarrow>
      fst (run_state (preflight_module ext run v) w) = gate_outputs v m"
    and "exitCode p \<noteq> 0 \<or> unmarshal_flat (stdout p) = None \<Longrightarrow>
      \<exists>err. fst (run_state (preflight_module ext run v) w) = Inl err"
proof -
  from assms(1) have contract: "case (run_state (run (nonempty_args (preflight_args v))) w, run_state (ext run (preflight_args v)) w) of
      ((p, w'), (data, w'')) \<Rightarrow> w'' = w' \<and>
       (case (if exitCode p = 0 then unmarshal_flat (stdout p) else None) of
          None \<Rightarrow> \<exists>err. data = Inl err | Some m \<Rightarrow> data = Inr m)"
    unfolding external_contract_def
    by (elim allE [of _ run] allE [of _ "preflight_args v"] allE [of _ w])
  from contract assms(2) show "snd (run_state (preflight_module ext run v) w) =
      snd (run_state (run (nonempty_args (preflight_args v))) w)"
    by (simp add: preflight_module_def split: prod.splits)
  show "fst (run_state (preflight_module ext run v) w) = gate_outputs v m"
    if "exitCode p = 0" "unmarshal_flat (stdout p) = Some m"
    using contract assms(2,3) that by (simp add: preflight_module_def split: prod.splits)
  show "\<exists>err. fst (run_state (preflight_module ext run v) w) = Inl err"
    if "exitCode p \<noteq> 0 \<or> unmarshal_flat (stdout p) = None"
    using contract assms(2,3) that by (auto simp: preflight_module_def split: prod.splits if_splits)
qed

subsection \<open>The report behind the JSON\<close>

text \<open>What the module reads off the report itself.\<close>

definition tier_letter :: "Status \<Rightarrow> string" where
  "tier_letter s = (if s = StatusGreen then ''A'' else if s = StatusAmber then ''B''
     else if s = StatusRed then ''RED'' else ''B'')"

definition report_tier :: "Report \<Rightarrow> string go" where
  "report_tier rep =
    (case find (\<lambda>s. stID s = StageKubernetes) (rpStages rep) of
       None \<Rightarrow> if rpStages rep = [] then Inl ''Iteration over null value'' else Inr ''B''
     | Some s \<Rightarrow>
         if stResults s = [] then Inl ''Iteration over null value''
         else Inr (case find (\<lambda>r. crID r = ''k8s.installtier'') (stResults s) of
             None \<Rightarrow> ''B'' | Some r \<Rightarrow> tier_letter (crStatus r)))"

text \<open>Cleaning leaves text that is ASCII afterwards as it was.\<close>

lemma to_valid_ascii:
  assumes "\<forall>c \<in> set (to_valid_utf8 s). byte c < 0x80"
  shows "to_valid_utf8 s = s"
proof -
  have "fst ch" if ch: "ch \<in> set (utf8_chunks s)" for ch
  proof (rule ccontr)
    assume "\<not> fst ch"
    then have "set replacement_char \<subseteq> set (to_valid_utf8 s)"
      using ch by (force simp: to_valid_chunks chunk_text_def)
    with assms show False by (auto simp: replacement_char_def byte_chr)
  qed
  then have "map chunk_text (utf8_chunks s) = map snd (utf8_chunks s)"
    by (simp add: chunk_text_def)
  then have "to_valid_utf8 s = concat (map snd (utf8_chunks s))"
    by (simp only: to_valid_chunks)
  then show ?thesis by (simp only: utf8_chunks_concat)
qed

lemma to_valid_eq_ascii:
  assumes "\<forall>c \<in> set t. byte c < 0x80"
  shows "to_valid_utf8 s = t \<longleftrightarrow> s = t"
  using assms to_valid_ascii [of s] valid_ascii_literal [OF assms] by metis

lemma head_filter: "(case filter P xs of [] \<Rightarrow> None | x # _ \<Rightarrow> Some x) = find P xs"
  by (induction xs) auto

lemma case_map_list: "(case map f xs of [] \<Rightarrow> a | x # _ \<Rightarrow> g x) = (case xs of [] \<Rightarrow> a | x # _ \<Rightarrow> g (f x))"
  by (cases xs) simp_all

lemma attribute_result:
  "attribute ''id'' (clean (result_json r)) = Some (JStr (to_valid_utf8 (crID r)))"
  "attribute ''status'' (clean (result_json r)) = Some (JStr (to_valid_utf8 (crStatus r)))"
  by (simp_all add: attribute_def result_json_def valid_ascii_literal)

lemma attribute_stage:
  "attribute ''id'' (clean (stage_json s)) = Some (JNum (Sprint_d (stID s)))"
  "attribute ''results'' (clean (stage_json s)) = Some (clean (slice_json (map result_json (stResults s))))"
  by (simp_all add: attribute_def stage_json_def valid_ascii_literal)

lemma attribute_report:
  "attribute ''stages'' (clean (report_json rep)) = Some (clean (slice_json (map stage_json (rpStages rep))))"
  by (simp add: attribute_def report_json_def valid_ascii_literal)

lemma for_where_slice:
  "for_where (Some (clean (slice_json vs))) k y =
    (if vs = [] then Inl ''Iteration over null value''
     else Inr (filter (\<lambda>v. attribute k v = Some y) (map clean vs)))"
  by (simp add: for_where_def slice_json_def)

lemma char_eq_iff_byte: "c = d \<longleftrightarrow> byte c = byte d"
  by auto

lemma Sprint_d_4: "Sprint_d i = ''4'' \<longleftrightarrow> i = 4"
proof
  assume four: "Sprint_d i = ''4''"
  show "i = 4"
  proof (cases "i < 0")
    case False
    with four have "digits_value (dec (nat i)) = digits_value ''4''" by (simp add: Sprint_d_def)
    with False show ?thesis by (simp del: dec.simps) (simp add: digits_value_def)
  qed (use four in \<open>simp add: Sprint_d_def\<close>)
next
  have "dec 4 = ''4''" by (subst dec.simps) (simp add: char_eq_iff_byte)
  then show "Sprint_d i = ''4''" if "i = 4" using that by (simp add: Sprint_d_def)
qed

lemma derived_tier_is_report_tier: "derived_install_tier (clean (report_json rep)) = report_tier rep"
proof -
  have ids: "attribute ''id'' (clean (stage_json s)) = Some (JNum ''4'') \<longleftrightarrow> stID s = StageKubernetes"
    "attribute ''id'' (clean (result_json r)) = Some (JStr ''k8s.installtier'') \<longleftrightarrow>
      crID r = ''k8s.installtier''" for s r
    by (simp_all add: attribute_stage attribute_result Sprint_d_4 to_valid_eq_ascii stage_id_defs)
  have status: "tier_of_status (attribute ''status'' (clean (result_json r))) = tier_letter (crStatus r)" for r
    by (simp add: tier_of_status_def tier_letter_def attribute_result to_valid_eq_ascii status_defs)
  have stage: "map_sum id (\<lambda>rs. tier_of_status (case rs of [] \<Rightarrow> None | r # _ \<Rightarrow> attribute ''status'' r))
      (for_where (attribute ''results'' (clean (stage_json s))) ''id'' (JStr ''k8s.installtier'')) =
    (if stResults s = [] then Inl ''Iteration over null value''
     else Inr (case find (\<lambda>r. crID r = ''k8s.installtier'') (stResults s) of
         None \<Rightarrow> ''B'' | Some r \<Rightarrow> tier_letter (crStatus r)))" for s
    by (auto simp: attribute_stage(2) for_where_slice filter_map comp_def ids status case_map_list
        tier_of_status_def [of None] simp flip: head_filter split: list.split)
  have "derived_install_tier (clean (report_json rep)) =
    (if rpStages rep = [] then Inl ''Iteration over null value''
     else case filter (\<lambda>s. stID s = StageKubernetes) (rpStages rep) of
         [] \<Rightarrow> Inr ''B''
       | s # _ \<Rightarrow> map_sum id (\<lambda>rs. tier_of_status (case rs of [] \<Rightarrow> None | r # _ \<Rightarrow> attribute ''status'' r))
           (for_where (attribute ''results'' (clean (stage_json s))) ''id'' (JStr ''k8s.installtier'')))"
    by (simp add: derived_install_tier_def attribute_report for_where_slice filter_map comp_def ids
        case_map_list tier_of_status_def [of None] split: list.split sum.split)
  then show ?thesis
    unfolding stage by (simp add: report_tier_def flip: head_filter split: list.split)
qed

lemma decode_line:
  assumes "json_ok v"
  shows "decode (encode v @ [chr 10]) = Some (clean v)"
proof -
  have "follows [chr 10]" by (simp add: follows_def number_char_def is_digit_def byte_chr char_eq_iff_byte)
  then have "read_value (2 * length (encode v @ [chr 10]) + 2) (encode v @ [chr 10]) =
      Some (clean v, [chr 10])"
    by (intro readsD [OF encode_reads [OF assms]]) simp_all
  moreover have "skip_ws [chr 10] = []" by (simp add: skip_ws_def is_json_space_def byte_chr)
  ultimately show ?thesis by (simp only: decode_def option.case prod.case if_True simp_thms)
qed

lemma unmarshal_line:
  assumes "rpVerdict rep \<in> severities"
  shows "unmarshal_flat (emitted rep @ [chr 10]) =
    Some [''report_json'' \<mapsto> encode (report_json rep), ''verdict'' \<mapsto> rpVerdict rep]"
proof -
  let ?doc = "JObj [(''report_json'', JStr (encode (report_json rep))), (''verdict'', JStr (rpVerdict rep))]"
  have "decode (emitted rep @ [chr 10]) = decode (emitted rep)"
    unfolding emitted_def by (simp only: decode_line decode_encode json_ok.simps list.pred_inject snd_conv simp_thms)
  then have "unmarshal_flat (emitted rep @ [chr 10]) = unmarshal_flat (emitted rep)"
    by (simp add: unmarshal_flat_def)
  with assms show ?thesis by (simp add: unmarshal_emitted severity_valid)
qed

subsection \<open>The tier of a run\<close>

lemma clear_verdict_stage:
  assumes "rpVerdict (fst (run_state (run_report r info) w)) \<noteq> StatusRed" and "i < 6" and "\<not> info ! i"
  obtains w' where "stResults (rpStages (fst (run_state (run_report r info) w)) ! i) =
      fst (run_state (run_checks (byStage r ! i) []) w')"
    and "StageStatus (fst (run_state (run_checks (byStage r ! i) []) w')) \<noteq> StatusRed"
proof -
  let ?st = "rpStages (fst (run_state (run_report r info) w))"
  have clear: "fst (outcomes r info w ! j) \<noteq> StatusRed" if "j < 6" "\<not> info ! j" for j
  proof
    assume red: "fst (outcomes r info w ! j) = StatusRed"
    have "?st ! j \<in> set ?st" using that(1) nth_mem [of j ?st] by (simp add: run_report_run)
    moreover have "effective_status (?st ! j) = StatusRed"
      using that red by (simp add: run_report_run effective_status_def)
    ultimately have "StatusRed \<in> set (map effective_status ?st)" by (metis image_eqI set_map)
    with assms(1) show False unfolding run_report_run(1) report_of_verdict by simp
  qed
  have "\<not> (\<exists>j<i. \<not> info ! j \<and> fst (outcomes r info w ! j) = StatusRed)"
    using clear assms(2) less_trans by blast
  with outcome_source [OF assms(2), of info r w] obtain w' where
    "outcomes r info w ! i = (let rs = fst (run_state (run_checks (byStage r ! i) []) w') in (StageStatus rs, rs))"
    by presburger
  with clear [OF assms(2,3)] assms(2) that [of w'] show thesis by (simp add: Let_def run_report_run)
qed

lemma find_nth_6:
  assumes "map crID (take 7 rs) = stage4_ids"
  shows "6 < length rs \<and> find (\<lambda>r. crID r = ''k8s.installtier'') rs = Some (rs ! 5)"
proof -
  obtain a b c d e f g where seven: "take 7 rs = [a, b, c, d, e, f, g]"
    and ids: "map crID [a, b, c, d, e, f, g] = stage4_ids"
    using assms by (auto simp: stage4_ids_def map_eq_Cons_conv)
  have "rs = [a, b, c, d, e, f, g] @ drop 7 rs"
    using append_take_drop_id [of 7 rs] unfolding seven by simp
  then obtain tl where "rs = a # b # c # d # e # f # g # tl" by auto
  with ids show ?thesis by (simp add: stage4_ids_def)
qed

lemma cluster_run_tier:
  assumes "\<not> info ! 4"
    and "rpVerdict (fst (run_state (run_report (NewRunner (CloudChecks p @ K8sChecks k)) info) w)) \<noteq> StatusRed"
  shows "report_tier (fst (run_state (run_report (NewRunner (CloudChecks p @ K8sChecks k)) info) w)) \<in>
    {Inr ''A'', Inr ''B''}"
proof -
  let ?r = "NewRunner (CloudChecks p @ K8sChecks k)"
  let ?rep = "fst (run_state (run_report ?r info) w)"
  have bucket: "byStage ?r ! 4 = [fnCheck StageKubernetes ''kubernetes-infra'' (stage4 k)]"
    by (simp add: NewRunner_bucket CloudChecks_def K8sChecks_def providerCheck_def fnCheck_def stage_id_defs)
  obtain w' where rs: "stResults (rpStages ?rep ! 4) = fst (run_state (stage4 k) w')"
    and clear: "StageStatus (fst (run_state (stage4 k) w')) \<noteq> StatusRed"
    using clear_verdict_stage [OF assms(2) _ assms(1)] by (auto simp: bucket fnCheck_def)
  let ?rs = "fst (run_state (stage4 k) w')"
  have ok: "map crID (take 7 ?rs) = stage4_ids" "\<forall>r \<in> set ?rs. stage4_ok r"
    using outcome_run [OF stage4_outcome, of k w'] by simp_all
  from find_nth_6 [OF ok(1)] have six: "6 < length ?rs"
    "find (\<lambda>r. crID r = ''k8s.installtier'') ?rs = Some (?rs ! 5)" by simp_all
  then have mem: "?rs ! 5 \<in> set ?rs" by simp
  with ok(2) have "crStatus (?rs ! 5) \<in> severities" by (auto simp: stage4_ok_def)
  moreover have "crStatus (?rs ! 5) \<noteq> StatusRed"
    using clear mem by (auto simp: StageStatus_cases split: if_splits)
  ultimately have letter: "tier_letter (crStatus (?rs ! 5)) \<in> {''A'', ''B''}"
    by (auto simp: tier_letter_def severities_def)
  have "find (\<lambda>s. stID s = StageKubernetes) (rpStages ?rep) = Some (rpStages ?rep ! 4)"
    by (simp add: run_report_run(1) report_of_def Let_def upt6 stage_id_defs)
  with letter six rs show ?thesis by (auto simp: report_tier_def)
qed

subsection \<open>Arguments\<close>

lemma flag_names [simp]:
  "flag_name ''mode''" "flag_name ''kubeconfig''" "flag_name ''namespace''" "flag_name ''cloud''"
  by (simp_all add: flag_name_def)

lemma terraform_args:
  "case Parse preflight_flags (preflight_args v) of
     Inl _ \<Rightarrow> False
   | Inr (fs, rest) \<Rightarrow> rest = [] \<and> flag_options fs =
       \<lparr>kubeconfig = var_kubeconfig_path v, namespace = var_namespace v, mode = var_mode v,
        cloud = var_cloud v, exitOnRed = False, skipK8sWhenNoKubeconfig = False\<rparr>"
proof -
  have args: "preflight_args v =
    (''--'' @ ''mode'' @ CHR ''='' # var_mode v) # (''--'' @ ''kubeconfig'') # var_kubeconfig_path v #
    (''--'' @ ''namespace'') # var_namespace v #
    (if var_cloud v \<noteq> [] then [''--'' @ ''cloud'' @ CHR ''='' # var_cloud v] else [])"
    by (simp add: preflight_args_def)
  have nil: "Parse fs [] = Inr (fs, [])" for fs by (subst Parse.simps) simp
  show ?thesis
    unfolding args preflight_flags_def
    by (simp add: flag_simps nil flag_options_def string_flag_def bool_flag_def
        del: append.simps)
qed

text \<open>Property C29: the arguments Terraform builds mean what its variables say.  Whatever the values of
  the mode, the kubeconfig path, the namespace and the cloud, empty ones and ones that start with a
  dash or hold equals signs included, parsing the arguments gives exactly those options, consumes all
  of them, and leaves the two switches of the command off.\<close>
theorem terraform_arguments_roundtrip:
  "case Parse preflight_flags (preflight_args v) of
     Inl _ \<Rightarrow> False
   | Inr (fs, rest) \<Rightarrow> rest = [] \<and> flag_options fs =
       \<lparr>kubeconfig = var_kubeconfig_path v, namespace = var_namespace v, mode = var_mode v,
        cloud = var_cloud v, exitOnRed = False, skipK8sWhenNoKubeconfig = False\<rparr>"
  by (rule terraform_args)

text \<open>
  What is left of them without the empty ones.  A namespace that starts with a dash is no name of Kubernetes;
  it matters where it takes the place of a flag.
\<close>

definition left_to_parse :: "preflight_vars \<Rightarrow> options" where
  "left_to_parse v =
    \<lparr>kubeconfig = (if var_kubeconfig_path v = [] then ''--namespace'' else var_kubeconfig_path v),
     namespace = (if var_kubeconfig_path v = [] then ''default''
       else if var_namespace v = [] then ''--cloud='' @ var_cloud v else var_namespace v),
     mode = var_mode v,
     cloud = (if (var_kubeconfig_path v = []) = (var_namespace v = []) then var_cloud v else []),
     exitOnRed = False, skipK8sWhenNoKubeconfig = False\<rparr>"

definition namespace_in_place :: "preflight_vars \<Rightarrow> bool" where
  "namespace_in_place v \<longleftrightarrow> (var_kubeconfig_path v = [] \<longrightarrow> take 1 (var_namespace v) \<noteq> ''-'')"

lemma Parse_stop: "take 1 s \<noteq> ''-'' \<Longrightarrow> Parse fs (s # args) = Inr (fs, s # args)"
  by (cases s) (simp_all add: Parse.simps [of fs])

lemma Parse_missing:
  assumes "flag_name key" and "map_of fs key = Some (StringVar d)"
  shows "Parse fs [''--'' @ key] = Inl (FlagError (''flag needs an argument: -'' @ key))"
  using assms flag_argument [OF assms(1), of "[]"] cut_value_plain [of key]
  by (subst Parse.simps) (simp add: flag_name_def parse_named_def)

lemma nonempty_terraform_args:
  "nonempty_args (preflight_args v) = (let
     cloud = (if var_cloud v = [] then [] else [''--'' @ ''cloud'' @ CHR ''='' # var_cloud v]);
     namespace = (''--'' @ ''namespace'') # (if var_namespace v = [] then cloud else var_namespace v # cloud)
   in (''--'' @ ''mode'' @ CHR ''='' # var_mode v) # (''--'' @ ''kubeconfig'') #
     (if var_kubeconfig_path v = [] then namespace else var_kubeconfig_path v # namespace))"
  by (simp add: nonempty_args_def preflight_args_def)

lemma left_arguments:
  assumes "namespace_in_place v"
  shows "case Parse preflight_flags (nonempty_args (preflight_args v)) of
     Inl err \<Rightarrow> err = FlagError ''flag needs an argument: -namespace'' \<and>
       var_kubeconfig_path v \<noteq> [] \<and> var_namespace v = [] \<and> var_cloud v = []
   | Inr (fs, _) \<Rightarrow> flag_options fs = left_to_parse v \<and>
       \<not> (var_kubeconfig_path v \<noteq> [] \<and> var_namespace v = [] \<and> var_cloud v = [])"
proof -
  have nil: "Parse fs [] = Inr (fs, [])" for fs by (subst Parse.simps) simp
  have split: "''--namespace'' = ''--'' @ ''namespace''" "''--cloud='' @ c = ''--'' @ ''cloud'' @ CHR ''='' # c" for c
    by simp_all
  note parse = flag_simps nil split Parse_stop Parse_missing flag_options_def string_flag_def bool_flag_def left_to_parse_def
  show ?thesis
  proof (cases "var_kubeconfig_path v = []"; cases "var_namespace v = []"; cases "var_cloud v = []")
  qed (use assms in \<open>simp_all add: nonempty_terraform_args Let_def preflight_flags_def parse namespace_in_place_def del: append.simps\<close>)
qed

text \<open>
  A red verdict that is not blocked does run into them: a skipped stage has no results, its JSON is
  null, and the module fails with Terraform's error instead of a tier.
\<close>

lemma skipped_stage_breaks_the_plan:
  assumes "stStatus (rpStages (fst (run_state (run_report r info) w)) ! 4) = StatusSkipped"
  shows "derived_install_tier (clean (report_json (fst (run_state (run_report r info) w)))) =
    Inl ''Iteration over null value''"
proof -
  let ?rep = "fst (run_state (run_report r info) w)"
  have "fst (outcomes r info w ! 4) = StatusSkipped" using assms by (simp add: run_report_run)
  then have "\<exists>j<4. \<not> info ! j \<and> fst (outcomes r info w ! j) = StatusRed"
    using outcome_skipped_iff [of 4 r info w] by simp
  with outcome_at [of 4 info r w] have "snd (outcomes r info w ! 4) = []" by simp
  moreover have "find (\<lambda>s. stID s = StageKubernetes) (rpStages ?rep) = Some (rpStages ?rep ! 4)"
    by (simp add: run_report_run(1) report_of_def Let_def upt6 stage_id_defs)
  ultimately show ?thesis
    by (simp add: derived_tier_is_report_tier report_tier_def run_report_run(1))
qed

subsection \<open>Properties of the gate\<close>

definition gated_checks :: "'w Check list \<Rightarrow> bool" where
  "gated_checks cs \<longleftrightarrow> (\<exists>p. (\<exists>k. cs = CloudChecks p @ K8sChecks k) \<or> cs = CloudChecks p @ NoKubeconfigK8sChecks)"

lemma gated_checksI [simp]:
  "gated_checks (CloudChecks p @ K8sChecks k)" "gated_checks (CloudChecks p @ NoKubeconfigK8sChecks)"
  by (auto simp: gated_checks_def)

lemma assemble_gated:
  assumes "\<not> skipK8sWhenNoKubeconfig opts"
  shows "pred_state (on_success gated_checks) (assemble_checks kube opts p)"
  using assms unfolding assemble_checks_def Let_def
  by (intro outcome_if outcome_bind_any outcome_sum outcome_return)
    (auto intro!: outcome_return split: prod.split)

text \<open>What the report of a command line is: amber with a tier, or red.\<close>

definition gate_report :: "Report \<Rightarrow> bool" where
  "gate_report rep \<longleftrightarrow> rpVerdict rep = StatusRed \<or>
     (rpVerdict rep = StatusAmber \<and> report_tier rep \<in> {Inr ''A'', Inr ''B''})"

lemma run_gate_report:
  assumes "gated_checks cs" and "info \<in> modes"
  shows "gate_report (fst (run_state (run_report (NewRunner cs) info) w))"
proof (cases "rpVerdict (fst (run_state (run_report (NewRunner cs) info) w)) = StatusRed")
  case False
  note gate = modes_gate_cluster [OF assms(2)]
  from False have "cs \<noteq> CloudChecks p @ NoKubeconfigK8sChecks" for p
    using no_kubeconfig_run_red [OF gate, of "CloudChecks p" w] by auto
  with assms(1) obtain p k where cs: "cs = CloudChecks p @ K8sChecks k"
    by (auto simp: gated_checks_def)
  have "rpVerdict (fst (run_state (run_report (NewRunner cs) info) w)) \<in> severities"
    by (simp add: run_report_verdict)
  moreover have "rpVerdict (fst (run_state (run_report (NewRunner cs) info) w)) \<noteq> StatusGreen"
    unfolding cs by (rule cluster_run_never_green)
  ultimately show ?thesis
    using False cluster_run_tier [OF gate False [unfolded cs]]
    by (auto simp: gate_report_def severities_def cs)
qed (simp add: gate_report_def)

lemma main_gate_report:
  assumes "\<not> skipK8sWhenNoKubeconfig opts"
  shows "\<exists>rep. gate_report rep \<and> stdout (fst (run_state (main getenv sdks kube opts) w)) = emitted rep @ [chr 10] \<and>
    exitCode (fst (run_state (main getenv sdks kube opts) w)) =
      (if exitOnRed opts \<and> rpVerdict rep = StatusRed then 1 else 0)"
  by (rule main_outcome [where C = gated_checks and Q = gate_report])
    (rule assemble_gated [OF assms], rule run_gate_report, assumption+,
      auto simp: gate_report_def error_report_def severities_def)

lemma flag_options_production [simp]: "\<not> skipK8sWhenNoKubeconfig (flag_options fs)"
  by (simp add: flag_options_def)

text \<open>Property C15: no command line gets past the gate by accident.  For every list of arguments, either
  they are refused, and then nothing is printed on standard output, nothing has been called and the
  exit code is 0 for a request for help and 2 for a mistake; or one line is printed whose verdict is
  amber or red, never green, and the exit code is 1 exactly if the switch asks for it and the verdict
  is red.\<close>
theorem every_command_line_is_gated:
  "case Parse preflight_flags args of
     Inl err \<Rightarrow> run_state (preflight_command getenv sdks kube usage args) w =
       (\<lparr>stdout = [], stderr = usage err, exitCode = (if err = ErrHelp then 0 else 2)\<rparr>, w)
   | Inr (fs, _) \<Rightarrow> let p = fst (run_state (preflight_command getenv sdks kube usage args) w) in
       \<exists>verdict txt. unmarshal_flat (stdout p) = Some [''report_json'' \<mapsto> txt, ''verdict'' \<mapsto> verdict] \<and>
         verdict \<in> {StatusAmber, StatusRed} \<and>
         exitCode p = (if bool_flag fs ''exit-on-red'' \<and> verdict = StatusRed then 1 else 0)"
proof (cases "Parse preflight_flags args")
  case (Inl err)
  then show ?thesis by (cases err) (simp_all add: preflight_command_def flag_exit_def)
next
  case (Inr r)
  obtain fs rest where r: "r = (fs, rest)" by (cases r)
  obtain rep where rep: "gate_report rep"
    "stdout (fst (run_state (main getenv sdks kube (flag_options fs)) w)) = emitted rep @ [chr 10]"
    "exitCode (fst (run_state (main getenv sdks kube (flag_options fs)) w)) =
      (if exitOnRed (flag_options fs) \<and> rpVerdict rep = StatusRed then 1 else 0)"
    using main_gate_report [of "flag_options fs" getenv sdks kube w] by auto
  from rep(1) have verdict: "rpVerdict rep \<in> {StatusAmber, StatusRed}" by (auto simp: gate_report_def)
  then have "rpVerdict rep \<in> severities" by (auto simp: severities_def)
  from unmarshal_line [OF this] verdict rep(2,3) Inr r show ?thesis
    by (auto simp: preflight_command_def flag_options_def Let_def)
qed

lemma gate_outcome:
  assumes "external_contract ext" and "preflight_vars_valid v" and "namespace_in_place v"
    and command: "command = preflight_command getenv sdks kube usage"
    and p: "p = fst (run_state (command (nonempty_args (preflight_args v))) w)"
    and out: "out = fst (run_state (preflight_module ext command v) w)"
  shows "if var_kubeconfig_path v \<noteq> [] \<and> var_namespace v = [] \<and> var_cloud v = []
    then exitCode p = 2 \<and> (\<exists>err. out = Inl err)
    else exitCode p = 0 \<and>
      (\<exists>verdict txt. unmarshal_flat (stdout p) = Some [''report_json'' \<mapsto> txt, ''verdict'' \<mapsto> verdict] \<and>
       (if verdict = StatusRed
        then (if var_fail_on_red v then out = Inl ''Preflight verdict is RED''
          else out = Inl ''Iteration over null value'' \<or>
            (\<exists>tier \<in> {''A'', ''B'', ''RED''}. out = Inr (verdict,
              if var_install_tier_override v \<noteq> [] then var_install_tier_override v else tier)))
        else verdict = StatusAmber \<and> (\<exists>tier \<in> {''A'', ''B''}. out = Inr (verdict,
          if var_install_tier_override v \<noteq> [] then var_install_tier_override v else tier))))"
proof -
  note result = module_result [OF assms(1,2), where run = command and w = w, OF p, folded out]
  show ?thesis
  proof (cases "Parse preflight_flags (nonempty_args (preflight_args v))")
    case (Inl err)
    with left_arguments [OF assms(3)] have err: "err = FlagError ''flag needs an argument: -namespace''"
      "var_kubeconfig_path v \<noteq> []" "var_namespace v = []" "var_cloud v = []" by simp_all
    with Inl have "exitCode p = 2" by (simp add: p command preflight_command_def flag_exit_def)
    with err result(3) show ?thesis by simp
  next
    case (Inr r)
    obtain fs rest where parse: "Parse preflight_flags (nonempty_args (preflight_args v)) = Inr (fs, rest)"
      using Inr by (cases r) simp
    with left_arguments [OF assms(3)] have fs: "flag_options fs = left_to_parse v"
      and taken: "\<not> (var_kubeconfig_path v \<noteq> [] \<and> var_namespace v = [] \<and> var_cloud v = [])" by simp_all
    obtain rep where rep: "gate_report rep" "stdout p = emitted rep @ [chr 10]" "exitCode p = 0"
      using main_gate_report [of "flag_options fs" getenv sdks kube w]
      by (auto simp: p command preflight_command_def parse fs left_to_parse_def)
    have "rpVerdict rep \<in> severities" using rep(1) by (auto simp: gate_report_def severities_def)
    then have data: "unmarshal_flat (stdout p) =
        Some [''report_json'' \<mapsto> encode (report_json rep), ''verdict'' \<mapsto> rpVerdict rep]"
      by (simp add: rep(2) unmarshal_line)
    have gate: "out = (if var_fail_on_red v \<and> rpVerdict rep = StatusRed then Inl ''Preflight verdict is RED''
       else map_sum id (\<lambda>tier. (rpVerdict rep, if var_install_tier_override v \<noteq> []
         then var_install_tier_override v else tier)) (report_tier rep))"
      by (auto simp: result(2) [OF rep(3) data] gate_outputs_def decode_encode [OF report_json_ok]
          derived_tier_is_report_tier status_defs split: sum.split)
    have tier: "report_tier rep \<in> {Inl ''Iteration over null value'', Inr ''A'', Inr ''B'', Inr ''RED''}"
      by (simp add: report_tier_def tier_letter_def split: option.split)
    let ?tier = "\<lambda>tier. if var_install_tier_override v \<noteq> [] then var_install_tier_override v else tier"
    have "if rpVerdict rep = StatusRed
        then (if var_fail_on_red v then out = Inl ''Preflight verdict is RED''
          else out = Inl ''Iteration over null value'' \<or>
            (\<exists>tier \<in> {''A'', ''B'', ''RED''}. out = Inr (rpVerdict rep, ?tier tier)))
        else rpVerdict rep = StatusAmber \<and> (\<exists>tier \<in> {''A'', ''B''}. out = Inr (rpVerdict rep, ?tier tier))"
    proof (cases "rpVerdict rep = StatusRed")
      case True
      with gate tier show ?thesis by (cases "var_fail_on_red v") (auto simp del: if_split)
    next
      case False
      with rep(1) have "rpVerdict rep = StatusAmber" "report_tier rep \<in> {Inr ''A'', Inr ''B''}"
        by (simp_all add: gate_report_def)
      with gate False show ?thesis by (auto simp del: if_split)
    qed
    with data rep(3) show ?thesis unfolding if_not_P [OF taken] by blast
  qed
qed

text \<open>Property C2: the Terraform gate, end to end.  Let the data source keep the contract of its provider, let
  the variables be valid, and, where no path of a kubeconfig is given, let the namespace not start with a dash.
  Then, whatever the environment, the clouds and the cluster: with a path but neither a namespace nor a cloud the
  command refuses its arguments and the module fails.  Otherwise the command exits with 0 and prints a
  verdict; a red one fails the module if it is told to; and any other verdict is amber and the
  install tier comes out as A or B, or as the override: no plan that passes runs into an invalid tier or
  into the missing results of a skipped stage.  A red verdict that is not to fail the module gives a tier too,
  unless the stage of the tier was skipped.\<close>
theorem terraform_gate:
  assumes "external_contract ext" and "preflight_vars_valid v" and "namespace_in_place v"
  shows "let command = preflight_command getenv sdks kube usage;
      p = fst (run_state (command (nonempty_args (preflight_args v))) w);
      out = fst (run_state (preflight_module ext command v) w) in
    if var_kubeconfig_path v \<noteq> [] \<and> var_namespace v = [] \<and> var_cloud v = []
    then exitCode p = 2 \<and> (\<exists>err. out = Inl err)
    else exitCode p = 0 \<and>
      (\<exists>verdict txt. unmarshal_flat (stdout p) = Some [''report_json'' \<mapsto> txt, ''verdict'' \<mapsto> verdict] \<and>
       (if verdict = StatusRed
        then (if var_fail_on_red v then out = Inl ''Preflight verdict is RED''
          else out = Inl ''Iteration over null value'' \<or>
            (\<exists>tier \<in> {''A'', ''B'', ''RED''}. out = Inr (verdict,
              if var_install_tier_override v \<noteq> [] then var_install_tier_override v else tier)))
        else verdict = StatusAmber \<and> (\<exists>tier \<in> {''A'', ''B''}. out = Inr (verdict,
          if var_install_tier_override v \<noteq> [] then var_install_tier_override v else tier))))"
  unfolding Let_def by (rule gate_outcome [OF assms refl refl refl])

text \<open>Property C21: empty variables move the arguments of the command.  The provider leaves empty arguments out, and the
  module passes the kubeconfig and the namespace as arguments of their own, so a flag without its value takes the next
  argument.  The command refuses its arguments exactly if a kubeconfig is given and neither a namespace nor a cloud.
  Without a namespace, but with a cloud, the namespace is \<open>--cloud=\<close> and that cloud, and no cloud is selected.  Without a
  kubeconfig its path is \<open>--namespace\<close>; a namespace is then the end of the flags, so that the default one is
  checked and a cloud that follows it is not read.  Where no kubeconfig is given, the namespace is taken not to
  start with a dash, or it would be read as a flag itself.\<close>
theorem empty_arguments_shift:
  assumes "namespace_in_place v"
  shows "case Parse preflight_flags (nonempty_args (preflight_args v)) of
     Inl err \<Rightarrow> err = FlagError ''flag needs an argument: -namespace'' \<and>
       var_kubeconfig_path v \<noteq> [] \<and> var_namespace v = [] \<and> var_cloud v = []
   | Inr (fs, _) \<Rightarrow>
      \<not> (var_kubeconfig_path v \<noteq> [] \<and> var_namespace v = [] \<and> var_cloud v = []) \<and> flag_options fs =
      \<lparr>kubeconfig = (if var_kubeconfig_path v = [] then ''--namespace'' else var_kubeconfig_path v),
       namespace = (if var_kubeconfig_path v = [] then ''default''
         else if var_namespace v = [] then ''--cloud='' @ var_cloud v else var_namespace v),
       mode = var_mode v,
       cloud = (if (var_kubeconfig_path v = []) = (var_namespace v = []) then var_cloud v else []),
       exitOnRed = False, skipK8sWhenNoKubeconfig = False\<rparr>"
  using left_arguments [OF assms] by (auto simp: left_to_parse_def split: sum.splits)

subsection \<open>Variables to try the properties on\<close>

definition demo_vars :: "string \<Rightarrow> string \<Rightarrow> preflight_vars" where
  "demo_vars ns cl = \<lparr>var_mode = ''agnostic'', var_kubeconfig_path = ''kubeconfig'', var_namespace = ns, var_cloud = cl,
    var_fail_on_red = True, var_install_tier_override = ''A''\<rparr>"

theorem terraform_gate_witness:
  "exitCode (fst (run_state (preflight_command (\<lambda>_. []) demo_sdks demo_kube (\<lambda>_. [])
      (nonempty_args (preflight_args (demo_vars ''apps'' [])))) 0)) = 0 \<and>
   (\<exists>err. fst (run_state (preflight_module run_external (preflight_command (\<lambda>_. []) demo_sdks demo_kube (\<lambda>_. []))
      (demo_vars [] [])) 0) = Inl err)"
  using terraform_gate [OF run_external_contract, of "demo_vars ''apps'' []" "\<lambda>_. []" demo_sdks demo_kube "\<lambda>_. []" 0]
    terraform_gate [OF run_external_contract, of "demo_vars [] []" "\<lambda>_. []" demo_sdks demo_kube "\<lambda>_. []" 0]
  by (simp add: Let_def demo_vars_def preflight_vars_valid_def namespace_in_place_def)

text \<open>The cloud that was asked for is lost.\<close>

theorem empty_arguments_witness:
  "\<exists>fs rest. Parse preflight_flags (nonempty_args (preflight_args (demo_vars [] ''aws''))) = Inr (fs, rest) \<and>
     namespace (flag_options fs) = ''--cloud=aws'' \<and> cloud (flag_options fs) = []"
  using empty_arguments_shift [of "demo_vars [] ''aws''"]
  by (auto simp: demo_vars_def namespace_in_place_def split: sum.splits)

end
