(* ===== verification/Workload_API.thy ===== *)
theory Workload_API
  imports Prelude "HOL-Library.Word" "HOL-Library.AList"
begin

text \<open>
  \<open>operator/api/v1/workload_types.go\<close>: the Workload resource, and the Kubernetes objects the
  operator creates for it.  An embedded struct is a record that extends the embedded one, an
  \<open>int32\<close> a 32-bit word read with \<open>sint\<close>, a pointer an option.  A Go map is the list of its
  entries in the order \<open>range\<close> visits them, a map that may be \<open>nil\<close> an option of it.  The data of
  Kubernetes types the operator only passes along has the type variable \<open>'k\<close>.
\<close>

type_synonym int32 = "32 word"

type_synonym int64 = "64 word"

type_synonym string_map = "(string \<times> string) list"

subsection \<open>Object metadata\<close>

text \<open>The fields of \<open>metav1.TypeMeta\<close>, \<open>ObjectMeta\<close>, \<open>OwnerReference\<close> and \<open>Condition\<close>.\<close>

record OwnerReference =
  ownerKind :: string
  ownerName :: string
  ownerUID :: string
  ownerController :: bool

record TypeMeta =
  Kind :: string
  APIVersion :: string

record ObjectMeta = TypeMeta +
  metaName :: string
  metaNamespace :: string
  UID :: string
  Generation :: int64
  Labels :: "string_map option"
  Annotations :: "string_map option"
  OwnerReferences :: "OwnerReference list"

record Condition =
  condType :: string
  condStatus :: string
  condReason :: string
  condMessage :: string
  condObservedGeneration :: int64
  LastTransitionTime :: int

definition ConditionTrue :: string where "ConditionTrue = ''True''"

definition ConditionFalse :: string where "ConditionFalse = ''False''"

subsection \<open>The Workload\<close>

definition RolloutRollingUpdate :: string where "RolloutRollingUpdate = ''RollingUpdate''"

definition RolloutCanary :: string where "RolloutCanary = ''Canary''"

record Probe =
  probePath :: string
  probePort :: int32

record Autoscale =
  MinReplicas :: int32
  MaxReplicas :: int32
  TargetCPUUtilization :: int32

record IngressConfig =
  Host :: string
  ingressPath :: string
  PathType :: string

record 'k ResourceRequirements =
  Limits :: "(string \<times> 'k) list option"
  Requests :: "(string \<times> 'k) list option"
  Claims :: "'k list option"

record 'k WorkloadSpec =
  Image :: string
  Port :: int32
  RolloutStrategy :: string
  specAutoscale :: Autoscale
  LivenessProbe :: "Probe option"
  ReadinessProbe :: "Probe option"
  Resources :: "'k ResourceRequirements"
  SecurityContext :: "'k option"
  PodSecurityContext :: "'k option"
  IngressClass :: string
  specIngress :: "IngressConfig option"

record WorkloadStatus =
  Conditions :: "Condition list"
  ObservedGeneration :: int64
  ReadyReplicas :: int32

record 'k Workload = ObjectMeta +
  Spec :: "'k WorkloadSpec"
  Status :: WorkloadStatus

subsection \<open>Registration\<close>

text \<open>
  \<open>operator/api/v1/groupversion_info.go\<close> and the \<open>init\<close> of the types: a scheme knows the kinds added
  to it.
\<close>

record GVK =
  gvkGroup :: string
  gvkVersion :: string
  gvkKind :: string

definition GroupVersion :: "string \<times> string" where
  "GroupVersion = (''workload.ops.dev'', ''v1'')"

definition registered_kinds :: "string list" where
  "registered_kinds = [''Workload'', ''WorkloadList'']"

definition AddToScheme :: "GVK list \<Rightarrow> GVK list" where
  "AddToScheme known = known @
    map (\<lambda>k. \<lparr>gvkGroup = fst GroupVersion, gvkVersion = snd GroupVersion, gvkKind = k\<rparr>) registered_kinds"

subsection \<open>Validation\<close>

text \<open>
  The \<open>kubebuilder:validation\<close> markers, which the API server checks before it stores a Workload.  A
  \<open>spec\<close> is not required (\<open>json:"spec,omitempty"\<close> without a marker), so \<open>None\<close> passes and reads as
  the zero value.  What Kubernetes itself validates in the embedded types is left out.
\<close>

definition probe_valid :: "Probe \<Rightarrow> bool" where
  "probe_valid p \<longleftrightarrow> 1 \<le> sint (probePort p)"

definition autoscale_valid :: "Autoscale \<Rightarrow> bool" where
  "autoscale_valid a \<longleftrightarrow> 1 \<le> sint (MinReplicas a) \<and> 1 \<le> sint (MaxReplicas a) \<and>
    1 \<le> sint (TargetCPUUtilization a) \<and> sint (TargetCPUUtilization a) \<le> 100 \<and>
    sint (MinReplicas a) \<le> sint (MaxReplicas a)"

definition path_types :: "string list" where
  "path_types = [''Prefix'', ''Exact'', ''ImplementationSpecific'']"

definition ingress_valid :: "IngressConfig \<Rightarrow> bool" where
  "ingress_valid i \<longleftrightarrow> 1 \<le> length (Host i) \<and> PathType i \<in> set path_types"

definition spec_valid :: "'k WorkloadSpec \<Rightarrow> bool" where
  "spec_valid s \<longleftrightarrow> 1 \<le> sint (Port s) \<and>
    RolloutStrategy s \<in> {RolloutRollingUpdate, RolloutCanary} \<and> autoscale_valid (specAutoscale s) \<and>
    pred_option probe_valid (LivenessProbe s) \<and> pred_option probe_valid (ReadinessProbe s) \<and>
    pred_option ingress_valid (specIngress s)"

definition zero_spec :: "'k WorkloadSpec" where
  "zero_spec = \<lparr>Image = [], Port = 0, RolloutStrategy = [],
    specAutoscale = \<lparr>MinReplicas = 0, MaxReplicas = 0, TargetCPUUtilization = 0\<rparr>,
    LivenessProbe = None, ReadinessProbe = None,
    Resources = \<lparr>Limits = None, Requests = None, Claims = None\<rparr>,
    SecurityContext = None, PodSecurityContext = None, IngressClass = [], specIngress = None\<rparr>"

definition admitted :: "'k WorkloadSpec option \<Rightarrow> bool" where
  "admitted spec \<longleftrightarrow> pred_option spec_valid spec"

definition stored_spec :: "'k WorkloadSpec option \<Rightarrow> 'k WorkloadSpec" where
  "stored_spec spec = (case spec of None \<Rightarrow> zero_spec | Some s \<Rightarrow> s)"

subsection \<open>The objects of a Workload\<close>

text \<open>
  \<open>client.Object\<close> with the kinds the type switch of the controller knows; any other kind keeps the
  name \<open>%T\<close> prints for it.  Each constructor carries the metadata, the spec and the status.
\<close>

record 'k ServiceSpec =
  ClusterIP :: string
  ClusterIPs :: "string list option"
  serviceRest :: 'k

record 'k DeploymentSpec =
  Replicas :: "int32 option"
  Selector :: "'k option"
  deploymentRest :: 'k

record 'k DeploymentStatus =
  depReadyReplicas :: int32
  depStatusRest :: 'k

datatype 'k ClientObject =
    Service ObjectMeta "'k ServiceSpec" 'k
  | Deployment ObjectMeta "'k DeploymentSpec" "'k DeploymentStatus"
  | HorizontalPodAutoscaler ObjectMeta 'k 'k
  | PodDisruptionBudget ObjectMeta 'k 'k
  | NetworkPolicy ObjectMeta 'k
  | Ingress ObjectMeta 'k 'k
  | OtherObject string ObjectMeta 'k

fun object_meta :: "'k ClientObject \<Rightarrow> ObjectMeta" where
  "object_meta (Service m _ _) = m"
| "object_meta (Deployment m _ _) = m"
| "object_meta (HorizontalPodAutoscaler m _ _) = m"
| "object_meta (PodDisruptionBudget m _ _) = m"
| "object_meta (NetworkPolicy m _) = m"
| "object_meta (Ingress m _ _) = m"
| "object_meta (OtherObject _ m _) = m"

fun map_meta :: "(ObjectMeta \<Rightarrow> ObjectMeta) \<Rightarrow> 'k ClientObject \<Rightarrow> 'k ClientObject" where
  "map_meta f (Service m s t) = Service (f m) s t"
| "map_meta f (Deployment m s t) = Deployment (f m) s t"
| "map_meta f (HorizontalPodAutoscaler m s t) = HorizontalPodAutoscaler (f m) s t"
| "map_meta f (PodDisruptionBudget m s t) = PodDisruptionBudget (f m) s t"
| "map_meta f (NetworkPolicy m s) = NetworkPolicy (f m) s"
| "map_meta f (Ingress m s t) = Ingress (f m) s t"
| "map_meta f (OtherObject k m s) = OtherObject k (f m) s"

text \<open>The Go type of an object, as \<open>%T\<close> prints it.\<close>

fun go_type :: "'k ClientObject \<Rightarrow> string" where
  "go_type (Service _ _ _) = ''*v1.Service''"
| "go_type (Deployment _ _ _) = ''*v1.Deployment''"
| "go_type (HorizontalPodAutoscaler _ _ _) = ''*v2.HorizontalPodAutoscaler''"
| "go_type (PodDisruptionBudget _ _ _) = ''*v1.PodDisruptionBudget''"
| "go_type (NetworkPolicy _ _) = ''*v1.NetworkPolicy''"
| "go_type (Ingress _ _ _) = ''*v1.Ingress''"
| "go_type (OtherObject k _ _) = k"

lemma object_meta_map_meta [simp]: "object_meta (map_meta f x) = f (object_meta x)"
  by (cases x) simp_all

lemma go_type_map_meta [simp]: "go_type (map_meta f x) = go_type x"
  by (cases x) simp_all

lemma map_meta_map_meta [simp]: "map_meta f (map_meta g x) = map_meta (\<lambda>m. f (g m)) x"
  by (cases x) simp_all

subsection \<open>Go maps\<close>

text \<open>The entries of a Go map have distinct keys.\<close>

definition go_map :: "('a \<times> 'b) list \<Rightarrow> bool" where
  "go_map m \<longleftrightarrow> distinct (map fst m)"

text \<open>\<open>for k, v := range m { out[k] = v }\<close>\<close>

definition copy_entries :: "('a \<times> 'b) list \<Rightarrow> ('a \<times> 'b) list \<Rightarrow> ('a \<times> 'b) list" where
  "copy_entries m out = fold (\<lambda>(k, v). AList.update k v) m out"

lemma go_map_Nil [simp]: "go_map []"
  by (simp add: go_map_def)

lemma go_map_Cons [simp]: "go_map ((k, v) # m) \<longleftrightarrow> k \<notin> fst ` set m \<and> go_map m"
  by (auto simp: go_map_def)

lemma go_map_update [simp]: "go_map m \<Longrightarrow> go_map (AList.update k v m)"
  by (simp add: go_map_def distinct_update)

lemma copy_entries_Nil [simp]: "copy_entries [] out = out"
  by (simp add: copy_entries_def)

lemma copy_entries_Cons [simp]:
  "copy_entries ((k, v) # m) out = copy_entries m (AList.update k v out)"
  by (simp add: copy_entries_def)

lemma go_map_copy_entries [simp]: "go_map out \<Longrightarrow> go_map (copy_entries m out)"
  by (induction m arbitrary: out) auto

lemma map_of_copy_entries: "go_map m \<Longrightarrow> map_of (copy_entries m out) = map_of out ++ map_of m"
proof (induction m arbitrary: out)
  case (Cons e m)
  obtain k v where e: "e = (k, v)" by (cases e)
  with Cons.prems have "map_of m k = None" by (simp add: map_of_eq_None_iff)
  with Cons e show ?case
    by (auto simp: update_conv' map_add_def fun_eq_iff split: option.splits)
qed simp

lemma update_present: "map_of m k = Some v \<Longrightarrow> AList.update k v m = m"
  by (induction m) (auto split: if_splits)

lemma copy_entries_present:
  assumes "\<And>k v. (k, v) \<in> set m \<Longrightarrow> map_of out k = Some v"
  shows "copy_entries m out = out"
  using assms
proof (induction m)
  case (Cons e m)
  then show ?case by (cases e) (simp add: update_present)
qed simp

lemma copy_entries_again: "go_map m \<Longrightarrow> copy_entries m (copy_entries m out) = copy_entries m out"
  by (rule copy_entries_present) (simp add: map_of_copy_entries go_map_def)

lemma update_absent: "k \<notin> fst ` set m \<Longrightarrow> AList.update k v m = m @ [(k, v)]"
  by (induction m) auto

lemma copy_entries_disjoint:
  "go_map m \<Longrightarrow> fst ` set m \<inter> fst ` set out = {} \<Longrightarrow> copy_entries m out = out @ m"
proof (induction m arbitrary: out)
  case (Cons e m)
  then show ?case by (cases e) (auto simp: update_absent)
qed simp

lemma copy_entries_self: "go_map m \<Longrightarrow> copy_entries m [] = m"
  by (simp add: copy_entries_disjoint)

end
