(* ===== verification/Renderer.thy ===== *)
theory Renderer
  imports Workload_API Go_Strings "HOL-Library.Multiset"
begin

text \<open>
  \<open>operator/internal/render/render.go\<close>: from a Workload's spec to the typed objects of its chart.
  The functions of Helm, of the YAML decoder and of the API machinery the code calls are the fields
  of \<open>ChartEnv\<close>, and nothing is assumed about them here.  The loop over the documents of a template ends
  only when the decoder answers \<open>io.EOF\<close> or an error, so it is a partial function; \<open>Chart_returns\<close>
  shows that it ends with every decoder that makes progress.
\<close>

subsection \<open>Values\<close>

text \<open>\<open>interface{}\<close> values; a \<open>map[string]interface{}\<close> is the list of its entries.\<close>

datatype any =
    VNil
  | VBool bool
  | VInt int
  | VFloat string
  | VStr string
  | VList "any list"
  | VMap "(string \<times> any) list"

type_synonym go_values = "(string \<times> any) list"

record ReleaseOptions =
  relName :: string
  relNamespace :: string

record BufferedFile =
  bufName :: string
  bufData :: string

text \<open>One call \<open>fs.WalkDir\<close> makes of its function, with what \<open>fs.ReadFile\<close> answers for the path.\<close>

record walk_visit =
  visitPath :: string
  visitErr :: "go_error option"
  visitIsDir :: bool
  visitData :: "string go"

text \<open>What \<open>Decode\<close> answers: \<open>io.EOF\<close>, another error, or a document (empty if null).\<close>

datatype decoded = Eof | DecodeError go_error | Document go_values

text \<open>
  \<open>Sub\<close> opens a directory of the embedded files and gives the visits of the walk through it.
  \<open>Render\<close> returns the rendered templates in the order in which \<open>range\<close> visits its map.
\<close>

record ('ch, 'd, 't, 'k) ChartEnv =
  Sub :: "string \<Rightarrow> walk_visit list go"
  LoadFiles :: "BufferedFile list \<Rightarrow> 'ch go"
  ResourcesToUnstructured :: "'k ResourceRequirements \<Rightarrow> go_values go"
  SecurityToUnstructured :: "'k \<Rightarrow> go_values go"
  PodSecurityToUnstructured :: "'k \<Rightarrow> go_values go"
  ValidateAgainstSchema :: "'ch \<Rightarrow> go_values \<Rightarrow> unit go"
  ToRenderValues :: "'ch \<Rightarrow> go_values \<Rightarrow> ReleaseOptions \<Rightarrow> go_values go"
  Render :: "'ch \<Rightarrow> go_values \<Rightarrow> (string \<times> string) list go"
  NewYAMLOrJSONDecoder :: "string \<Rightarrow> 'd"
  Decode :: "'d \<Rightarrow> decoded \<times> 'd"
  GroupVersionKind :: "go_values \<Rightarrow> GVK"
  showGVK :: "GVK \<Rightarrow> string"
  SchemeNew :: "GVK \<Rightarrow> 't go"
  FromUnstructured :: "go_values \<Rightarrow> 't \<Rightarrow> 't go"
  asClientObject :: "'t \<Rightarrow> 'k ClientObject option"
  SetGroupVersionKind :: "GVK \<Rightarrow> 'k ClientObject \<Rightarrow> 'k ClientObject"

subsection \<open>The embedded chart\<close>

definition releaseName :: string where "releaseName = ''workload''"

fun walk_files :: "walk_visit list \<Rightarrow> BufferedFile list \<Rightarrow> BufferedFile list go" where
  "walk_files [] files = Inr files"
| "walk_files (v # vs) files =
    (case visitErr v of
       Some err \<Rightarrow> Inl err
     | None \<Rightarrow>
         if visitIsDir v then walk_files vs files
         else (case visitData v of
             Inl err \<Rightarrow> Inl err
           | Inr data \<Rightarrow> walk_files vs (files @ [\<lparr>bufName = visitPath v, bufData = data\<rparr>])))"

definition loadEmbeddedChart :: "('ch, 'd, 't, 'k) ChartEnv \<Rightarrow> 'ch go" where
  "loadEmbeddedChart E =
    (case Sub E ''charts/workload'' of
       Inl err \<Rightarrow> Inl err
     | Inr visits \<Rightarrow>
         (case walk_files visits [] of Inl err \<Rightarrow> Inl err | Inr files \<Rightarrow> LoadFiles E files))"

subsection \<open>Values from the spec\<close>

definition probe_value :: "Probe \<Rightarrow> any" where
  "probe_value p = VMap [(''path'', VStr (probePath p)), (''port'', VInt (sint (probePort p)))]"

definition base_values :: "string \<Rightarrow> string \<Rightarrow> 'k WorkloadSpec \<Rightarrow> go_values" where
  "base_values name namespace spec =
    [(''name'', VStr name), (''namespace'', VStr namespace), (''image'', VStr (Image spec)),
     (''port'', VInt (sint (Port spec))),
     (''autoscale'', VMap
       [(''minReplicas'', VInt (sint (MinReplicas (specAutoscale spec)))),
        (''maxReplicas'', VInt (sint (MaxReplicas (specAutoscale spec)))),
        (''targetCPUUtilization'', VInt (sint (TargetCPUUtilization (specAutoscale spec))))]),
     (''pdb'', VMap [(''minAvailable'', VInt 1)])]"

definition ingress_value :: "IngressConfig \<Rightarrow> any" where
  "ingress_value i = (let
     path = (if ingressPath i = [] then ''/'' else ingressPath i);
     pathType = (if PathType i = [] then ''Prefix'' else PathType i)
   in VMap [(''enabled'', VBool True), (''host'', VStr (Host i)), (''path'', VStr path),
            (''pathType'', VStr pathType)])"

text \<open>The keys set before the conversions: the probes and the ingress.\<close>

definition plain_values :: "string \<Rightarrow> string \<Rightarrow> 'k WorkloadSpec \<Rightarrow> go_values" where
  "plain_values name namespace spec = (let
     v = base_values name namespace spec;
     v = (case LivenessProbe spec of None \<Rightarrow> v | Some p \<Rightarrow> AList.update ''livenessProbe'' (probe_value p) v);
     v = (case ReadinessProbe spec of None \<Rightarrow> v | Some p \<Rightarrow> AList.update ''readinessProbe'' (probe_value p) v);
     v = (if IngressClass spec \<noteq> [] then AList.update ''ingressClass'' (VStr (IngressClass spec)) v else v)
   in (case specIngress spec of None \<Rightarrow> v | Some i \<Rightarrow> AList.update ''ingress'' (ingress_value i) v))"

definition valuesFromSpec ::
  "('ch, 'd, 't, 'k) ChartEnv \<Rightarrow> string \<Rightarrow> string \<Rightarrow> 'k WorkloadSpec \<Rightarrow> go_values go" where
  "valuesFromSpec E name namespace spec = (let v = plain_values name namespace spec in
    case (if Requests (Resources spec) \<noteq> None \<or> Limits (Resources spec) \<noteq> None
          then (case ResourcesToUnstructured E (Resources spec) of
              Inl err \<Rightarrow> Inl (''convert spec.resources: '' @ err)
            | Inr res \<Rightarrow> Inr (if 0 < length res then AList.update ''resources'' (VMap res) v else v))
          else Inr v) of
      Inl err \<Rightarrow> Inl err
    | Inr v \<Rightarrow>
        (case (case SecurityContext spec of
             None \<Rightarrow> Inr v
           | Some c \<Rightarrow> (case SecurityToUnstructured E c of
               Inl err \<Rightarrow> Inl (''convert spec.securityContext: '' @ err)
             | Inr sc \<Rightarrow> Inr (AList.update ''securityContext'' (VMap sc) v))) of
           Inl err \<Rightarrow> Inl err
         | Inr v \<Rightarrow>
             (case PodSecurityContext spec of
                None \<Rightarrow> Inr v
              | Some c \<Rightarrow> (case PodSecurityToUnstructured E c of
                  Inl err \<Rightarrow> Inl (''convert spec.podSecurityContext: '' @ err)
                | Inr psc \<Rightarrow> Inr (AList.update ''podSecurityContext'' (VMap psc) v)))))"

subsection \<open>Decoding\<close>

definition typedFromRaw :: "('ch, 'd, 't, 'k) ChartEnv \<Rightarrow> go_values \<Rightarrow> 'k ClientObject go" where
  "typedFromRaw E raw = (let gvk = GroupVersionKind E raw in
    case SchemeNew E gvk of
      Inl err \<Rightarrow> Inl err
    | Inr typed \<Rightarrow>
        (case FromUnstructured E raw typed of
           Inl err \<Rightarrow> Inl err
         | Inr typed \<Rightarrow>
             (case asClientObject E typed of
                None \<Rightarrow> Inl (''object '' @ showGVK E gvk @ '' is not a client.Object'')
              | Some co \<Rightarrow> Inr (SetGroupVersionKind E gvk co))))"

partial_function (option) decode_docs ::
  "('ch, 'd, 't, 'k) ChartEnv \<Rightarrow> string \<Rightarrow> 'd \<Rightarrow> 'k ClientObject list \<Rightarrow> 'k ClientObject list go option" where
  "decode_docs E name d objs =
    (case Decode E d of
       (Eof, _) \<Rightarrow> Some (Inr objs)
     | (DecodeError err, _) \<Rightarrow> Some (Inl (''decode '' @ name @ '': '' @ err))
     | (Document raw, d') \<Rightarrow>
         if length raw = 0 then decode_docs E name d' objs
         else (case typedFromRaw E raw of
             Inl err \<Rightarrow> Some (Inl (''type '' @ name @ '': '' @ err))
           | Inr typed \<Rightarrow> decode_docs E name d' (objs @ [typed])))"

fun decode_files ::
  "('ch, 'd, 't, 'k) ChartEnv \<Rightarrow> (string \<times> string) list \<Rightarrow> 'k ClientObject list
   \<Rightarrow> 'k ClientObject list go option" where
  "decode_files E [] objs = Some (Inr objs)"
| "decode_files E ((name, content) # rest) objs =
    (if length (TrimSpace content) = 0 then decode_files E rest objs
     else (case decode_docs E name (NewYAMLOrJSONDecoder E content) objs of
         None \<Rightarrow> None
       | Some (Inl err) \<Rightarrow> Some (Inl err)
       | Some (Inr objs) \<Rightarrow> decode_files E rest objs))"

definition decode ::
  "('ch, 'd, 't, 'k) ChartEnv \<Rightarrow> (string \<times> string) list \<Rightarrow> 'k ClientObject list go option" where
  "decode E rendered = decode_files E rendered []"

text \<open>The value is \<open>None\<close> exactly when the decoding loop does not end.\<close>

definition Chart ::
  "('ch, 'd, 't, 'k) ChartEnv \<Rightarrow> string \<Rightarrow> string \<Rightarrow> 'k WorkloadSpec \<Rightarrow> 'k ClientObject list go option" where
  "Chart E name namespace spec =
    (case loadEmbeddedChart E of
       Inl err \<Rightarrow> Some (Inl err)
     | Inr ch \<Rightarrow>
         (case valuesFromSpec E name namespace spec of
            Inl err \<Rightarrow> Some (Inl err)
          | Inr values \<Rightarrow>
              (case ValidateAgainstSchema E ch values of
                 Inl err \<Rightarrow> Some (Inl (''values fail chart schema: '' @ err))
               | Inr _ \<Rightarrow>
                   (case ToRenderValues E ch values \<lparr>relName = releaseName, relNamespace = namespace\<rparr> of
                      Inl err \<Rightarrow> Some (Inl (''build render values: '' @ err))
                    | Inr rv \<Rightarrow>
                        (case Render E ch rv of
                           Inl err \<Rightarrow> Some (Inl (''render chart: '' @ err))
                         | Inr rendered \<Rightarrow> decode E rendered)))))"

subsection \<open>What the decoder yields\<close>

text \<open>The objects decoded so far, followed by the result of the rest.\<close>

fun onto :: "'a list \<Rightarrow> 'a list go \<Rightarrow> 'a list go" where
  "onto xs (Inl err) = Inl err"
| "onto xs (Inr ys) = Inr (xs @ ys)"

lemma onto_Nil [simp]: "onto [] r = r"
  by (cases r) simp_all

lemma onto_onto [simp]: "onto xs (onto ys r) = onto (xs @ ys) r"
  by (cases r) simp_all

lemma onto_eq_Inr: "onto xs r = Inr zs \<longleftrightarrow> (\<exists>ys. r = Inr ys \<and> zs = xs @ ys)"
  by (cases r) auto

text \<open>\<open>yields E d raws\<close>: from state \<open>d\<close> the decoder answers these documents and then \<open>io.EOF\<close>.\<close>

inductive yields :: "('ch, 'd, 't, 'k) ChartEnv \<Rightarrow> 'd \<Rightarrow> go_values list \<Rightarrow> bool" for E where
  yields_Eof: "Decode E d = (Eof, d') \<Longrightarrow> yields E d []"
| yields_Document: "Decode E d = (Document raw, d') \<Longrightarrow> yields E d' raws \<Longrightarrow> yields E d (raw # raws)"

inductive_cases yields_NilE: "yields E d []"

inductive_cases yields_ConsE: "yields E d (raw # raws)"

text \<open>The reference for one template: the typed form of its documents that are not empty.\<close>

fun typed_docs ::
  "('ch, 'd, 't, 'k) ChartEnv \<Rightarrow> string \<Rightarrow> go_values list \<Rightarrow> 'k ClientObject list go" where
  "typed_docs E name [] = Inr []"
| "typed_docs E name (raw # raws) =
    (if raw = [] then typed_docs E name raws
     else (case typedFromRaw E raw of
         Inl err \<Rightarrow> Inl (''type '' @ name @ '': '' @ err)
       | Inr typed \<Rightarrow> onto [typed] (typed_docs E name raws)))"

lemma decode_docs_yields:
  "yields E d raws \<Longrightarrow>
   decode_docs E name d objs = Some (onto objs (typed_docs E name raws))"
proof (induction d raws arbitrary: objs rule: yields.induct)
  case (yields_Eof d d')
  then show ?case by (subst decode_docs.simps) simp
next
  case (yields_Document d raw d' raws)
  then show ?case
    by (subst decode_docs.simps) (simp split: sum.split)
qed

lemma typed_docs_total:
  assumes "\<And>raw. raw \<in> set raws \<Longrightarrow> raw \<noteq> [] \<Longrightarrow> typedFromRaw E raw = Inr (ty raw)"
  shows "typed_docs E name raws = Inr (map ty (filter (\<lambda>raw. raw \<noteq> []) raws))"
  using assms by (induction raws) simp_all

subsection \<open>One template at a time\<close>

lemma decode_docs_result:
  assumes "decode_docs E name d objs = Some r"
  shows "\<exists>res. r = onto objs res \<and> (\<forall>objs'. decode_docs E name d objs' = Some (onto objs' res))"
proof (rule decode_docs.raw_induct
    [where P = "\<lambda>E name d objs r. \<exists>res. r = onto objs res \<and>
       (\<forall>objs'. decode_docs E name d objs' = Some (onto objs' res))", OF _ assms], goal_cases)
  case (1 decode E name d objs r)
  obtain a d' where a: "Decode E d = (a, d')" by fastforce
  show ?case
  proof (cases a)
    case Eof
    with 1(2) a show ?thesis by (auto simp: decode_docs.simps [of E name d] intro!: exI [of _ "Inr []"])
  next
    case (DecodeError err)
    with 1(2) a show ?thesis
      by (auto simp: decode_docs.simps [of E name d] intro!: exI [of _ "Inl (''decode '' @ name @ '': '' @ err)"])
  next
    case (Document raw)
    show ?thesis
    proof (cases "raw = []")
      case True
      with 1(2) a Document have "decode E name d' objs = Some r" by simp
      from 1(1) [OF this] a Document True show ?thesis
        by (simp add: decode_docs.simps [of E name d])
    next
      case raw: False
      show ?thesis
      proof (cases "typedFromRaw E raw")
        case (Inl err)
        with 1(2) a Document raw show ?thesis
          by (auto simp: decode_docs.simps [of E name d] intro!: exI [of _ "Inl (''type '' @ name @ '': '' @ err)"])
      next
        case (Inr typed)
        with 1(2) a Document raw have "decode E name d' (objs @ [typed]) = Some r" by simp
        from 1(1) [OF this] obtain res where res: "r = onto (objs @ [typed]) res"
          "\<And>objs'. decode_docs E name d' objs' = Some (onto objs' res)" by blast
        with res a Document raw Inr show ?thesis
          by (auto simp: decode_docs.simps [of E name d] intro!: exI [of _ "onto [typed] res"])
      qed
    qed
  qed
qed

lemma decode_docs_acc:
  "decode_docs E name d objs = map_option (onto objs) (decode_docs E name d [])"
proof (cases "decode_docs E name d objs")
  case None
  moreover have "decode_docs E name d [] = None"
  proof (rule ccontr)
    assume "decode_docs E name d [] \<noteq> None"
    then obtain r where "decode_docs E name d [] = Some r" by blast
    from decode_docs_result [OF this] None show False by auto
  qed
  ultimately show ?thesis by simp
next
  case (Some r)
  from decode_docs_result [OF this] obtain res where
    "\<And>objs'. decode_docs E name d objs' = Some (onto objs' res)" by blast
  then show ?thesis by simp
qed

text \<open>The objects of one template, \<open>[]\<close> for a blank one.\<close>

definition file_objects ::
  "('ch, 'd, 't, 'k) ChartEnv \<Rightarrow> string \<times> string \<Rightarrow> 'k ClientObject list go option" where
  "file_objects E f =
    (if length (TrimSpace (snd f)) = 0 then Some (Inr [])
     else decode_docs E (fst f) (NewYAMLOrJSONDecoder E (snd f)) [])"

definition decodes :: "('ch, 'd, 't, 'k) ChartEnv \<Rightarrow> string \<times> string \<Rightarrow> bool" where
  "decodes E f \<longleftrightarrow> (case file_objects E f of Some (Inr _) \<Rightarrow> True | _ \<Rightarrow> False)"

definition template_objects ::
  "('ch, 'd, 't, 'k) ChartEnv \<Rightarrow> string \<times> string \<Rightarrow> 'k ClientObject list" where
  "template_objects E f = (case file_objects E f of Some (Inr os) \<Rightarrow> os | _ \<Rightarrow> [])"

lemma decode_files_Cons:
  "decode_files E (f # files) objs =
   (case file_objects E f of
      None \<Rightarrow> None
    | Some (Inl err) \<Rightarrow> Some (Inl err)
    | Some (Inr os) \<Rightarrow> decode_files E files (objs @ os))"
proof (cases f)
  case (Pair name content)
  have "decode_docs E name (NewYAMLOrJSONDecoder E content) objs =
    map_option (onto objs) (decode_docs E name (NewYAMLOrJSONDecoder E content) [])"
    by (rule decode_docs_acc)
  with Pair show ?thesis by (auto simp: file_objects_def split: option.split sum.split)
qed

lemma decode_files_success:
  "decode_files E files objs = Some (Inr r) \<longleftrightarrow>
   list_all (decodes E) files \<and> r = objs @ concat (map (template_objects E) files)"
proof (induction files arbitrary: objs)
  case (Cons f files)
  show ?case
    by (auto simp: decode_files_Cons Cons.IH decodes_def template_objects_def
        split: option.split sum.split)
qed auto

lemma decode_success:
  "decode E files = Some (Inr r) \<longleftrightarrow>
   list_all (decodes E) files \<and> r = concat (map (template_objects E) files)"
  by (simp add: decode_def decode_files_success)

subsection \<open>Properties of the decoding\<close>

lemma decode_files_blank_or_yields:
  assumes "if TrimSpace content = [] then raws = [] else yields E (NewYAMLOrJSONDecoder E content) raws"
    and "list_all (\<lambda>raw. raw = [] \<or> typedFromRaw E raw = Inr (ty raw)) raws"
  shows "file_objects E (name, content) = Some (Inr (map ty (filter (\<lambda>raw. raw \<noteq> []) raws)))"
proof -
  have "typed_docs E name raws = Inr (map ty (filter (\<lambda>raw. raw \<noteq> []) raws))"
    by (rule typed_docs_total) (use assms(2) in \<open>auto simp: list_all_iff\<close>)
  with assms(1) show ?thesis by (auto simp: file_objects_def decode_docs_yields split: if_splits)
qed

text \<open>Property C28: every document counts.  If the decoder yields some documents for each rendered
  template that is not blank, then \<open>io.EOF\<close>, and every document that is not empty can be typed,
  then the result is the typed form of all of them, template by template and document by document:
  none is dropped after the first of a file, and no empty one becomes an object.\<close>
theorem decode_captures_every_document:
  assumes "list_all2 (\<lambda>(name, content) raws.
      if TrimSpace content = [] then raws = [] else yields E (NewYAMLOrJSONDecoder E content) raws)
    rendered docs"
    and "list_all (\<lambda>raw. raw = [] \<or> typedFromRaw E raw = Inr (ty raw)) (concat docs)"
  shows "decode E rendered = Some (Inr (map ty (filter (\<lambda>raw. raw \<noteq> []) (concat docs))))"
proof -
  have "decode_files E rendered objs =
    Some (Inr (objs @ map ty (filter (\<lambda>raw. raw \<noteq> []) (concat docs))))" for objs
    using assms
  proof (induction rendered docs arbitrary: objs rule: list_all2_induct)
    case (Cons f rendered raws docs)
    obtain name content where f: "f = (name, content)" by fastforce
    have "file_objects E f = Some (Inr (map ty (filter (\<lambda>raw. raw \<noteq> []) raws)))"
      unfolding f by (rule decode_files_blank_or_yields) (use Cons f in auto)
    with Cons show ?case by (simp add: decode_files_Cons)
  qed simp
  then show ?thesis by (simp add: decode_def)
qed

text \<open>Go ranges over the rendered templates in no fixed order.  Whether the decoding
  succeeds does not depend on that order, nor does the multiset of objects it returns; only their
  sequence, in which the controller applies them, does.\<close>
lemma decode_order_irrelevant:
  assumes "decode E rendered = Some (Inr objs)" and "mset rendered' = mset rendered"
  shows "\<exists>objs'. decode E rendered' = Some (Inr objs') \<and> mset objs' = mset objs"
proof -
  from assms(2) have "mset (concat (map (template_objects E) rendered')) =
      mset (concat (map (template_objects E) rendered))"
    by (simp add: mset_concat sum_mset_sum_list [symmetric] mset_map del: sum_mset_sum_list)
  moreover from assms have "list_all (decodes E) rendered'"
    by (metis decode_success list_all_iff set_mset_mset)
  ultimately show ?thesis using assms(1) by (auto simp: decode_success)
qed

lemma decode_docs_returns:
  assumes "\<And>d raw d'. Decode E d = (Document raw, d') \<Longrightarrow> m d' < (m d :: nat)"
  shows "\<exists>r. decode_docs E name d objs = Some r"
proof (induction "m d" arbitrary: d objs rule: less_induct)
  case less
  obtain a d' where a: "Decode E d = (a, d')" by fastforce
  show ?case
  proof (cases a)
    case (Document raw)
    with a assms less have "\<exists>r. decode_docs E name d' objs' = Some r" for objs' by blast
    with a Document show ?thesis
      by (subst decode_docs.simps) (auto split: sum.split)
  qed (use a in \<open>simp_all add: decode_docs.simps [of E name d]\<close>)
qed

lemma decode_files_returns:
  assumes "\<And>name d objs. \<exists>r. decode_docs E name d objs = Some r"
  shows "\<exists>r. decode_files E files objs = Some r"
proof (induction files arbitrary: objs)
  case (Cons f files)
  have "file_objects E f \<noteq> None" using assms by (auto simp: file_objects_def)
  with Cons show ?case by (auto simp: decode_files_Cons split: option.split sum.split)
qed simp

text \<open>Property C38: rendering returns.  With a decoder that makes progress (each document it answers
  brings some measure down, such as the bytes still unread) \<open>Chart\<close> ends on every spec, with the
  objects or an error, whatever the other libraries answer.\<close>
theorem Chart_returns:
  fixes m :: "'d \<Rightarrow> nat"
  assumes "\<And>d raw d'. Decode E d = (Document raw, d') \<Longrightarrow> m d' < m d"
  shows "\<exists>r. Chart E name namespace spec = Some r"
proof -
  have "\<exists>r. decode E rendered = Some r" for rendered
    unfolding decode_def by (rule decode_files_returns, rule decode_docs_returns) (rule assms)
  then show ?thesis by (auto simp: Chart_def split: sum.split)
qed

subsection \<open>Properties of the values\<close>

text \<open>Setting a key when there is a value for it.\<close>

definition put :: "string \<Rightarrow> any option \<Rightarrow> go_values \<Rightarrow> go_values" where
  "put k x v = (case x of None \<Rightarrow> v | Some x \<Rightarrow> AList.update k x v)"

lemma map_of_put: "map_of v k = None \<Longrightarrow> map_of (put k x v) = (map_of v)(k := x)"
  by (auto simp: put_def update_conv' split: option.split)

lemma go_map_put [simp]: "go_map v \<Longrightarrow> go_map (put k x v)"
  by (simp add: put_def split: option.split)

lemma plain_values_put:
  "plain_values name namespace spec =
    put ''ingress'' (map_option ingress_value (specIngress spec))
    (put ''ingressClass'' (if IngressClass spec = [] then None else Some (VStr (IngressClass spec)))
    (put ''readinessProbe'' (map_option probe_value (ReadinessProbe spec))
    (put ''livenessProbe'' (map_option probe_value (LivenessProbe spec))
    (base_values name namespace spec))))"
  by (simp add: plain_values_def put_def Let_def option.case_eq_if map_option_case)

lemma go_map_plain_values [simp]: "go_map (plain_values name namespace spec)"
  by (simp add: plain_values_put) (simp add: base_values_def)

lemma base_values_None:
  "map_of (base_values name namespace spec) k = None \<longleftrightarrow>
   k \<notin> {''name'', ''namespace'', ''image'', ''port'', ''autoscale'', ''pdb''}"
  by (auto simp: base_values_def)

lemma map_of_plain_values:
  "map_of (plain_values name namespace spec) = (map_of (base_values name namespace spec))
    (''livenessProbe'' := map_option probe_value (LivenessProbe spec),
     ''readinessProbe'' := map_option probe_value (ReadinessProbe spec),
     ''ingressClass'' := (if IngressClass spec = [] then None else Some (VStr (IngressClass spec))),
     ''ingress'' := map_option ingress_value (specIngress spec))"
  by (simp add: plain_values_put map_of_put base_values_None)

text \<open>The three conversions, each of them only made when the spec asks for it.\<close>

definition resources_value ::
  "('ch, 'd, 't, 'k) ChartEnv \<Rightarrow> 'k WorkloadSpec \<Rightarrow> any option go" where
  "resources_value E spec =
    (if Requests (Resources spec) = None \<and> Limits (Resources spec) = None then Inr None
     else map_sum id (\<lambda>res. if res = [] then None else Some (VMap res))
       (ResourcesToUnstructured E (Resources spec)))"

definition override_value :: "('k \<Rightarrow> go_values go) \<Rightarrow> 'k option \<Rightarrow> any option go" where
  "override_value convert override =
    (case override of None \<Rightarrow> Inr None | Some c \<Rightarrow> map_sum id (\<lambda>m. Some (VMap m)) (convert c))"

lemma valuesFromSpec_put:
  "valuesFromSpec E name namespace spec =
    (case resources_value E spec of
       Inl err \<Rightarrow> Inl (''convert spec.resources: '' @ err)
     | Inr r \<Rightarrow> (case override_value (SecurityToUnstructured E) (SecurityContext spec) of
           Inl err \<Rightarrow> Inl (''convert spec.securityContext: '' @ err)
         | Inr s \<Rightarrow> (case override_value (PodSecurityToUnstructured E) (PodSecurityContext spec) of
               Inl err \<Rightarrow> Inl (''convert spec.podSecurityContext: '' @ err)
             | Inr p \<Rightarrow> Inr (put ''podSecurityContext'' p (put ''securityContext'' s
                 (put ''resources'' r (plain_values name namespace spec)))))))"
proof -
  have res: "(if Requests (Resources spec) \<noteq> None \<or> Limits (Resources spec) \<noteq> None
      then (case ResourcesToUnstructured E (Resources spec) of
          Inl err \<Rightarrow> Inl (''convert spec.resources: '' @ err)
        | Inr res \<Rightarrow> Inr (if 0 < length res then AList.update ''resources'' (VMap res) v else v))
      else Inr v) =
    (case resources_value E spec of
       Inl err \<Rightarrow> Inl (''convert spec.resources: '' @ err) | Inr r \<Rightarrow> Inr (put ''resources'' r v))" for v
    by (cases "ResourcesToUnstructured E (Resources spec)") (auto simp: resources_value_def put_def)
  have override: "(case c of
      None \<Rightarrow> Inr v
    | Some c \<Rightarrow> (case convert c of
        Inl err \<Rightarrow> Inl (msg @ err) | Inr sc \<Rightarrow> Inr (AList.update key (VMap sc) v))) =
    (case override_value convert c of Inl err \<Rightarrow> Inl (msg @ err) | Inr s \<Rightarrow> Inr (put key s v))"
    for c :: "'d option" and convert msg key v
    by (cases c) (auto simp: override_value_def put_def split: sum.split)
  show ?thesis
    unfolding valuesFromSpec_def Let_def res override
    by (cases "resources_value E spec"; cases "override_value (SecurityToUnstructured E) (SecurityContext spec)")
      simp_all
qed

lemma values_of_spec:
  "case valuesFromSpec E name namespace spec of
     Inl _ \<Rightarrow> isl (resources_value E spec) \<or>
       isl (override_value (SecurityToUnstructured E) (SecurityContext spec)) \<or>
       isl (override_value (PodSecurityToUnstructured E) (PodSecurityContext spec))
   | Inr v \<Rightarrow> go_map v \<and> map_of v =
       [''name'' \<mapsto> VStr name, ''namespace'' \<mapsto> VStr namespace, ''image'' \<mapsto> VStr (Image spec),
        ''port'' \<mapsto> VInt (sint (Port spec)),
        ''autoscale'' \<mapsto> VMap
          [(''minReplicas'', VInt (sint (MinReplicas (specAutoscale spec)))),
           (''maxReplicas'', VInt (sint (MaxReplicas (specAutoscale spec)))),
           (''targetCPUUtilization'', VInt (sint (TargetCPUUtilization (specAutoscale spec))))],
        ''pdb'' \<mapsto> VMap [(''minAvailable'', VInt 1)]]
       (''livenessProbe'' := map_option probe_value (LivenessProbe spec),
        ''readinessProbe'' := map_option probe_value (ReadinessProbe spec),
        ''ingressClass'' := (if IngressClass spec = [] then None else Some (VStr (IngressClass spec))),
        ''ingress'' := map_option ingress_value (specIngress spec),
        ''resources'' := projr (resources_value E spec),
        ''securityContext'' := projr (override_value (SecurityToUnstructured E) (SecurityContext spec)),
        ''podSecurityContext'' :=
          projr (override_value (PodSecurityToUnstructured E) (PodSecurityContext spec)))"
proof -
  have base: "map_of (base_values name namespace spec) =
      [''name'' \<mapsto> VStr name, ''namespace'' \<mapsto> VStr namespace, ''image'' \<mapsto> VStr (Image spec),
       ''port'' \<mapsto> VInt (sint (Port spec)),
       ''autoscale'' \<mapsto> VMap
         [(''minReplicas'', VInt (sint (MinReplicas (specAutoscale spec)))),
          (''maxReplicas'', VInt (sint (MaxReplicas (specAutoscale spec)))),
          (''targetCPUUtilization'', VInt (sint (TargetCPUUtilization (specAutoscale spec))))],
       ''pdb'' \<mapsto> VMap [(''minAvailable'', VInt 1)]]"
    by (rule ext) (simp add: base_values_def)
  show ?thesis
    by (simp add: valuesFromSpec_put map_of_put map_of_plain_values base split: sum.split)
qed

text \<open>Nothing of the spec is lost or invented on the way to the chart.  The conversion
  fails exactly if one of the three overrides the spec sets cannot be converted, and never goes on
  without it; otherwise the values are a map with the six fixed keys and, for each optional field, its
  key exactly if the spec sets the field (for the resources: to something not empty), an ingress with
  its path and path type defaulted.\<close>
lemma values_carry_the_spec:
  "case valuesFromSpec E name namespace spec of
     Inl _ \<Rightarrow> isl (resources_value E spec) \<or>
       isl (override_value (SecurityToUnstructured E) (SecurityContext spec)) \<or>
       isl (override_value (PodSecurityToUnstructured E) (PodSecurityContext spec))
   | Inr v \<Rightarrow> go_map v \<and> map_of v =
       [''name'' \<mapsto> VStr name, ''namespace'' \<mapsto> VStr namespace, ''image'' \<mapsto> VStr (Image spec),
        ''port'' \<mapsto> VInt (sint (Port spec)),
        ''autoscale'' \<mapsto> VMap
          [(''minReplicas'', VInt (sint (MinReplicas (specAutoscale spec)))),
           (''maxReplicas'', VInt (sint (MaxReplicas (specAutoscale spec)))),
           (''targetCPUUtilization'', VInt (sint (TargetCPUUtilization (specAutoscale spec))))],
        ''pdb'' \<mapsto> VMap [(''minAvailable'', VInt 1)]]
       (''livenessProbe'' := map_option probe_value (LivenessProbe spec),
        ''readinessProbe'' := map_option probe_value (ReadinessProbe spec),
        ''ingressClass'' := (if IngressClass spec = [] then None else Some (VStr (IngressClass spec))),
        ''ingress'' := map_option ingress_value (specIngress spec),
        ''resources'' := projr (resources_value E spec),
        ''securityContext'' := projr (override_value (SecurityToUnstructured E) (SecurityContext spec)),
        ''podSecurityContext'' :=
          projr (override_value (PodSecurityToUnstructured E) (PodSecurityContext spec)))"
  by (rule values_of_spec)

subsection \<open>A chart to try the properties on\<close>

text \<open>
  A decoder that splits its text at semicolons and reads each piece as the document with that kind,
  or as an empty one, with typed objects of that kind.
\<close>

fun next_piece :: "string list \<Rightarrow> decoded \<times> string list" where
  "next_piece [] = (Eof, [])"
| "next_piece (p # ps) = (Document (if p = [] then [] else [(''kind'', VStr p)]), ps)"

definition sample_meta :: ObjectMeta where
  "sample_meta = \<lparr>Kind = [], APIVersion = [], metaName = ''demo'', metaNamespace = ''apps'', UID = ''u1'',
    Generation = 1, Labels = None, Annotations = None, OwnerReferences = []\<rparr>"

definition sample_spec :: "unit WorkloadSpec" where
  "sample_spec = \<lparr>Image = ''nginx:1.27'', Port = 8080, RolloutStrategy = ''Canary'',
    specAutoscale = \<lparr>MinReplicas = 2, MaxReplicas = 10, TargetCPUUtilization = 70\<rparr>,
    LivenessProbe = None, ReadinessProbe = None,
    Resources = \<lparr>Limits = None, Requests = None, Claims = None\<rparr>,
    SecurityContext = None, PodSecurityContext = None, IngressClass = [], specIngress = None\<rparr>"

definition sample_kind :: "go_values \<Rightarrow> string" where
  "sample_kind raw = (case map_of raw ''kind'' of Some (VStr k) \<Rightarrow> k | _ \<Rightarrow> [])"

definition sample_object :: "go_values \<Rightarrow> unit ClientObject" where
  "sample_object raw = NetworkPolicy
    (sample_meta\<lparr>metaName := sample_kind raw, Kind := sample_kind raw\<rparr>) ()"

definition sample_env :: "(unit, string list, go_values, unit) ChartEnv" where
  "sample_env = \<lparr>
     Sub = (\<lambda>_. Inr []), LoadFiles = (\<lambda>_. Inr ()),
     ResourcesToUnstructured = (\<lambda>_. Inr []), SecurityToUnstructured = (\<lambda>_. Inr []),
     PodSecurityToUnstructured = (\<lambda>_. Inr []),
     ValidateAgainstSchema = (\<lambda>_ _. Inr ()), ToRenderValues = (\<lambda>_ v _. Inr v),
     Render = (\<lambda>_ _. Inr [(''a.yaml'', ''x;;y''), (''b.yaml'', [])]),
     NewYAMLOrJSONDecoder = (\<lambda>content. Split content (CHR '';'')),
     Decode = next_piece,
     GroupVersionKind = (\<lambda>raw. \<lparr>gvkGroup = [], gvkVersion = ''v1'', gvkKind = sample_kind raw\<rparr>),
     showGVK = gvkKind, SchemeNew = (\<lambda>_. Inr []), FromUnstructured = (\<lambda>raw _. Inr raw),
     asClientObject = (\<lambda>raw. Some (NetworkPolicy (sample_meta\<lparr>metaName := sample_kind raw\<rparr>) ())),
     SetGroupVersionKind = (\<lambda>gvk. map_meta (\<lambda>m. m\<lparr>Kind := gvkKind gvk\<rparr>))\<rparr>"

lemma sample_env_yields: "yields sample_env ps (map (\<lambda>p. if p = [] then [] else [(''kind'', VStr p)]) ps)"
  by (induction ps) (auto simp: sample_env_def intro!: yields.intros)

lemma sample_typed: "typedFromRaw sample_env raw = Inr (sample_object raw)"
  by (simp add: typedFromRaw_def sample_env_def sample_object_def)

lemma sample_file_objects:
  assumes "\<forall>c \<in> set content. 32 < byte c \<and> byte c < 128" and "content \<noteq> []"
  shows "file_objects sample_env (name, content) = Some (Inr (map sample_object
    (filter (\<lambda>raw. raw \<noteq> []) (map (\<lambda>p. if p = [] then [] else [(''kind'', VStr p)]) (Split content (CHR '';''))))))"
proof (rule decode_files_blank_or_yields)
  have "NewYAMLOrJSONDecoder sample_env content = Split content (CHR '';'')"
    by (simp add: sample_env_def)
  with assms sample_env_yields [of "Split content (CHR '';'')"] TrimSpace_printable [of content]
  show "if TrimSpace content = [] then map (\<lambda>p. if p = [] then [] else [(''kind'', VStr p)]) (Split content (CHR '';'')) = []
    else yields sample_env (NewYAMLOrJSONDecoder sample_env content)
      (map (\<lambda>p. if p = [] then [] else [(''kind'', VStr p)]) (Split content (CHR '';'')))"
    by simp
qed (simp add: sample_typed list_all_iff)

text \<open>Two documents and an empty one in the first template, a blank second template.\<close>

theorem decode_captures_witness:
  "decode sample_env [(''a.yaml'', ''x;;y''), (''b.yaml'', [])] =
   Some (Inr [sample_object [(''kind'', VStr ''x'')], sample_object [(''kind'', VStr ''y'')]])"
proof -
  have t: "TrimSpace ''x;;y'' = ''x;;y''" "TrimSpace [] = []" by (rule TrimSpace_printable, simp)+
  have s: "NewYAMLOrJSONDecoder sample_env ''x;;y'' = [''x'', [], ''y'']"
    by (simp add: sample_env_def)
  from sample_env_yields [of "[''x'', [], ''y'']"] t s
  have "decode sample_env [(''a.yaml'', ''x;;y''), (''b.yaml'', [])] = Some (Inr (map sample_object
      (filter (\<lambda>raw. raw \<noteq> []) (concat [[[(''kind'', VStr ''x'')], [], [(''kind'', VStr ''y'')]], []]))))"
    by (intro decode_captures_every_document) (simp_all add: sample_typed)
  then show ?thesis by simp
qed

lemma sample_decode:
  "decode sample_env [(''a.yaml'', ''x;;y''), (''b.yaml'', [])] =
   Some (Inr [sample_object [(''kind'', VStr ''x'')], sample_object [(''kind'', VStr ''y'')]])"
proof -
  have "TrimSpace [] = []" by (rule TrimSpace_printable) simp
  then show ?thesis by (simp add: decode_def decode_files_Cons sample_file_objects) (simp add: file_objects_def)
qed

theorem decode_order_witness:
  "\<exists>objs. decode sample_env [(''b.yaml'', []), (''a.yaml'', ''x;;y'')] = Some (Inr objs) \<and>
    mset objs = {#sample_object [(''kind'', VStr ''x'')], sample_object [(''kind'', VStr ''y'')]#}"
  using decode_order_irrelevant [OF sample_decode, of "[(''b.yaml'', []), (''a.yaml'', ''x;;y'')]"]
  by simp

theorem Chart_returns_witness:
  "\<exists>r. Chart sample_env ''demo'' ''apps'' sample_spec = Some r"
  by (rule Chart_returns [where m = length]) (auto simp: sample_env_def elim!: next_piece.elims)

lemma sample_Chart:
  "Chart sample_env name namespace spec =
   Some (Inr [sample_object [(''kind'', VStr ''x'')], sample_object [(''kind'', VStr ''y'')]])"
proof -
  have "\<exists>v. valuesFromSpec sample_env name namespace spec = Inr v"
    by (simp add: valuesFromSpec_put resources_value_def override_value_def sample_env_def split: option.split)
  moreover have "loadEmbeddedChart sample_env = Inr ()" by (simp add: loadEmbeddedChart_def sample_env_def)
  moreover have "ValidateAgainstSchema sample_env c v = Inr ()" "ToRenderValues sample_env c v opts = Inr v"
    "Render sample_env c v = Inr [(''a.yaml'', ''x;;y''), (''b.yaml'', [])]" for c v opts
    by (simp_all add: sample_env_def)
  ultimately show ?thesis by (auto simp: Chart_def sample_decode)
qed

end
