(* ===== verification/Chart_Schema.thy ===== *)
theory Chart_Schema
  imports Renderer
begin

text \<open>
  \<open>charts/workload/values.schema.json\<close>, the schema Helm checks the values of the chart against before it
  renders them, with the keywords of JSON Schema the file uses.  The file is related to the values
  \<open>valuesFromSpec\<close> makes and to the validation markers of the API.
\<close>

subsection \<open>The schema of the values\<close>

text \<open>
  The keywords of JSON Schema the file uses.  A keyword about one type of value holds of every
  other.  \<open>MinLength\<close> counts bytes, which for the length 1 of the file is the same as characters.
\<close>

datatype keyword =
    Type string
  | Required "string list"
  | Properties "(string \<times> keyword list) list"
  | MinLength nat
  | Minimum int
  | Maximum int
  | Enum "string list"
  | Dependencies "(string \<times> string list) list"
  | Pattern string
  | IfThen "keyword list" "keyword list"
  | Const any

fun has_type :: "string \<Rightarrow> any \<Rightarrow> bool" where
  "has_type t (VMap _) = (t = ''object'')"
| "has_type t (VStr _) = (t = ''string'')"
| "has_type t (VInt _) = (t = ''integer'')"
| "has_type t (VBool _) = (t = ''boolean'')"
| "has_type t _ = False"

text \<open>\<open>re p s\<close> is whether the regular expression \<open>p\<close> matches \<open>s\<close>.\<close>

fun holds :: "(string \<Rightarrow> string \<Rightarrow> bool) \<Rightarrow> keyword \<Rightarrow> any \<Rightarrow> bool"
  and valid :: "(string \<Rightarrow> string \<Rightarrow> bool) \<Rightarrow> keyword list \<Rightarrow> any \<Rightarrow> bool"
  and properties_valid :: "(string \<Rightarrow> string \<Rightarrow> bool) \<Rightarrow> (string \<times> keyword list) list \<Rightarrow> go_values \<Rightarrow> bool" where
  "holds re (Type t) x = has_type t x"
| "holds re (Required ks) x = (case x of VMap m \<Rightarrow> list_all (\<lambda>k. map_of m k \<noteq> None) ks | _ \<Rightarrow> True)"
| "holds re (Properties ps) x = (case x of VMap m \<Rightarrow> properties_valid re ps m | _ \<Rightarrow> True)"
| "holds re (MinLength n) x = (case x of VStr s \<Rightarrow> n \<le> length s | _ \<Rightarrow> True)"
| "holds re (Minimum n) x = (case x of VInt i \<Rightarrow> n \<le> i | _ \<Rightarrow> True)"
| "holds re (Maximum n) x = (case x of VInt i \<Rightarrow> i \<le> n | _ \<Rightarrow> True)"
| "holds re (Enum ss) x = (case x of VStr s \<Rightarrow> s \<in> set ss | _ \<Rightarrow> False)"
| "holds re (Dependencies ds) x = (case x of
     VMap m \<Rightarrow> list_all (\<lambda>(k, ks). map_of m k \<noteq> None \<longrightarrow> list_all (\<lambda>k. map_of m k \<noteq> None) ks) ds
   | _ \<Rightarrow> True)"
| "holds re (Pattern p) x = (case x of VStr s \<Rightarrow> re p s | _ \<Rightarrow> True)"
| "holds re (IfThen c t) x = (valid re c x \<longrightarrow> valid re t x)"
| "holds re (Const c) x = (x = c)"
| "valid re [] x = True"
| "valid re (k # ks) x = (holds re k x \<and> valid re ks x)"
| "properties_valid re [] m = True"
| "properties_valid re ((k, s) # ps) m =
    ((case map_of m k of None \<Rightarrow> True | Some x \<Rightarrow> valid re s x) \<and> properties_valid re ps m)"

definition probe_schema :: "keyword list" where
  "probe_schema =
    [Type ''object'',
     Properties [(''path'', [Type ''string'', MinLength 1]),
       (''port'', [Type ''integer'', Minimum 1, Maximum 65535])],
     Dependencies [(''path'', [''port''])]]"

definition ingress_schema :: "keyword list" where
  "ingress_schema =
    [Type ''object'',
     Properties [(''enabled'', [Type ''boolean'']), (''host'', [Type ''string'']), (''path'', [Type ''string'']),
       (''pathType'', [Type ''string'', Enum [''Prefix'', ''Exact'', ''ImplementationSpecific'']])],
     IfThen [Properties [(''enabled'', [Const (VBool True)])]]
       [Properties [(''host'', [Type ''string'', MinLength 1])], Required [''host'']]]"

definition metadataIP_pattern :: string where
  "metadataIP_pattern = ''^([0-9]{1,3}'' @ [CHR 0x5C] @ ''.){3}[0-9]{1,3}/[0-9]{1,2}$''"

definition values_schema :: "keyword list" where
  "values_schema =
    [Type ''object'',
     Required [''name'', ''namespace'', ''image'', ''port'', ''autoscale''],
     Properties
       [(''name'', [Type ''string'', MinLength 1]),
        (''namespace'', [Type ''string'', MinLength 1]),
        (''image'', [Type ''string'', MinLength 1]),
        (''port'', [Type ''integer'', Minimum 1, Maximum 65535]),
        (''autoscale'', [Type ''object'',
          Required [''minReplicas'', ''maxReplicas'', ''targetCPUUtilization''],
          Properties [(''minReplicas'', [Type ''integer'', Minimum 1]),
            (''maxReplicas'', [Type ''integer'', Minimum 1]),
            (''targetCPUUtilization'', [Type ''integer'', Minimum 1, Maximum 100])]]),
        (''livenessProbe'', probe_schema),
        (''readinessProbe'', probe_schema),
        (''resources'', [Type ''object'']),
        (''podSecurityContext'', [Type ''object'']),
        (''securityContext'', [Type ''object'']),
        (''ingressClass'', [Type ''string'']),
        (''ingress'', ingress_schema),
        (''pdb'', [Type ''object'', Properties [(''minAvailable'', [Type ''integer'', Minimum 0])]]),
        (''networkPolicy'', [Type ''object'',
          Properties [(''enabled'', [Type ''boolean'']),
            (''metadataIP'', [Type ''string'', Pattern metadataIP_pattern])]])]]"

subsection \<open>The schema and the validation of the API\<close>

definition port_in_range :: "int32 \<Rightarrow> bool" where
  "port_in_range p \<longleftrightarrow> 1 \<le> sint p \<and> sint p \<le> 65535"

text \<open>What the schema asks of a spec.\<close>

definition chart_accepts :: "'k WorkloadSpec \<Rightarrow> bool" where
  "chart_accepts s \<longleftrightarrow> Image s \<noteq> [] \<and> port_in_range (Port s) \<and>
    1 \<le> sint (MinReplicas (specAutoscale s)) \<and> 1 \<le> sint (MaxReplicas (specAutoscale s)) \<and>
    1 \<le> sint (TargetCPUUtilization (specAutoscale s)) \<and> sint (TargetCPUUtilization (specAutoscale s)) \<le> 100 \<and>
    pred_option (\<lambda>p. probePath p \<noteq> [] \<and> port_in_range (probePort p)) (LivenessProbe s) \<and>
    pred_option (\<lambda>p. probePath p \<noteq> [] \<and> port_in_range (probePort p)) (ReadinessProbe s) \<and>
    pred_option (\<lambda>i. Host i \<noteq> [] \<and> PathType i \<in> {[]} \<union> set path_types) (specIngress s)"

lemma probe_schema_valid:
  "valid re probe_schema (probe_value p) \<longleftrightarrow> probePath p \<noteq> [] \<and> port_in_range (probePort p)"
  by (cases "probePath p") (auto simp: probe_schema_def probe_value_def port_in_range_def)

lemma ingress_schema_valid:
  "valid re ingress_schema (ingress_value i) \<longleftrightarrow> Host i \<noteq> [] \<and> PathType i \<in> {[]} \<union> set path_types"
  by (cases "Host i") (auto simp: ingress_schema_def ingress_value_def Let_def path_types_def)

lemma case_option_True: "(case x of None \<Rightarrow> True | Some a \<Rightarrow> P a) = pred_option P x"
  by (cases x) simp_all

lemma resources_value_object:
  "resources_value E spec = Inr (Some x) \<Longrightarrow> \<exists>m. x = VMap m"
  by (auto simp: resources_value_def map_sum_def split: if_splits sum.splits)

lemma override_value_object: "override_value f c = Inr (Some x) \<Longrightarrow> \<exists>m. x = VMap m"
  by (auto simp: override_value_def map_sum_def split: option.splits sum.splits)

lemma projr_object:
  assumes "\<not> isl r" and "\<And>x. r = Inr (Some x) \<Longrightarrow> \<exists>m. x = VMap m"
  shows "pred_option (valid re [Type ''object'']) (projr r)"
  using assms by (cases r; cases "projr r") auto

lemma values_schema_valid:
  assumes "valuesFromSpec E name namespace spec = Inr v"
  shows "valid re values_schema (VMap v) \<longleftrightarrow> name \<noteq> [] \<and> namespace \<noteq> [] \<and> chart_accepts spec"
proof -
  note v = values_of_spec [where E = E and name = name and namespace = namespace and spec = spec,
    unfolded assms sum.case, THEN conjunct2]
  have parts: "\<not> isl (resources_value E spec)"
    "\<not> isl (override_value (SecurityToUnstructured E) (SecurityContext spec))"
    "\<not> isl (override_value (PodSecurityToUnstructured E) (PodSecurityContext spec))"
    using assms by (auto simp: valuesFromSpec_put split: sum.splits)
  have res: "pred_option (valid re [Type ''object'']) (projr (resources_value E spec))"
    by (rule projr_object [OF parts(1) resources_value_object])
  have sec: "pred_option (valid re [Type ''object''])
      (projr (override_value (SecurityToUnstructured E) (SecurityContext spec)))"
    by (rule projr_object [OF parts(2) override_value_object])
  have pod: "pred_option (valid re [Type ''object''])
      (projr (override_value (PodSecurityToUnstructured E) (PodSecurityContext spec)))"
    by (rule projr_object [OF parts(3) override_value_object])
  show ?thesis
    by (cases name; cases namespace; cases "Image spec")
      (simp_all add: values_schema_def v res sec pod probe_schema_valid ingress_schema_valid
        case_option_True option.pred_map comp_def chart_accepts_def port_in_range_def conj_ac)
qed

text \<open>Property C20: what the API server admits and the chart does not.  A valid spec passes the schema of
  the chart exactly if it has an image and its ports are at most 65535 and its probes have a path; the
  markers of the API demand none of these, so such a Workload is stored and then never renders.
  Everything else the schema asks for the markers guarantee.\<close>
theorem admitted_specs_and_the_schema:
  assumes "admitted (Some spec)" and "name \<noteq> []" and "namespace \<noteq> []"
    and "valuesFromSpec E name namespace spec = Inr v"
  shows "valid re values_schema (VMap v) \<longleftrightarrow> Image spec \<noteq> [] \<and> sint (Port spec) \<le> 65535 \<and>
    pred_option (\<lambda>p. probePath p \<noteq> [] \<and> sint (probePort p) \<le> 65535) (LivenessProbe spec) \<and>
    pred_option (\<lambda>p. probePath p \<noteq> [] \<and> sint (probePort p) \<le> 65535) (ReadinessProbe spec)"
  using assms unfolding values_schema_valid [OF assms(4)]
  by (cases "LivenessProbe spec"; cases "ReadinessProbe spec"; cases "specIngress spec")
    (auto simp: admitted_def spec_valid_def chart_accepts_def port_in_range_def probe_valid_def
      autoscale_valid_def ingress_valid_def)

text \<open>A Workload without a spec is admitted too, and never renders.\<close>

lemma missing_spec_never_renders:
  "admitted None \<and> \<not> chart_accepts (stored_spec None)"
  by (simp add: admitted_def stored_spec_def zero_spec_def chart_accepts_def)

theorem admitted_specs_witness:
  "valid (\<lambda>_ _. False) values_schema (VMap (base_values ''demo'' ''apps'' sample_spec))"
proof -
  have "admitted (Some sample_spec)"
    by (simp add: admitted_def spec_valid_def sample_spec_def autoscale_valid_def RolloutCanary_def)
  moreover have "valuesFromSpec sample_env ''demo'' ''apps'' sample_spec =
      Inr (base_values ''demo'' ''apps'' sample_spec)"
    by (simp add: valuesFromSpec_def plain_values_def sample_spec_def)
  ultimately show ?thesis
    using admitted_specs_and_the_schema [of sample_spec "''demo''" "''apps''" sample_env]
    by (simp add: sample_spec_def)
qed

end
