(* ===== verification/Chart_Templates.thy ===== *)
theory Chart_Templates
  imports Chart_Schema
begin

text \<open>
  \<open>charts/workload\<close>: the defaults of the values (\<open>values.yaml\<close>) and the templates, as functions from the
  values to the documents a YAML reader finds in the rendered text.
\<close>

subsection \<open>The values a template sees\<close>

text \<open>\<open>values.yaml\<close>\<close>

definition chart_defaults :: go_values where
  "chart_defaults =
    [(''name'', VStr []), (''namespace'', VStr []), (''image'', VStr []), (''port'', VInt 8080),
     (''autoscale'', VMap [(''minReplicas'', VInt 2), (''maxReplicas'', VInt 10),
       (''targetCPUUtilization'', VInt 70)]),
     (''livenessProbe'', VMap []), (''readinessProbe'', VMap []), (''resources'', VMap []),
     (''podSecurityContext'', VMap []), (''securityContext'', VMap []), (''ingressClass'', VStr []),
     (''ingress'', VMap [(''enabled'', VBool False), (''host'', VStr []), (''path'', VStr ''/''),
       (''pathType'', VStr ''Prefix'')]),
     (''pdb'', VMap [(''minAvailable'', VInt 1)]),
     (''networkPolicy'', VMap [(''enabled'', VBool True), (''metadataIP'', VStr ''169.254.169.254/32'')])]"

text \<open>
  \<open>coalesced v d m\<close>: Helm lays the given values \<open>v\<close> over the defaults \<open>d\<close>, table by table (the tables
  of the defaults hold no tables themselves).
\<close>

definition coalesced :: "go_values \<Rightarrow> go_values \<Rightarrow> go_values \<Rightarrow> bool" where
  "coalesced v d m \<longleftrightarrow> (\<forall>k. case (map_of v k, map_of d k) of
     (None, y) \<Rightarrow> map_of m k = y
   | (Some (VMap a), Some (VMap b)) \<Rightarrow>
       (case map_of m k of
          Some (VMap c) \<Rightarrow> map_of c = map_of b ++ map_of a \<and> (c = [] \<longleftrightarrow> a = [] \<and> b = [])
        | _ \<Rightarrow> False)
   | (Some x, _) \<Rightarrow> map_of m k = Some x)"

text \<open>\<open>.k\<close> in a template, and the truth of \<open>if\<close>, \<open>with\<close> and \<open>default\<close>.\<close>

definition field :: "string \<Rightarrow> any \<Rightarrow> any" where
  "field k x = (case x of VMap m \<Rightarrow> (case map_of m k of None \<Rightarrow> VNil | Some y \<Rightarrow> y) | _ \<Rightarrow> VNil)"

fun go_true :: "any \<Rightarrow> bool" where
  "go_true VNil = False"
| "go_true (VBool b) = b"
| "go_true (VInt i) = (i \<noteq> 0)"
| "go_true (VFloat f) = (f \<noteq> ''0'')"
| "go_true (VStr s) = (s \<noteq> [])"
| "go_true (VList xs) = (xs \<noteq> [])"
| "go_true (VMap m) = (m \<noteq> [])"

definition or_default :: "any \<Rightarrow> any \<Rightarrow> any" where
  "or_default d x = (if go_true x then x else d)"

text \<open>
  A value written into the text and read back as YAML: \<open>yaml s\<close> is what the reader makes of the plain
  scalar \<open>s\<close>, a string, or a number, a boolean or null for a text that looks like one.  A quoted string
  and the output of \<open>toYaml\<close> read back as they were.
\<close>

fun plain :: "(string \<Rightarrow> any) \<Rightarrow> any \<Rightarrow> any" where
  "plain yaml (VStr s) = yaml s"
| "plain yaml x = x"

definition suffixed :: "(string \<Rightarrow> any) \<Rightarrow> any \<Rightarrow> string \<Rightarrow> any" where
  "suffixed yaml x sfx = (case x of VStr s \<Rightarrow> yaml (s @ sfx) | _ \<Rightarrow> VNil)"

subsection \<open>The values of a spec, field by field\<close>

lemma field_VMap [simp]: "map_of m k = Some x \<Longrightarrow> field k (VMap m) = x"
  by (simp add: field_def)

lemma field_missing [simp]: "map_of m k = None \<Longrightarrow> field k (VMap m) = VNil"
  by (simp add: field_def)

lemma field_VNil [simp]: "field k VNil = VNil"
  by (simp add: field_def)

fun is_table :: "any \<Rightarrow> bool" where
  "is_table (VMap _) = True"
| "is_table _ = False"

lemma coalesced_given:
  assumes "coalesced v d m" and "map_of v k = Some x" and "\<not> is_table x \<or> map_of d k = None"
  shows "field k (VMap m) = x"
proof -
  from assms(1) have "case (map_of v k, map_of d k) of
     (None, y) \<Rightarrow> map_of m k = y
   | (Some (VMap a), Some (VMap b)) \<Rightarrow>
       (case map_of m k of
          Some (VMap c) \<Rightarrow> map_of c = map_of b ++ map_of a \<and> (c = [] \<longleftrightarrow> a = [] \<and> b = [])
        | _ \<Rightarrow> False)
   | (Some x, _) \<Rightarrow> map_of m k = Some x" by (simp add: coalesced_def)
  with assms(2,3) show ?thesis by (cases x) (auto split: option.splits)
qed

lemma coalesced_default:
  assumes "coalesced v d m" and "map_of v k = None"
  shows "field k (VMap m) = (case map_of d k of None \<Rightarrow> VNil | Some y \<Rightarrow> y)"
proof -
  from assms have "map_of m k = map_of d k" by (auto simp: coalesced_def dest: spec [of _ k])
  then show ?thesis by (simp add: field_def)
qed

definition the_default :: "'a \<Rightarrow> 'a option \<Rightarrow> 'a" where
  "the_default d x = (case x of None \<Rightarrow> d | Some y \<Rightarrow> y)"

lemma the_default_simps [simp]: "the_default d None = d" "the_default d (Some y) = y"
  by (simp_all add: the_default_def)

lemma coalesced_table:
  assumes "coalesced v d m" and "map_of v k = Some (VMap a)" and "map_of d k = Some (VMap b)"
  obtains c where "field k (VMap m) = VMap c" and "map_of c = map_of b ++ map_of a"
    and "c = [] \<longleftrightarrow> a = [] \<and> b = []"
proof -
  from assms have "case map_of m k of
      Some (VMap c) \<Rightarrow> map_of c = map_of b ++ map_of a \<and> (c = [] \<longleftrightarrow> a = [] \<and> b = [])
    | _ \<Rightarrow> False" by (auto simp: coalesced_def dest: spec [of _ k])
  then show thesis using that by (auto split: option.splits any.splits)
qed

text \<open>The table of a spec's values, and what the templates see of it.\<close>

definition spec_map ::
  "('ch, 'd, 't, 'k) ChartEnv \<Rightarrow> string \<Rightarrow> string \<Rightarrow> 'k WorkloadSpec \<Rightarrow> string \<rightharpoonup> any" where
  "spec_map E name namespace spec =
     [''name'' \<mapsto> VStr name, ''namespace'' \<mapsto> VStr namespace, ''image'' \<mapsto> VStr (Image spec),
      ''port'' \<mapsto> VInt (sint (Port spec)),
      ''autoscale'' \<mapsto> VMap
        [(''minReplicas'', VInt (sint (MinReplicas (specAutoscale spec)))),
         (''maxReplicas'', VInt (sint (MaxReplicas (specAutoscale spec)))),
         (''targetCPUUtilization'', VInt (sint (TargetCPUUtilization (specAutoscale spec))))],
      ''pdb'' \<mapsto> VMap [(''minAvailable'', VInt 1)]]
     (''livenessProbe'' := map_option probe_value (LivenessProbe spec),
      ''readinessProbe'' := map_option probe_value (ReadinessProbe spec),
      ''ingressClass'' := (if IngressClass spec = [] then None else Some (VStr (IngressClass spec))),
      ''ingress'' := map_option ingress_value (specIngress spec),
      ''resources'' := projr (resources_value E spec),
      ''securityContext'' := projr (override_value (SecurityToUnstructured E) (SecurityContext spec)),
      ''podSecurityContext'' :=
        projr (override_value (PodSecurityToUnstructured E) (PodSecurityContext spec)))"

definition spec_values ::
  "('ch, 'd, 't, 'k) ChartEnv \<Rightarrow> string \<Rightarrow> string \<Rightarrow> 'k WorkloadSpec \<Rightarrow> go_values \<Rightarrow> bool" where
  "spec_values E name namespace spec m \<longleftrightarrow>
    (\<exists>v. valuesFromSpec E name namespace spec = Inr v \<and> coalesced v chart_defaults m)"

lemma spec_valuesE:
  assumes "spec_values E name namespace spec m"
  obtains v where "coalesced v chart_defaults m" and "map_of v = spec_map E name namespace spec"
  using assms that values_of_spec [where E = E and name = name and namespace = namespace and spec = spec]
  by (auto simp: spec_values_def spec_map_def)

named_theorems chart_fields \<open>the values of a spec as the templates read them\<close>

lemma spec_scalars [chart_fields]:
  assumes "spec_values E name namespace spec m"
  shows "field ''name'' (VMap m) = VStr name" "field ''namespace'' (VMap m) = VStr namespace"
    "field ''image'' (VMap m) = VStr (Image spec)" "field ''port'' (VMap m) = VInt (sint (Port spec))"
    "field ''ingressClass'' (VMap m) = VStr (IngressClass spec)"
proof -
  obtain v where c: "coalesced v chart_defaults m" and v: "map_of v = spec_map E name namespace spec"
    using assms by (rule spec_valuesE)
  show "field ''name'' (VMap m) = VStr name" "field ''namespace'' (VMap m) = VStr namespace"
    "field ''image'' (VMap m) = VStr (Image spec)" "field ''port'' (VMap m) = VInt (sint (Port spec))"
    by (rule coalesced_given [OF c]; simp add: v spec_map_def)+
  show "field ''ingressClass'' (VMap m) = VStr (IngressClass spec)"
    by (cases "IngressClass spec = []")
      (simp_all add: coalesced_default [OF c] coalesced_given [OF c] v spec_map_def chart_defaults_def)
qed

lemma spec_autoscale [chart_fields]:
  assumes "spec_values E name namespace spec m"
  shows "field ''minReplicas'' (field ''autoscale'' (VMap m)) = VInt (sint (MinReplicas (specAutoscale spec)))"
    "field ''maxReplicas'' (field ''autoscale'' (VMap m)) = VInt (sint (MaxReplicas (specAutoscale spec)))"
    "field ''targetCPUUtilization'' (field ''autoscale'' (VMap m)) =
      VInt (sint (TargetCPUUtilization (specAutoscale spec)))"
    "field ''minAvailable'' (field ''pdb'' (VMap m)) = VInt 1"
proof -
  obtain v where c: "coalesced v chart_defaults m" and v: "map_of v = spec_map E name namespace spec"
    using assms by (rule spec_valuesE)
  have a: "map_of v ''autoscale'' = Some (VMap
      [(''minReplicas'', VInt (sint (MinReplicas (specAutoscale spec)))),
       (''maxReplicas'', VInt (sint (MaxReplicas (specAutoscale spec)))),
       (''targetCPUUtilization'', VInt (sint (TargetCPUUtilization (specAutoscale spec))))])"
    and d: "map_of chart_defaults ''autoscale'' = Some (VMap [(''minReplicas'', VInt 2),
      (''maxReplicas'', VInt 10), (''targetCPUUtilization'', VInt 70)])"
    and p: "map_of v ''pdb'' = Some (VMap [(''minAvailable'', VInt 1)])"
    and q: "map_of chart_defaults ''pdb'' = Some (VMap [(''minAvailable'', VInt 1)])"
    by (simp_all add: v spec_map_def chart_defaults_def)
  obtain t where "field ''autoscale'' (VMap m) = VMap t" and "map_of t =
      map_of [(''minReplicas'', VInt 2), (''maxReplicas'', VInt 10), (''targetCPUUtilization'', VInt 70)] ++
      map_of [(''minReplicas'', VInt (sint (MinReplicas (specAutoscale spec)))),
       (''maxReplicas'', VInt (sint (MaxReplicas (specAutoscale spec)))),
       (''targetCPUUtilization'', VInt (sint (TargetCPUUtilization (specAutoscale spec))))]"
    using coalesced_table [OF c a d] by metis
  then show "field ''minReplicas'' (field ''autoscale'' (VMap m)) = VInt (sint (MinReplicas (specAutoscale spec)))"
    "field ''maxReplicas'' (field ''autoscale'' (VMap m)) = VInt (sint (MaxReplicas (specAutoscale spec)))"
    "field ''targetCPUUtilization'' (field ''autoscale'' (VMap m)) =
      VInt (sint (TargetCPUUtilization (specAutoscale spec)))"
    by (simp_all add: map_add_def)
  obtain t where "field ''pdb'' (VMap m) = VMap t"
    and "map_of t = map_of [(''minAvailable'', VInt 1)] ++ map_of [(''minAvailable'', VInt 1)]"
    using coalesced_table [OF c p q] by metis
  then show "field ''minAvailable'' (field ''pdb'' (VMap m)) = VInt 1" by (simp add: map_add_def)
qed

text \<open>A table that is empty by default is the given one.\<close>

lemma coalesced_over_empty:
  assumes "coalesced v d m" and "map_of d k = Some (VMap [])"
    and "map_of v k = map_option VMap t"
  shows "case field k (VMap m) of
      VMap c \<Rightarrow> map_of c = map_of (the_default [] t) \<and> (c = [] \<longleftrightarrow> the_default [] t = [])
    | _ \<Rightarrow> False"
proof (cases t)
  case None
  with assms show ?thesis by (simp add: coalesced_default [OF assms(1)])
next
  case (Some a)
  with assms(3) have "map_of v k = Some (VMap a)" by simp
  from coalesced_table [OF assms(1) this assms(2)] Some show ?thesis by force
qed

lemma spec_probes [chart_fields]:
  assumes "spec_values E name namespace spec m"
  shows "go_true (field ''livenessProbe'' (VMap m)) \<longleftrightarrow> LivenessProbe spec \<noteq> None"
    "field ''path'' (field ''livenessProbe'' (VMap m)) =
      (case LivenessProbe spec of None \<Rightarrow> VNil | Some p \<Rightarrow> VStr (probePath p))"
    "field ''port'' (field ''livenessProbe'' (VMap m)) =
      (case LivenessProbe spec of None \<Rightarrow> VNil | Some p \<Rightarrow> VInt (sint (probePort p)))"
    "go_true (field ''readinessProbe'' (VMap m)) \<longleftrightarrow> ReadinessProbe spec \<noteq> None"
    "field ''path'' (field ''readinessProbe'' (VMap m)) =
      (case ReadinessProbe spec of None \<Rightarrow> VNil | Some p \<Rightarrow> VStr (probePath p))"
    "field ''port'' (field ''readinessProbe'' (VMap m)) =
      (case ReadinessProbe spec of None \<Rightarrow> VNil | Some p \<Rightarrow> VInt (sint (probePort p)))"
proof -
  obtain v where c: "coalesced v chart_defaults m" and v: "map_of v = spec_map E name namespace spec"
    using assms by (rule spec_valuesE)
  have probe: "(go_true (field k (VMap m)) \<longleftrightarrow> probe \<noteq> None) \<and>
      field ''path'' (field k (VMap m)) = (case probe of None \<Rightarrow> VNil | Some p \<Rightarrow> VStr (probePath p)) \<and>
      field ''port'' (field k (VMap m)) = (case probe of None \<Rightarrow> VNil | Some p \<Rightarrow> VInt (sint (probePort p)))"
    if "map_of v k = map_option probe_value probe" "map_of chart_defaults k = Some (VMap [])" for k probe
  proof -
    let ?t = "\<lambda>p. [(''path'', VStr (probePath p)), (''port'', VInt (sint (probePort p)))]"
    have "map_of v k = map_option VMap (map_option ?t probe)"
      by (cases probe) (simp_all add: that(1) probe_value_def)
    from coalesced_over_empty [OF c that(2) this] show ?thesis
      by (cases probe) (auto simp: field_def split: any.splits)
  qed
  have "map_of v ''livenessProbe'' = map_option probe_value (LivenessProbe spec)"
    "map_of v ''readinessProbe'' = map_option probe_value (ReadinessProbe spec)"
    by (simp_all add: v spec_map_def)
  moreover have "map_of chart_defaults ''livenessProbe'' = Some (VMap [])"
    "map_of chart_defaults ''readinessProbe'' = Some (VMap [])"
    by (simp_all add: chart_defaults_def)
  ultimately show "go_true (field ''livenessProbe'' (VMap m)) \<longleftrightarrow> LivenessProbe spec \<noteq> None"
    "field ''path'' (field ''livenessProbe'' (VMap m)) =
      (case LivenessProbe spec of None \<Rightarrow> VNil | Some p \<Rightarrow> VStr (probePath p))"
    "field ''port'' (field ''livenessProbe'' (VMap m)) =
      (case LivenessProbe spec of None \<Rightarrow> VNil | Some p \<Rightarrow> VInt (sint (probePort p)))"
    "go_true (field ''readinessProbe'' (VMap m)) \<longleftrightarrow> ReadinessProbe spec \<noteq> None"
    "field ''path'' (field ''readinessProbe'' (VMap m)) =
      (case ReadinessProbe spec of None \<Rightarrow> VNil | Some p \<Rightarrow> VStr (probePath p))"
    "field ''port'' (field ''readinessProbe'' (VMap m)) =
      (case ReadinessProbe spec of None \<Rightarrow> VNil | Some p \<Rightarrow> VInt (sint (probePort p)))"
    using probe by blast+
qed

lemma spec_ingress [chart_fields]:
  assumes "spec_values E name namespace spec m"
  shows "field ''enabled'' (field ''ingress'' (VMap m)) = VBool (specIngress spec \<noteq> None)"
    "field ''host'' (field ''ingress'' (VMap m)) =
      VStr (case specIngress spec of None \<Rightarrow> [] | Some i \<Rightarrow> Host i)"
    "field ''path'' (field ''ingress'' (VMap m)) =
      VStr (case specIngress spec of None \<Rightarrow> ''/'' | Some i \<Rightarrow> if ingressPath i = [] then ''/'' else ingressPath i)"
    "field ''pathType'' (field ''ingress'' (VMap m)) =
      VStr (case specIngress spec of None \<Rightarrow> ''Prefix'' | Some i \<Rightarrow> if PathType i = [] then ''Prefix'' else PathType i)"
proof -
  obtain v where c: "coalesced v chart_defaults m" and v: "map_of v = spec_map E name namespace spec"
    using assms by (rule spec_valuesE)
  let ?d = "[(''enabled'', VBool False), (''host'', VStr []), (''path'', VStr ''/''), (''pathType'', VStr ''Prefix'')]"
  let ?g = "\<lambda>i. [(''enabled'', VBool True), (''host'', VStr (Host i)),
    (''path'', VStr (if ingressPath i = [] then ''/'' else ingressPath i)),
    (''pathType'', VStr (if PathType i = [] then ''Prefix'' else PathType i))]"
  have d: "map_of chart_defaults ''ingress'' = Some (VMap ?d)" by (simp add: chart_defaults_def)
  obtain t where "field ''ingress'' (VMap m) = VMap t" and "map_of t = map_of ?d ++
      (case specIngress spec of None \<Rightarrow> Map.empty | Some i \<Rightarrow> map_of (?g i))"
  proof (cases "specIngress spec")
    case None
    then show thesis
      by (intro that [of ?d]) (simp_all add: coalesced_default [OF c] v spec_map_def chart_defaults_def)
  next
    case (Some i)
    then have "map_of v ''ingress'' = Some (VMap (?g i))"
      by (simp add: v spec_map_def ingress_value_def Let_def)
    from c this d obtain t where "field ''ingress'' (VMap m) = VMap t" and "map_of t = map_of ?d ++ map_of (?g i)"
      by (rule coalesced_table)
    with Some show thesis by (intro that [of t]) simp_all
  qed
  then show "field ''enabled'' (field ''ingress'' (VMap m)) = VBool (specIngress spec \<noteq> None)"
    "field ''host'' (field ''ingress'' (VMap m)) =
      VStr (case specIngress spec of None \<Rightarrow> [] | Some i \<Rightarrow> Host i)"
    "field ''path'' (field ''ingress'' (VMap m)) =
      VStr (case specIngress spec of None \<Rightarrow> ''/'' | Some i \<Rightarrow> if ingressPath i = [] then ''/'' else ingressPath i)"
    "field ''pathType'' (field ''ingress'' (VMap m)) =
      VStr (case specIngress spec of None \<Rightarrow> ''Prefix'' | Some i \<Rightarrow> if PathType i = [] then ''Prefix'' else PathType i)"
    by (cases "specIngress spec"; simp add: map_add_def)+
qed

lemma spec_network [chart_fields]:
  assumes "spec_values E name namespace spec m"
  shows "field ''enabled'' (field ''networkPolicy'' (VMap m)) = VBool True"
    "field ''metadataIP'' (field ''networkPolicy'' (VMap m)) = VStr ''169.254.169.254/32''"
proof -
  obtain v where c: "coalesced v chart_defaults m" and v: "map_of v = spec_map E name namespace spec"
    using assms by (rule spec_valuesE)
  have "field ''networkPolicy'' (VMap m) = VMap
      [(''enabled'', VBool True), (''metadataIP'', VStr ''169.254.169.254/32'')]"
    by (simp add: coalesced_default [OF c] v spec_map_def chart_defaults_def)
  then show "field ''enabled'' (field ''networkPolicy'' (VMap m)) = VBool True"
    "field ''metadataIP'' (field ''networkPolicy'' (VMap m)) = VStr ''169.254.169.254/32''"
    by simp_all
qed

text \<open>The overrides: absent or empty, or the converted field of the spec.\<close>

definition table_of :: "any \<Rightarrow> string \<rightharpoonup> any" where
  "table_of x = (case x of VMap m \<Rightarrow> map_of m | _ \<Rightarrow> Map.empty)"

lemma spec_security:
  assumes "spec_values E name namespace spec m"
  shows "case SecurityContext spec of
      None \<Rightarrow> \<not> go_true (field ''securityContext'' (VMap m))
    | Some c \<Rightarrow> (case SecurityToUnstructured E c of
        Inl _ \<Rightarrow> False
      | Inr sc \<Rightarrow> (go_true (field ''securityContext'' (VMap m)) \<longleftrightarrow> sc \<noteq> []) \<and>
          table_of (field ''securityContext'' (VMap m)) = map_of sc)"
    and "case PodSecurityContext spec of
      None \<Rightarrow> \<not> go_true (field ''podSecurityContext'' (VMap m))
    | Some c \<Rightarrow> (case PodSecurityToUnstructured E c of
        Inl _ \<Rightarrow> False
      | Inr sc \<Rightarrow> (go_true (field ''podSecurityContext'' (VMap m)) \<longleftrightarrow> sc \<noteq> []) \<and>
          table_of (field ''podSecurityContext'' (VMap m)) = map_of sc)"
proof -
  obtain v where vals: "valuesFromSpec E name namespace spec = Inr v" and c: "coalesced v chart_defaults m"
    using assms by (auto simp: spec_values_def)
  then have v: "map_of v = spec_map E name namespace spec"
    using values_of_spec [where E = E and name = name and namespace = namespace and spec = spec]
    by (simp add: spec_map_def)
  from vals have ok: "\<not> isl (override_value (SecurityToUnstructured E) (SecurityContext spec))"
    "\<not> isl (override_value (PodSecurityToUnstructured E) (PodSecurityContext spec))"
    by (auto simp: valuesFromSpec_put split: sum.splits)
  have override: "case s of
      None \<Rightarrow> \<not> go_true (field k (VMap m))
    | Some c \<Rightarrow> (case f c of
        Inl _ \<Rightarrow> False
      | Inr sc \<Rightarrow> (go_true (field k (VMap m)) \<longleftrightarrow> sc \<noteq> []) \<and> table_of (field k (VMap m)) = map_of sc)"
    if "map_of v k = projr (override_value f s)" "\<not> isl (override_value f s)"
      "map_of chart_defaults k = Some (VMap [])" for k and f :: "'d \<Rightarrow> go_values go" and s
  proof -
    have "map_of v k = map_option VMap (case s of None \<Rightarrow> None | Some c \<Rightarrow> Some (projr (f c)))"
      using that(1,2) by (auto simp: override_value_def map_sum_def split: option.splits sum.splits)
    from coalesced_over_empty [OF c that(3) this] that(2) show ?thesis
      by (auto simp: override_value_def map_sum_def table_of_def split: option.splits sum.splits any.splits)
  qed
  from override [of "''securityContext''"] override [of "''podSecurityContext''"] ok
  show "case SecurityContext spec of
      None \<Rightarrow> \<not> go_true (field ''securityContext'' (VMap m))
    | Some c \<Rightarrow> (case SecurityToUnstructured E c of
        Inl _ \<Rightarrow> False
      | Inr sc \<Rightarrow> (go_true (field ''securityContext'' (VMap m)) \<longleftrightarrow> sc \<noteq> []) \<and>
          table_of (field ''securityContext'' (VMap m)) = map_of sc)"
    "case PodSecurityContext spec of
      None \<Rightarrow> \<not> go_true (field ''podSecurityContext'' (VMap m))
    | Some c \<Rightarrow> (case PodSecurityToUnstructured E c of
        Inl _ \<Rightarrow> False
      | Inr sc \<Rightarrow> (go_true (field ''podSecurityContext'' (VMap m)) \<longleftrightarrow> sc \<noteq> []) \<and>
          table_of (field ''podSecurityContext'' (VMap m)) = map_of sc)"
    by (auto simp: v spec_map_def chart_defaults_def)
qed


subsection \<open>The templates\<close>

text \<open>\<open>_helpers.tpl\<close>\<close>

definition workload_labels :: "(string \<Rightarrow> any) \<Rightarrow> any \<Rightarrow> any" where
  "workload_labels yaml vals = VMap
    [(''app.kubernetes.io/name'', plain yaml (field ''name'' vals)),
     (''app.kubernetes.io/instance'', plain yaml (field ''name'' vals)),
     (''app.kubernetes.io/part-of'', plain yaml (field ''name'' vals)),
     (''app.kubernetes.io/managed-by'', VStr ''workload-operator'')]"

definition selectorLabels :: "(string \<Rightarrow> any) \<Rightarrow> any \<Rightarrow> any" where
  "selectorLabels yaml vals = VMap
    [(''app.kubernetes.io/name'', plain yaml (field ''name'' vals)),
     (''app.kubernetes.io/instance'', plain yaml (field ''name'' vals))]"

definition document :: "(string \<Rightarrow> any) \<Rightarrow> any \<Rightarrow> string \<Rightarrow> string \<Rightarrow> any \<Rightarrow> any \<Rightarrow> go_values" where
  "document yaml vals version kind name spec =
    [(''apiVersion'', VStr version), (''kind'', VStr kind),
     (''metadata'', VMap [(''name'', name), (''namespace'', plain yaml (field ''namespace'' vals)),
        (''labels'', workload_labels yaml vals)]),
     (''spec'', spec)]"

text \<open>\<open>deployment.yaml\<close>: there is no key \<open>replicas\<close>.\<close>

definition probe_entry :: "(string \<Rightarrow> any) \<Rightarrow> any \<Rightarrow> string \<Rightarrow> go_values" where
  "probe_entry yaml vals key = (let p = field key vals in
    if go_true p \<and> go_true (field ''path'' p)
    then [(key, VMap [(''httpGet'', VMap
      [(''path'', plain yaml (field ''path'' p)), (''port'', plain yaml (field ''port'' p))])])]
    else [])"

definition pod_security_context :: "any \<Rightarrow> any" where
  "pod_security_context vals = (let c = field ''podSecurityContext'' vals in
    if go_true c then c
    else VMap [(''runAsNonRoot'', VBool True), (''seccompProfile'', VMap [(''type'', VStr ''RuntimeDefault'')])])"

definition security_context :: "any \<Rightarrow> any" where
  "security_context vals = (let c = field ''securityContext'' vals in
    if go_true c then c
    else VMap [(''allowPrivilegeEscalation'', VBool False), (''readOnlyRootFilesystem'', VBool True),
      (''capabilities'', VMap [(''drop'', VList [VStr ''ALL''])])])"

definition container :: "(string \<Rightarrow> any) \<Rightarrow> any \<Rightarrow> any" where
  "container yaml vals = VMap
    ([(''name'', VStr ''workload''), (''image'', field ''image'' vals),
      (''ports'', VList [VMap [(''containerPort'', plain yaml (field ''port'' vals))]]),
      (''securityContext'', security_context vals)] @
     probe_entry yaml vals ''livenessProbe'' @ probe_entry yaml vals ''readinessProbe'' @
     (if go_true (field ''resources'' vals) then [(''resources'', field ''resources'' vals)] else []))"

definition deployment_doc :: "(string \<Rightarrow> any) \<Rightarrow> any \<Rightarrow> go_values" where
  "deployment_doc yaml vals =
    document yaml vals ''apps/v1'' ''Deployment'' (plain yaml (field ''name'' vals)) (VMap
      [(''strategy'', VMap [(''type'', VStr ''RollingUpdate''),
          (''rollingUpdate'', VMap [(''maxSurge'', VInt 1), (''maxUnavailable'', VInt 0)])]),
       (''selector'', VMap [(''matchLabels'', selectorLabels yaml vals)]),
       (''template'', VMap
          [(''metadata'', VMap [(''labels'', selectorLabels yaml vals)]),
           (''spec'', VMap [(''securityContext'', pod_security_context vals),
              (''containers'', VList [container yaml vals])])])])"

text \<open>\<open>service.yaml\<close>, \<open>hpa.yaml\<close> and \<open>pdb.yaml\<close>\<close>

definition service_doc :: "(string \<Rightarrow> any) \<Rightarrow> any \<Rightarrow> go_values" where
  "service_doc yaml vals =
    document yaml vals ''v1'' ''Service'' (plain yaml (field ''name'' vals)) (VMap
      [(''selector'', selectorLabels yaml vals),
       (''ports'', VList [VMap [(''port'', plain yaml (field ''port'' vals)),
          (''targetPort'', plain yaml (field ''port'' vals)), (''protocol'', VStr ''TCP'')]])])"

definition hpa_doc :: "(string \<Rightarrow> any) \<Rightarrow> any \<Rightarrow> go_values" where
  "hpa_doc yaml vals = (let a = field ''autoscale'' vals in
    document yaml vals ''autoscaling/v2'' ''HorizontalPodAutoscaler'' (plain yaml (field ''name'' vals)) (VMap
      [(''scaleTargetRef'', VMap [(''apiVersion'', VStr ''apps/v1''), (''kind'', VStr ''Deployment''),
          (''name'', plain yaml (field ''name'' vals))]),
       (''minReplicas'', plain yaml (field ''minReplicas'' a)),
       (''maxReplicas'', plain yaml (field ''maxReplicas'' a)),
       (''metrics'', VList [VMap [(''type'', VStr ''Resource''),
          (''resource'', VMap [(''name'', VStr ''cpu''),
             (''target'', VMap [(''type'', VStr ''Utilization''),
                (''averageUtilization'', plain yaml (field ''targetCPUUtilization'' a))])])]])]))"

definition pdb_doc :: "(string \<Rightarrow> any) \<Rightarrow> any \<Rightarrow> go_values" where
  "pdb_doc yaml vals =
    document yaml vals ''policy/v1'' ''PodDisruptionBudget'' (plain yaml (field ''name'' vals)) (VMap
      [(''minAvailable'', plain yaml (field ''minAvailable'' (field ''pdb'' vals))),
       (''selector'', VMap [(''matchLabels'', selectorLabels yaml vals)])])"

text \<open>\<open>ingress.yaml\<close>: nothing unless the ingress is enabled.\<close>

definition ingress_docs :: "(string \<Rightarrow> any) \<Rightarrow> any \<Rightarrow> go_values list" where
  "ingress_docs yaml vals = (let i = field ''ingress'' vals in
    if go_true (field ''enabled'' i)
    then [document yaml vals ''networking.k8s.io/v1'' ''Ingress'' (plain yaml (field ''name'' vals)) (VMap
      ((if go_true (field ''ingressClass'' vals)
        then [(''ingressClassName'', plain yaml (field ''ingressClass'' vals))] else []) @
       [(''rules'', VList [VMap [(''host'', field ''host'' i),
          (''http'', VMap [(''paths'', VList [VMap
             [(''path'', plain yaml (or_default (VStr ''/'') (field ''path'' i))),
              (''pathType'', plain yaml (or_default (VStr ''Prefix'') (field ''pathType'' i))),
              (''backend'', VMap [(''service'', VMap [(''name'', plain yaml (field ''name'' vals)),
                 (''port'', VMap [(''number'', plain yaml (field ''port'' vals))])])])]])])]])]))]
    else [])"

text \<open>\<open>networkpolicy.yaml\<close>: two documents.\<close>

definition deny_doc :: "(string \<Rightarrow> any) \<Rightarrow> any \<Rightarrow> go_values" where
  "deny_doc yaml vals =
    document yaml vals ''networking.k8s.io/v1'' ''NetworkPolicy''
      (suffixed yaml (field ''name'' vals) ''-default-deny'') (VMap
      [(''podSelector'', VMap [(''matchLabels'', selectorLabels yaml vals)]),
       (''policyTypes'', VList [VStr ''Ingress'', VStr ''Egress''])])"

definition allow_doc :: "(string \<Rightarrow> any) \<Rightarrow> any \<Rightarrow> go_values" where
  "allow_doc yaml vals =
    document yaml vals ''networking.k8s.io/v1'' ''NetworkPolicy''
      (suffixed yaml (field ''name'' vals) ''-allow'') (VMap
      [(''podSelector'', VMap [(''matchLabels'', selectorLabels yaml vals)]),
       (''policyTypes'', VList [VStr ''Ingress'', VStr ''Egress'']),
       (''ingress'', VList [VMap
          [(''from'', VList [VMap [(''podSelector'', VMap [])]]),
           (''ports'', VList [VMap [(''protocol'', VStr ''TCP''), (''port'', plain yaml (field ''port'' vals))]])]]),
       (''egress'', VList
          [VMap [(''to'', VList [VMap [(''namespaceSelector'', VMap [])]]),
             (''ports'', VList [VMap [(''protocol'', VStr ''UDP''), (''port'', VInt 53)],
                VMap [(''protocol'', VStr ''TCP''), (''port'', VInt 53)]])],
           VMap [(''to'', VList [VMap [(''ipBlock'', VMap [(''cidr'', VStr ''0.0.0.0/0''),
              (''except'', VList [plain yaml (field ''metadataIP'' (field ''networkPolicy'' vals))])])]])]])])"

definition networkpolicy_docs :: "(string \<Rightarrow> any) \<Rightarrow> any \<Rightarrow> go_values list" where
  "networkpolicy_docs yaml vals =
    (if go_true (field ''enabled'' (field ''networkPolicy'' vals))
     then [deny_doc yaml vals, allow_doc yaml vals] else [])"

text \<open>The templates of the chart with the documents each of them yields.\<close>

definition chart_templates :: "(string \<Rightarrow> any) \<Rightarrow> any \<Rightarrow> (string \<times> go_values list) list" where
  "chart_templates yaml vals =
    [(''workload/templates/deployment.yaml'', [deployment_doc yaml vals]),
     (''workload/templates/hpa.yaml'', [hpa_doc yaml vals]),
     (''workload/templates/ingress.yaml'', ingress_docs yaml vals),
     (''workload/templates/networkpolicy.yaml'', networkpolicy_docs yaml vals),
     (''workload/templates/pdb.yaml'', [pdb_doc yaml vals]),
     (''workload/templates/service.yaml'', [service_doc yaml vals])]"

definition chart_documents :: "(string \<Rightarrow> any) \<Rightarrow> any \<Rightarrow> go_values list" where
  "chart_documents yaml vals = concat (map snd (chart_templates yaml vals))"

subsection \<open>Properties of the documents\<close>

definition at :: "string list \<Rightarrow> go_values \<Rightarrow> any" where
  "at ks doc = foldl (\<lambda>x k. field k x) (VMap doc) ks"

lemma at_simps [simp]: "at [] doc = VMap doc" "at (ks @ [k]) doc = field k (at ks doc)"
  by (simp_all add: at_def)

lemmas chart_docs = deployment_doc_def service_doc_def hpa_doc_def pdb_doc_def ingress_docs_def deny_doc_def
  allow_doc_def document_def networkpolicy_docs_def

text \<open>Property C19: everything that selects the pods of a Workload selects the same ones.  The labels of the
  pods are the name of the Workload twice, whatever the spec, so an update never changes them; the
  Deployment, the Service, the disruption budget and both network policies select exactly these labels;
  the autoscaler targets the Deployment by its name and kind, and an Ingress routes to the Service and
  its port.\<close>
theorem selectors_agree:
  assumes "spec_values E name namespace spec m"
  shows "let pods = at [''spec'', ''template'', ''metadata'', ''labels''] (deployment_doc yaml (VMap m)) in
    pods = VMap [(''app.kubernetes.io/name'', yaml name), (''app.kubernetes.io/instance'', yaml name)] \<and>
    at [''spec'', ''selector'', ''matchLabels''] (deployment_doc yaml (VMap m)) = pods \<and>
    at [''spec'', ''selector''] (service_doc yaml (VMap m)) = pods \<and>
    at [''spec'', ''selector'', ''matchLabels''] (pdb_doc yaml (VMap m)) = pods \<and>
    list_all (\<lambda>d. at [''spec'', ''podSelector'', ''matchLabels''] d = pods) (networkpolicy_docs yaml (VMap m)) \<and>
    at [''spec'', ''scaleTargetRef'', ''name''] (hpa_doc yaml (VMap m)) =
      at [''metadata'', ''name''] (deployment_doc yaml (VMap m)) \<and>
    at [''spec'', ''scaleTargetRef'', ''kind''] (hpa_doc yaml (VMap m)) =
      at [''kind''] (deployment_doc yaml (VMap m)) \<and>
    list_all (\<lambda>d. \<exists>host path pathType. at [''spec'', ''rules''] d = VList [VMap [(''host'', host),
        (''http'', VMap [(''paths'', VList [VMap [(''path'', path), (''pathType'', pathType),
          (''backend'', VMap [(''service'', VMap
            [(''name'', at [''metadata'', ''name''] (service_doc yaml (VMap m))),
             (''port'', VMap [(''number'', VInt (sint (Port spec)))])])])]])])]])
      (ingress_docs yaml (VMap m))"
  unfolding at_def by (simp add: chart_docs selectorLabels_def spec_scalars [OF assms] Let_def)

text \<open>An override of a security context takes the place of the default as a whole, unless it is empty.\<close>

definition overridden :: "('k \<Rightarrow> go_values go) \<Rightarrow> 'k option \<Rightarrow> (string \<rightharpoonup> any) \<Rightarrow> string \<rightharpoonup> any" where
  "overridden convert c hardened =
    (case c of
       None \<Rightarrow> hardened
     | Some c \<Rightarrow> (case convert c of Inr sc \<Rightarrow> if sc = [] then hardened else map_of sc | Inl _ \<Rightarrow> hardened))"

lemma table_of_VMap [simp]: "table_of (VMap m) = map_of m"
  by (simp add: table_of_def)

lemma container_security:
  assumes "spec_values E name namespace spec m"
  shows "table_of (security_context (VMap m)) = overridden (SecurityToUnstructured E) (SecurityContext spec)
      [''allowPrivilegeEscalation'' \<mapsto> VBool False, ''readOnlyRootFilesystem'' \<mapsto> VBool True,
       ''capabilities'' \<mapsto> VMap [(''drop'', VList [VStr ''ALL''])]]"
    and "table_of (pod_security_context (VMap m)) = overridden (PodSecurityToUnstructured E) (PodSecurityContext spec)
      [''runAsNonRoot'' \<mapsto> VBool True, ''seccompProfile'' \<mapsto> VMap [(''type'', VStr ''RuntimeDefault'')]]"
  using spec_security [OF assms]
  by (auto simp: security_context_def pod_security_context_def overridden_def Let_def fun_eq_iff
      split: option.splits sum.splits)

lemma probe_entry_probe:
  assumes "go_true (field key vals) \<longleftrightarrow> probe \<noteq> None"
    and "field ''path'' (field key vals) = (case probe of None \<Rightarrow> VNil | Some p \<Rightarrow> VStr (probePath p))"
    and "field ''port'' (field key vals) = (case probe of None \<Rightarrow> VNil | Some p \<Rightarrow> VInt (sint (probePort p)))"
  shows "probe_entry yaml vals key = (case probe of
      None \<Rightarrow> []
    | Some p \<Rightarrow> if probePath p = [] then []
        else [(key, VMap [(''httpGet'', VMap
          [(''path'', yaml (probePath p)), (''port'', VInt (sint (probePort p)))])])])"
  using assms by (simp add: probe_entry_def Let_def split: option.split)

lemma container_probes:
  assumes "spec_values E name namespace spec m"
  shows "field ''path'' (field ''httpGet'' (field ''livenessProbe'' (container yaml (VMap m)))) =
      (case LivenessProbe spec of None \<Rightarrow> VNil | Some p \<Rightarrow> if probePath p = [] then VNil else yaml (probePath p))"
    and "field ''path'' (field ''httpGet'' (field ''readinessProbe'' (container yaml (VMap m)))) =
      (case ReadinessProbe spec of None \<Rightarrow> VNil | Some p \<Rightarrow> if probePath p = [] then VNil else yaml (probePath p))"
proof -
  note entries = probe_entry_probe [OF spec_probes(1-3) [OF assms], of yaml]
    probe_entry_probe [OF spec_probes(4-6) [OF assms], of yaml]
  show "field ''path'' (field ''httpGet'' (field ''livenessProbe'' (container yaml (VMap m)))) =
      (case LivenessProbe spec of None \<Rightarrow> VNil | Some p \<Rightarrow> if probePath p = [] then VNil else yaml (probePath p))"
    by (cases "LivenessProbe spec"; cases "ReadinessProbe spec") (simp_all add: container_def entries)
  show "field ''path'' (field ''httpGet'' (field ''readinessProbe'' (container yaml (VMap m)))) =
      (case ReadinessProbe spec of None \<Rightarrow> VNil | Some p \<Rightarrow> if probePath p = [] then VNil else yaml (probePath p))"
    by (cases "LivenessProbe spec"; cases "ReadinessProbe spec") (simp_all add: container_def entries)
qed

text \<open>Property C18: the Deployment follows the spec and never sets the replicas, which are the autoscaler's.
  Its one container has the image, the port, and a probe exactly for each probe of the spec with a path;
  new pods replace old ones without taking any away first, whatever rollout the spec asks for; each of
  the two security contexts is the override of the spec if there is one that is not empty, as a whole,
  and the hardened default otherwise.\<close>
theorem deployment_follows_the_spec:
  assumes "spec_values E name namespace spec m"
  shows "let doc = deployment_doc yaml (VMap m); c = container yaml (VMap m) in
    at [''spec'', ''replicas''] doc = VNil \<and>
    at [''spec'', ''strategy'', ''type''] doc = VStr ''RollingUpdate'' \<and>
    at [''spec'', ''strategy'', ''rollingUpdate'', ''maxUnavailable''] doc = VInt 0 \<and>
    at [''spec'', ''template'', ''spec'', ''containers''] doc = VList [c] \<and>
    field ''image'' c = VStr (Image spec) \<and>
    field ''ports'' c = VList [VMap [(''containerPort'', VInt (sint (Port spec)))]] \<and>
    field ''path'' (field ''httpGet'' (field ''livenessProbe'' c)) = (case LivenessProbe spec of
      None \<Rightarrow> VNil | Some p \<Rightarrow> if probePath p = [] then VNil else yaml (probePath p)) \<and>
    field ''path'' (field ''httpGet'' (field ''readinessProbe'' c)) = (case ReadinessProbe spec of
      None \<Rightarrow> VNil | Some p \<Rightarrow> if probePath p = [] then VNil else yaml (probePath p)) \<and>
    table_of (field ''securityContext'' c) =
      overridden (SecurityToUnstructured E) (SecurityContext spec)
        [''allowPrivilegeEscalation'' \<mapsto> VBool False, ''readOnlyRootFilesystem'' \<mapsto> VBool True,
         ''capabilities'' \<mapsto> VMap [(''drop'', VList [VStr ''ALL''])]] \<and>
    table_of (at [''spec'', ''template'', ''spec'', ''securityContext''] doc) =
      overridden (PodSecurityToUnstructured E) (PodSecurityContext spec)
        [''runAsNonRoot'' \<mapsto> VBool True, ''seccompProfile'' \<mapsto> VMap [(''type'', VStr ''RuntimeDefault'')]]"
proof -
  have doc: "at [''spec'', ''replicas''] (deployment_doc yaml (VMap m)) = VNil"
    "at [''spec'', ''strategy'', ''type''] (deployment_doc yaml (VMap m)) = VStr ''RollingUpdate''"
    "at [''spec'', ''strategy'', ''rollingUpdate'', ''maxUnavailable''] (deployment_doc yaml (VMap m)) = VInt 0"
    "at [''spec'', ''template'', ''spec'', ''containers''] (deployment_doc yaml (VMap m)) =
      VList [container yaml (VMap m)]"
    "at [''spec'', ''template'', ''spec'', ''securityContext''] (deployment_doc yaml (VMap m)) =
      pod_security_context (VMap m)"
    by (simp_all add: at_def deployment_doc_def document_def)
  have c: "field ''image'' (container yaml (VMap m)) = VStr (Image spec)"
    "field ''ports'' (container yaml (VMap m)) = VList [VMap [(''containerPort'', VInt (sint (Port spec)))]]"
    "field ''securityContext'' (container yaml (VMap m)) = security_context (VMap m)"
    by (simp_all add: container_def spec_scalars [OF assms])
  show ?thesis
    unfolding Let_def doc c container_probes [OF assms] container_security [OF assms] by simp
qed

subsection \<open>Values to try the properties on\<close>

definition sample_values :: "string \<Rightarrow> go_values" where
  "sample_values name = base_values name ''apps'' sample_spec @
    [(''livenessProbe'', VMap []), (''readinessProbe'', VMap []), (''resources'', VMap []),
     (''podSecurityContext'', VMap []), (''securityContext'', VMap []), (''ingressClass'', VStr []),
     (''ingress'', VMap [(''enabled'', VBool False), (''host'', VStr []), (''path'', VStr ''/''),
       (''pathType'', VStr ''Prefix'')]),
     (''networkPolicy'', VMap [(''enabled'', VBool True), (''metadataIP'', VStr ''169.254.169.254/32'')])]"

lemma sample_values_from_spec:
  "valuesFromSpec E name ''apps'' sample_spec = Inr (base_values name ''apps'' sample_spec)"
  by (simp add: valuesFromSpec_def plain_values_def sample_spec_def)

lemma sample_coalesced: "coalesced (base_values name ''apps'' sample_spec) chart_defaults (sample_values name)"
  unfolding coalesced_def
proof
  fix k
  consider "k = ''autoscale''" | "k = ''pdb''" | "k \<noteq> ''autoscale''" "k \<noteq> ''pdb''" by blast
  then show "case (map_of (base_values name ''apps'' sample_spec) k, map_of chart_defaults k) of
     (None, y) \<Rightarrow> map_of (sample_values name) k = y
   | (Some (VMap a), Some (VMap b)) \<Rightarrow>
       (case map_of (sample_values name) k of
          Some (VMap c) \<Rightarrow> map_of c = map_of b ++ map_of a \<and> (c = [] \<longleftrightarrow> a = [] \<and> b = [])
        | _ \<Rightarrow> False)
   | (Some x, _) \<Rightarrow> map_of (sample_values name) k = Some x"
    by cases (auto simp: sample_values_def base_values_def chart_defaults_def fun_eq_iff)
qed

lemma sample_spec_values: "spec_values E name ''apps'' sample_spec (sample_values name)"
  using sample_values_from_spec sample_coalesced unfolding spec_values_def by blast

theorem selectors_agree_witness:
  "at [''spec'', ''selector''] (service_doc VStr (VMap (sample_values ''demo''))) =
   at [''spec'', ''template'', ''metadata'', ''labels''] (deployment_doc VStr (VMap (sample_values ''demo'')))"
  using selectors_agree [OF sample_spec_values [of sample_env "''demo''"], of VStr] by (simp add: Let_def)

theorem deployment_follows_witness:
  "at [''spec'', ''template'', ''spec'', ''containers''] (deployment_doc VStr (VMap (sample_values ''demo''))) =
     VList [container VStr (VMap (sample_values ''demo''))] \<and>
   field ''image'' (container VStr (VMap (sample_values ''demo''))) = VStr ''nginx:1.27''"
  using deployment_follows_the_spec [OF sample_spec_values [of sample_env "''demo''"], of VStr]
  by (simp add: Let_def sample_spec_def)

end
