(* ===== verification/Workload_Module.thy ===== *)
theory Workload_Module
  imports Chart_Templates
begin

text \<open>
  \<open>modules/workload\<close>, the Terraform module that deploys a Workload in the install tier the preflight chose:
  a custom resource for the operator (tier A), or the chart itself as a Helm release (tier B).  Both
  come from one YAML document, and the module promises that they give the same manifests.
\<close>

subsection \<open>The module\<close>

record workload_vars =
  var_install_tier :: string
  var_name :: string
  var_namespace :: string
  var_spec_yaml :: string
  var_workload_chart_path :: string
  var_pdb_min_available :: int
  var_wait_for_ready :: bool
  var_wait_timeout :: string
  var_crd_ready :: string
  var_secrets_ready :: string

text \<open>
  What is planned: the ordering gate with its input; the custom resource, with what replaces it and what
  the provider waits for; or the release.  Paths of charts are relative to the module.
\<close>

record cr_resource =
  crManifest :: go_values
  crServerSideApply :: bool
  crReplaceTriggeredBy :: "string list"
  crWait :: bool
  crCreateTimeout :: string
  crWaitFor :: "(string \<times> string) list"

record helm_resource =
  hrName :: string
  hrNamespace :: string
  hrChart :: string
  hrWait :: bool
  hrTimeout :: int
  hrValues :: go_values

datatype planned =
    OrderingGate string
  | WorkloadCR cr_resource
  | HelmRelease helm_resource

text \<open>The \<open>validation\<close> blocks; \<open>yamldecode\<close> is the function of Terraform, \<open>None\<close> an error of it.\<close>

definition spec_of_yaml :: "(string \<Rightarrow> any option) \<Rightarrow> string \<Rightarrow> go_values option" where
  "spec_of_yaml yamldecode yaml =
    (case yamldecode yaml of
       Some (VMap sp) \<Rightarrow>
         (if list_all (\<lambda>k. map_of sp k \<noteq> None) [''image'', ''port'', ''autoscale''] then Some sp else None)
     | _ \<Rightarrow> None)"

definition workload_manifest :: "workload_vars \<Rightarrow> go_values \<Rightarrow> go_values" where
  "workload_manifest v sp =
    [(''apiVersion'', VStr ''workload.ops.dev/v1''), (''kind'', VStr ''Workload''),
     (''metadata'', VMap [(''name'', VStr (var_name v)), (''namespace'', VStr (var_namespace v))]),
     (''spec'', VMap sp)]"

text \<open>\<open>merge(a, b)\<close>: the entries of \<open>b\<close> over those of \<open>a\<close>.\<close>

definition merge_tables :: "go_values \<Rightarrow> go_values \<Rightarrow> go_values" where
  "merge_tables a b = AList.updates (map fst b) (map snd b) a"

definition helm_values :: "workload_vars \<Rightarrow> go_values \<Rightarrow> go_values" where
  "helm_values v sp = merge_tables sp
    [(''name'', VStr (var_name v)), (''namespace'', VStr (var_namespace v)),
     (''pdb'', VMap [(''minAvailable'', VInt (var_pdb_min_available v))])]"

definition ordering_input :: "workload_vars \<Rightarrow> string" where
  "ordering_input v = var_crd_ready v @ '':'' @ var_secrets_ready v"

definition workload_cr :: "workload_vars \<Rightarrow> go_values \<Rightarrow> cr_resource" where
  "workload_cr v sp = \<lparr>crManifest = workload_manifest v sp, crServerSideApply = True,
     crReplaceTriggeredBy = [''terraform_data.ordering''], crWait = var_wait_for_ready v,
     crCreateTimeout = var_wait_timeout v,
     crWaitFor = (if var_wait_for_ready v then [(''Ready'', ''True'')] else [])\<rparr>"

definition workload_release :: "workload_vars \<Rightarrow> go_values \<Rightarrow> helm_resource" where
  "workload_release v sp = \<lparr>hrName = var_name v, hrNamespace = var_namespace v, hrChart = var_workload_chart_path v,
     hrWait = True, hrTimeout = 300, hrValues = helm_values v sp\<rparr>"

definition workload_module :: "(string \<Rightarrow> any option) \<Rightarrow> workload_vars \<Rightarrow> planned list option" where
  "workload_module yamldecode v =
    (if var_install_tier v \<notin> {''A'', ''B''} then None
     else map_option (\<lambda>sp. [OrderingGate (ordering_input v)] @
       (if var_install_tier v = ''A'' then [WorkloadCR (workload_cr v sp)] else []) @
       (if var_install_tier v = ''B'' then [HelmRelease (workload_release v sp)] else []))
      (spec_of_yaml yamldecode (var_spec_yaml v)))"

subsection \<open>The custom resource as the operator reads it\<close>

text \<open>
  \<open>spec_reads E canon sp spec\<close>: the API server stores, and the operator reads, the spec \<open>spec\<close> for the
  document \<open>sp\<close>: absent fields are zero, the fields of the ingress have the defaults of the CRD, and a context or
  resources convert back to \<open>canon k t\<close>, the way the API machinery writes what stands in the field \<open>k\<close>: a
  quantity of \<open>0.5\<close> as \<open>500m\<close>, without the fields the CRD does not know.
\<close>

definition canonical_form :: "(string \<Rightarrow> go_values \<Rightarrow> go_values) \<Rightarrow> bool" where
  "canonical_form canon \<longleftrightarrow> (\<forall>k. canon k [] = []) \<and>
    (\<forall>k a b. map_of a = map_of b \<longrightarrow> map_of (canon k a) = map_of (canon k b))"

fun reads_string :: "any \<Rightarrow> string \<Rightarrow> bool" where
  "reads_string (VStr t) s = (s = t)"
| "reads_string VNil s = (s = [])"
| "reads_string _ s = False"

fun reads_int :: "any \<Rightarrow> int32 \<Rightarrow> bool" where
  "reads_int (VInt i) n = (sint n = i)"
| "reads_int VNil n = (n = 0)"
| "reads_int _ n = False"

definition reads_probe :: "any \<Rightarrow> Probe option \<Rightarrow> bool" where
  "reads_probe x p = (case (x, p) of
     (VNil, None) \<Rightarrow> True
   | (VMap _, Some p) \<Rightarrow> reads_string (field ''path'' x) (probePath p) \<and> reads_int (field ''port'' x) (probePort p)
   | _ \<Rightarrow> False)"

definition reads_ingress :: "any \<Rightarrow> IngressConfig option \<Rightarrow> bool" where
  "reads_ingress x i = (case (x, i) of
     (VNil, None) \<Rightarrow> True
   | (VMap _, Some i) \<Rightarrow> reads_string (field ''host'' x) (Host i) \<and>
       (case field ''path'' x of VNil \<Rightarrow> ingressPath i = ''/'' | y \<Rightarrow> reads_string y (ingressPath i)) \<and>
       (case field ''pathType'' x of VNil \<Rightarrow> PathType i = ''Prefix'' | y \<Rightarrow> reads_string y (PathType i))
   | _ \<Rightarrow> False)"

definition reads_context ::
  "('k \<Rightarrow> go_values go) \<Rightarrow> (go_values \<Rightarrow> go_values) \<Rightarrow> any \<Rightarrow> 'k option \<Rightarrow> bool" where
  "reads_context convert canon x c = (case (x, c) of
     (VNil, None) \<Rightarrow> True
   | (VMap t, Some c) \<Rightarrow> (case convert c of Inl _ \<Rightarrow> False | Inr sc \<Rightarrow> map_of sc = map_of (canon t))
   | _ \<Rightarrow> False)"

definition reads_resources ::
  "('k ResourceRequirements \<Rightarrow> go_values go) \<Rightarrow> (go_values \<Rightarrow> go_values) \<Rightarrow> any \<Rightarrow> 'k ResourceRequirements \<Rightarrow> bool" where
  "reads_resources convert canon x r = (case x of
     VNil \<Rightarrow> Requests r = None \<and> Limits r = None
   | VMap t \<Rightarrow>
       (if Requests r = None \<and> Limits r = None then canon t = []
        else case convert r of Inl _ \<Rightarrow> False | Inr res \<Rightarrow> map_of res = map_of (canon t))
   | _ \<Rightarrow> False)"

definition spec_reads ::
  "('ch, 'd, 't, 'k) ChartEnv \<Rightarrow> (string \<Rightarrow> go_values \<Rightarrow> go_values) \<Rightarrow> go_values \<Rightarrow> 'k WorkloadSpec \<Rightarrow> bool" where
  "spec_reads E canon sp spec \<longleftrightarrow> (let f = (\<lambda>k. field k (VMap sp)) in
     reads_string (f ''image'') (Image spec) \<and> reads_int (f ''port'') (Port spec) \<and>
     reads_int (field ''minReplicas'' (f ''autoscale'')) (MinReplicas (specAutoscale spec)) \<and>
     reads_int (field ''maxReplicas'' (f ''autoscale'')) (MaxReplicas (specAutoscale spec)) \<and>
     reads_int (field ''targetCPUUtilization'' (f ''autoscale'')) (TargetCPUUtilization (specAutoscale spec)) \<and>
     reads_probe (f ''livenessProbe'') (LivenessProbe spec) \<and>
     reads_probe (f ''readinessProbe'') (ReadinessProbe spec) \<and>
     reads_string (f ''ingressClass'') (IngressClass spec) \<and> reads_ingress (f ''ingress'') (specIngress spec) \<and>
     reads_context (SecurityToUnstructured E) (canon ''securityContext'') (f ''securityContext'') (SecurityContext spec) \<and>
     reads_context (PodSecurityToUnstructured E) (canon ''podSecurityContext'') (f ''podSecurityContext'') (PodSecurityContext spec) \<and>
     reads_resources (ResourcesToUnstructured E) (canon ''resources'') (f ''resources'') (Resources spec))"

text \<open>The fields of the spec, as the description of \<open>spec_yaml\<close> lists them.\<close>

definition spec_keys :: "string list" where
  "spec_keys = [''image'', ''port'', ''autoscale'', ''livenessProbe'', ''readinessProbe'', ''resources'',
    ''securityContext'', ''podSecurityContext'', ''rolloutStrategy'', ''ingressClass'', ''ingress'']"

subsection \<open>The same manifest\<close>

text \<open>Two documents are the same if they differ only in the order of the entries of their maps.\<close>

inductive same :: "any \<Rightarrow> any \<Rightarrow> bool" where
  same_refl: "same x x"
| same_map: "map_of a = map_of b \<Longrightarrow> same (VMap a) (VMap b)"
| same_entry: "same x y \<Longrightarrow> same (VMap a) (VMap b) \<Longrightarrow> same (VMap ((k, x) # a)) (VMap ((k, y) # b))"
| same_item: "same x y \<Longrightarrow> same (VList xs) (VList ys) \<Longrightarrow> same (VList (x # xs)) (VList (y # ys))"

definition same_document :: "go_values \<Rightarrow> go_values \<Rightarrow> bool" where
  "same_document a b \<longleftrightarrow> same (VMap a) (VMap b)"

lemma same_document_refl [simp]: "same_document a a"
  by (simp add: same_document_def same_refl)

subsection \<open>What the release gives the templates\<close>

lemma helm_values_lookup: "map_of (helm_values v sp) = (map_of sp)(''name'' \<mapsto> VStr (var_name v),
    ''namespace'' \<mapsto> VStr (var_namespace v), ''pdb'' \<mapsto> VMap [(''minAvailable'', VInt (var_pdb_min_available v))])"
  by (simp add: helm_values_def merge_tables_def update_conv')

lemma has_typeD:
  "has_type ''object'' x \<Longrightarrow> \<exists>m. x = VMap m"
  "has_type ''string'' x \<Longrightarrow> reads_string x s \<Longrightarrow> x = VStr s"
  "has_type ''integer'' x \<Longrightarrow> reads_int x n \<Longrightarrow> x = VInt (sint n)"
  by (cases x; simp)+

lemma schema_required:
  assumes "valid re values_schema (VMap (helm_values v sp))"
  shows "\<exists>x. map_of sp ''image'' = Some x \<and> has_type ''string'' x"
    and "\<exists>x. map_of sp ''port'' = Some x \<and> has_type ''integer'' x"
    and "pred_option (valid re probe_schema) (map_of sp ''livenessProbe'')"
    and "pred_option (valid re probe_schema) (map_of sp ''readinessProbe'')"
    and "pred_option (has_type ''string'') (map_of sp ''ingressClass'')"
    and "\<exists>a. map_of sp ''autoscale'' = Some (VMap a) \<and>
      (\<forall>k \<in> {''minReplicas'', ''maxReplicas'', ''targetCPUUtilization''}.
        \<exists>x. map_of a k = Some x \<and> has_type ''integer'' x)"
proof -
  have parts: "\<exists>x. map_of sp ''image'' = Some x \<and> has_type ''string'' x"
    "\<exists>x. map_of sp ''port'' = Some x \<and> has_type ''integer'' x"
    "pred_option (valid re probe_schema) (map_of sp ''livenessProbe'')"
    "pred_option (valid re probe_schema) (map_of sp ''readinessProbe'')"
    "pred_option (valid re [Type ''string'']) (map_of sp ''ingressClass'')"
    "\<exists>x. map_of sp ''autoscale'' = Some x \<and> has_type ''object'' x \<and>
      valid re [Required [''minReplicas'', ''maxReplicas'', ''targetCPUUtilization''],
        Properties [(''minReplicas'', [Type ''integer'', Minimum 1]), (''maxReplicas'', [Type ''integer'', Minimum 1]),
          (''targetCPUUtilization'', [Type ''integer'', Minimum 1, Maximum 100])]] x"
    using assms by (auto simp: values_schema_def helm_values_lookup case_option_True)
  from parts(1-4) show "\<exists>x. map_of sp ''image'' = Some x \<and> has_type ''string'' x"
    "\<exists>x. map_of sp ''port'' = Some x \<and> has_type ''integer'' x"
    "pred_option (valid re probe_schema) (map_of sp ''livenessProbe'')"
    "pred_option (valid re probe_schema) (map_of sp ''readinessProbe'')" by blast+
  from parts(5) show "pred_option (has_type ''string'') (map_of sp ''ingressClass'')"
    by (cases "map_of sp ''ingressClass''") simp_all
  from parts(6) show "\<exists>a. map_of sp ''autoscale'' = Some (VMap a) \<and>
      (\<forall>k \<in> {''minReplicas'', ''maxReplicas'', ''targetCPUUtilization''}.
        \<exists>x. map_of a k = Some x \<and> has_type ''integer'' x)"
    by (auto dest!: has_typeD(1))
qed

lemma schema_objects:
  assumes "valid re values_schema (VMap (helm_values v sp))"
  shows "pred_option (has_type ''object'') (map_of sp ''resources'')"
    and "pred_option (has_type ''object'') (map_of sp ''securityContext'')"
    and "pred_option (has_type ''object'') (map_of sp ''podSecurityContext'')"
    and "pred_option (valid re ingress_schema) (map_of sp ''ingress'')"
proof -
  have parts: "pred_option (valid re [Type ''object'']) (map_of sp ''resources'')"
    "pred_option (valid re [Type ''object'']) (map_of sp ''securityContext'')"
    "pred_option (valid re [Type ''object'']) (map_of sp ''podSecurityContext'')"
    "pred_option (valid re ingress_schema) (map_of sp ''ingress'')"
    using assms by (auto simp: values_schema_def helm_values_lookup case_option_True)
  moreover have "valid re [Type ''object''] = has_type ''object''" by (rule ext) simp
  ultimately show "pred_option (has_type ''object'') (map_of sp ''resources'')"
    "pred_option (has_type ''object'') (map_of sp ''securityContext'')"
    "pred_option (has_type ''object'') (map_of sp ''podSecurityContext'')"
    "pred_option (valid re ingress_schema) (map_of sp ''ingress'')" by simp_all
qed

text \<open>A release: the values of tier B over the defaults, for a document the schema accepts.\<close>

definition release_values ::
  "('ch, 'd, 't, 'k) ChartEnv \<Rightarrow> (string \<Rightarrow> go_values \<Rightarrow> go_values) \<Rightarrow> (string \<Rightarrow> string \<Rightarrow> bool) \<Rightarrow> workload_vars
   \<Rightarrow> go_values \<Rightarrow> 'k WorkloadSpec \<Rightarrow> go_values \<Rightarrow> bool" where
  "release_values E canon re v sp spec m \<longleftrightarrow> spec_reads E canon sp spec \<and> list_all (\<lambda>(k, _). k \<in> set spec_keys) sp \<and>
    valid re values_schema (VMap (helm_values v sp)) \<and> coalesced (helm_values v sp) chart_defaults m"

lemma release_unknown:
  assumes "release_values E canon re v sp spec m" and "k \<notin> set spec_keys"
  shows "map_of sp k = None"
proof -
  have "k \<notin> fst ` set sp" using assms by (auto simp: release_values_def list_all_iff)
  then show ?thesis by (simp add: map_of_eq_None_iff)
qed

lemma release_scalars:
  assumes "release_values E canon re v sp spec m"
  shows "field ''name'' (VMap m) = VStr (var_name v)" "field ''namespace'' (VMap m) = VStr (var_namespace v)"
    "field ''image'' (VMap m) = VStr (Image spec)" "field ''port'' (VMap m) = VInt (sint (Port spec))"
    "field ''ingressClass'' (VMap m) = VStr (IngressClass spec)"
    "field ''networkPolicy'' (VMap m) = VMap
      [(''enabled'', VBool True), (''metadataIP'', VStr ''169.254.169.254/32'')]"
proof -
  from assms have c: "coalesced (helm_values v sp) chart_defaults m" and reads: "spec_reads E canon sp spec"
    and ok: "valid re values_schema (VMap (helm_values v sp))" by (simp_all add: release_values_def)
  note required = schema_required [OF ok]
  show "field ''name'' (VMap m) = VStr (var_name v)" "field ''namespace'' (VMap m) = VStr (var_namespace v)"
    by (rule coalesced_given [OF c]; simp add: helm_values_lookup)+
  obtain x where "map_of sp ''image'' = Some x" "has_type ''string'' x" using required(1) by blast
  moreover from this reads have "x = VStr (Image spec)" by (auto simp: spec_reads_def dest: has_typeD)
  ultimately show "field ''image'' (VMap m) = VStr (Image spec)"
    by (intro coalesced_given [OF c]) (simp_all add: helm_values_lookup)
  obtain x where "map_of sp ''port'' = Some x" "has_type ''integer'' x" using required(2) by blast
  moreover from this reads have "x = VInt (sint (Port spec))" by (auto simp: spec_reads_def dest: has_typeD)
  ultimately show "field ''port'' (VMap m) = VInt (sint (Port spec))"
    by (intro coalesced_given [OF c]) (simp_all add: helm_values_lookup)
  show "field ''ingressClass'' (VMap m) = VStr (IngressClass spec)"
  proof (cases "map_of sp ''ingressClass''")
    case None
    with reads have "IngressClass spec = []" by (simp add: spec_reads_def)
    with None show ?thesis by (simp add: coalesced_default [OF c] helm_values_lookup chart_defaults_def)
  next
    case (Some x)
    with required(5) reads have "x = VStr (IngressClass spec)" by (auto simp: spec_reads_def dest: has_typeD)
    with Some show ?thesis by (intro coalesced_given [OF c]) (simp_all add: helm_values_lookup)
  qed
  have "map_of sp ''networkPolicy'' = None" by (rule release_unknown [OF assms]) (simp add: spec_keys_def)
  then show "field ''networkPolicy'' (VMap m) = VMap
      [(''enabled'', VBool True), (''metadataIP'', VStr ''169.254.169.254/32'')]"
    by (simp add: coalesced_default [OF c] helm_values_lookup chart_defaults_def)
qed

lemma release_autoscale:
  assumes "release_values E canon re v sp spec m"
  shows "field ''minReplicas'' (field ''autoscale'' (VMap m)) = VInt (sint (MinReplicas (specAutoscale spec)))"
    "field ''maxReplicas'' (field ''autoscale'' (VMap m)) = VInt (sint (MaxReplicas (specAutoscale spec)))"
    "field ''targetCPUUtilization'' (field ''autoscale'' (VMap m)) =
      VInt (sint (TargetCPUUtilization (specAutoscale spec)))"
    "field ''minAvailable'' (field ''pdb'' (VMap m)) = VInt (var_pdb_min_available v)"
proof -
  from assms have c: "coalesced (helm_values v sp) chart_defaults m" and reads: "spec_reads E canon sp spec"
    and ok: "valid re values_schema (VMap (helm_values v sp))" by (simp_all add: release_values_def)
  obtain a where a: "map_of sp ''autoscale'' = Some (VMap a)" and ints:
    "\<forall>k \<in> {''minReplicas'', ''maxReplicas'', ''targetCPUUtilization''}. \<exists>x. map_of a k = Some x \<and> has_type ''integer'' x"
    using schema_required(6) [OF ok] by blast
  from reads a ints have vals: "map_of a ''minReplicas'' = Some (VInt (sint (MinReplicas (specAutoscale spec))))"
    "map_of a ''maxReplicas'' = Some (VInt (sint (MaxReplicas (specAutoscale spec))))"
    "map_of a ''targetCPUUtilization'' = Some (VInt (sint (TargetCPUUtilization (specAutoscale spec))))"
    by (auto simp: spec_reads_def dest: has_typeD)
  have h: "map_of (helm_values v sp) ''autoscale'' = Some (VMap a)"
    "map_of (helm_values v sp) ''pdb'' = Some (VMap [(''minAvailable'', VInt (var_pdb_min_available v))])"
    by (simp_all add: helm_values_lookup a)
  have d: "map_of chart_defaults ''autoscale'' = Some (VMap [(''minReplicas'', VInt 2),
      (''maxReplicas'', VInt 10), (''targetCPUUtilization'', VInt 70)])"
    "map_of chart_defaults ''pdb'' = Some (VMap [(''minAvailable'', VInt 1)])"
    by (simp_all add: chart_defaults_def)
  obtain t where "field ''autoscale'' (VMap m) = VMap t" and "map_of t =
      map_of [(''minReplicas'', VInt 2), (''maxReplicas'', VInt 10), (''targetCPUUtilization'', VInt 70)] ++ map_of a"
    using coalesced_table [OF c h(1) d(1)] by metis
  with vals show "field ''minReplicas'' (field ''autoscale'' (VMap m)) = VInt (sint (MinReplicas (specAutoscale spec)))"
    "field ''maxReplicas'' (field ''autoscale'' (VMap m)) = VInt (sint (MaxReplicas (specAutoscale spec)))"
    "field ''targetCPUUtilization'' (field ''autoscale'' (VMap m)) =
      VInt (sint (TargetCPUUtilization (specAutoscale spec)))"
    by (simp_all add: map_add_def)
  obtain t where "field ''pdb'' (VMap m) = VMap t" and "map_of t =
      map_of [(''minAvailable'', VInt 1)] ++ map_of [(''minAvailable'', VInt (var_pdb_min_available v))]"
    using coalesced_table [OF c h(2) d(2)] by metis
  then show "field ''minAvailable'' (field ''pdb'' (VMap m)) = VInt (var_pdb_min_available v)"
    by (simp add: map_add_def)
qed

lemma release_probe:
  assumes "release_values E canon re v sp spec m" and "k \<in> {''livenessProbe'', ''readinessProbe''}"
    and "reads_probe (field k (VMap sp)) probe" and "pred_option (valid re probe_schema) (map_of sp k)"
  shows "probe_entry yaml (VMap m) k = (case probe of
      None \<Rightarrow> []
    | Some p \<Rightarrow> if probePath p = [] then []
        else [(k, VMap [(''httpGet'', VMap
          [(''path'', yaml (probePath p)), (''port'', VInt (sint (probePort p)))])])])"
proof -
  from assms(1) have c: "coalesced (helm_values v sp) chart_defaults m" by (simp add: release_values_def)
  have h: "map_of (helm_values v sp) k = map_of sp k" and d: "map_of chart_defaults k = Some (VMap [])"
    using assms(2) by (auto simp: helm_values_lookup chart_defaults_def)
  show ?thesis
  proof (cases "map_of sp k")
    case None
    with assms(3) have "probe = None" by (auto simp: reads_probe_def split: option.splits)
    with None show ?thesis by (simp add: probe_entry_def coalesced_default [OF c] h d)
  next
    case (Some x)
    with assms(4) have ok: "valid re probe_schema x" by simp
    then obtain t where t: "x = VMap t" by (auto simp: probe_schema_def dest: has_typeD)
    with assms(3) Some obtain p where p: "probe = Some p" "reads_string (field ''path'' (VMap t)) (probePath p)"
      "reads_int (field ''port'' (VMap t)) (probePort p)"
      by (auto simp: reads_probe_def split: option.splits)
    obtain c where c: "field k (VMap m) = VMap c" "map_of c = map_of t"
      using coalesced_table [OF c _ d, of t] Some t h by auto
    then have fields: "field f (VMap c) = field f (VMap t)" for f by (simp add: field_def)
    show ?thesis
    proof (cases "probePath p = []")
      case True
      with p(2) have "\<not> go_true (field ''path'' (VMap t))" by (cases "field ''path'' (VMap t)") auto
      with p(1) True show ?thesis by (simp add: probe_entry_def c(1) fields)
    next
      case False
      then have path: "map_of t ''path'' = Some (VStr (probePath p))" and "c \<noteq> []"
        using p(2) c(2) by (auto simp: field_def split: option.splits elim!: reads_string.elims(2))
      moreover obtain y where "map_of t ''port'' = Some y" "has_type ''integer'' y"
        using ok path t by (auto simp: probe_schema_def split: option.splits)
      moreover from this p(3) have "y = VInt (sint (probePort p))" by (auto dest: has_typeD)
      ultimately show ?thesis using p(1) False by (simp add: probe_entry_def c(1) fields Let_def)
    qed
  qed
qed

lemma release_probes:
  assumes "release_values E canon re v sp spec m" and "spec_values E' name namespace spec m'"
  shows "probe_entry yaml (VMap m) ''livenessProbe'' = probe_entry yaml (VMap m') ''livenessProbe''"
    and "probe_entry yaml (VMap m) ''readinessProbe'' = probe_entry yaml (VMap m') ''readinessProbe''"
proof -
  from assms(1) have "spec_reads E canon sp spec" and "valid re values_schema (VMap (helm_values v sp))"
    by (simp_all add: release_values_def)
  note required = schema_required(3,4) [OF this(2)] and reads = this(1) [unfolded spec_reads_def Let_def]
  show "probe_entry yaml (VMap m) ''livenessProbe'' = probe_entry yaml (VMap m') ''livenessProbe''"
    using release_probe [OF assms(1), of "''livenessProbe''" "LivenessProbe spec" yaml] required reads
    by (simp add: probe_entry_probe [OF spec_probes(1-3) [OF assms(2)]])
  show "probe_entry yaml (VMap m) ''readinessProbe'' = probe_entry yaml (VMap m') ''readinessProbe''"
    using release_probe [OF assms(1), of "''readinessProbe''" "ReadinessProbe spec" yaml] required reads
    by (simp add: probe_entry_probe [OF spec_probes(4-6) [OF assms(2)]])
qed

text \<open>The tables that are passed on as they are: the contexts and the resources.\<close>

definition table :: "any \<Rightarrow> go_values option \<Rightarrow> bool" where
  "table x t \<longleftrightarrow> (case x of VMap c \<Rightarrow> map_of c = map_of (the_default [] t) | _ \<Rightarrow> False)"

lemma coalesced_over_empty_table:
  "coalesced v d m \<Longrightarrow> map_of d k = Some (VMap []) \<Longrightarrow> map_of v k = map_option VMap t \<Longrightarrow> table (field k (VMap m)) t"
  using coalesced_over_empty [of v d m k t] by (auto simp: table_def split: any.splits)

lemma same_tables:
  assumes "table x t" and "table y u" and "map_of (the_default [] t) = map_of (the_default [] u)"
  shows "same x y" and "go_true x = go_true y"
  using assms by (auto simp: table_def intro: same_map split: any.splits)

lemma given_table:
  assumes "coalesced (helm_values v sp) chart_defaults m" and "pred_option (has_type ''object'') (map_of sp k)"
    and "k \<in> {''resources'', ''securityContext'', ''podSecurityContext''}"
  obtains t where "map_of sp k = map_option VMap t" and "table (field k (VMap m)) t"
    and "field k (VMap sp) = (case t of None \<Rightarrow> VNil | Some t \<Rightarrow> VMap t)"
proof -
  obtain t where t: "map_of sp k = map_option VMap t"
  proof (cases "map_of sp k")
    case None
    then show thesis using that [of None] by simp
  next
    case (Some x)
    with assms(2) obtain c where "x = VMap c" by (auto dest: has_typeD)
    with Some show thesis using that [of "Some c"] by simp
  qed
  moreover have "map_of (helm_values v sp) k = map_option VMap t" "map_of chart_defaults k = Some (VMap [])"
    using assms(3) t by (auto simp: helm_values_lookup chart_defaults_def)
  then have "table (field k (VMap m)) t" by (intro coalesced_over_empty_table [OF assms(1)])
  moreover from t have "field k (VMap sp) = (case t of None \<Rightarrow> VNil | Some t \<Rightarrow> VMap t)"
    by (cases t) simp_all
  ultimately show thesis using that by blast
qed

lemma resources_table:
  assumes "reads_resources (ResourcesToUnstructured E) canon (case t of None \<Rightarrow> VNil | Some t \<Rightarrow> VMap t) (Resources spec)"
    and "canon [] = []"
  shows "\<exists>u. projr (resources_value E spec) = map_option VMap u \<and> map_of (the_default [] u) = map_of (canon (the_default [] t))"
proof (cases "Requests (Resources spec) = None \<and> Limits (Resources spec) = None")
  case True
  with assms have "map_of (canon (the_default [] t)) = Map.empty"
    by (cases t) (auto simp: reads_resources_def)
  with True show ?thesis by (intro exI [of _ None]) (simp add: resources_value_def)
next
  case False
  with assms obtain t' res where "t = Some t'" "ResourcesToUnstructured E (Resources spec) = Inr res"
    "map_of res = map_of (canon t')"
    by (cases t) (auto simp: reads_resources_def split: sum.splits)
  with False show ?thesis
    by (intro exI [of _ "if res = [] then None else Some res"]) (auto simp: resources_value_def)
qed

lemma context_table:
  assumes "reads_context convert canon (case t of None \<Rightarrow> VNil | Some t \<Rightarrow> VMap t) c" and "canon [] = []"
  shows "\<exists>u. projr (override_value convert c) = map_option VMap u \<and> map_of (the_default [] u) = map_of (canon (the_default [] t))"
  using assms by (intro exI [of _ "map_option (\<lambda>c. projr (convert c)) c"])
    (auto simp: reads_context_def override_value_def split: option.splits sum.splits)

text \<open>The values of a release with these tables in canonical form; everything else is as it was.\<close>

definition canonical_value :: "(string \<Rightarrow> go_values \<Rightarrow> go_values) \<Rightarrow> string \<Rightarrow> any \<Rightarrow> any" where
  "canonical_value canon k x = (case x of
     VMap t \<Rightarrow> if k \<in> {''resources'', ''securityContext'', ''podSecurityContext''} then VMap (canon k t) else x
   | _ \<Rightarrow> x)"

definition in_canonical_form :: "(string \<Rightarrow> go_values \<Rightarrow> go_values) \<Rightarrow> go_values \<Rightarrow> go_values" where
  "in_canonical_form canon m = map (\<lambda>(k, x). (k, canonical_value canon k x)) m"

lemma map_of_in_canonical_form:
  "map_of (in_canonical_form canon m) k = map_option (canonical_value canon k) (map_of m k)"
  by (induction m) (auto simp: in_canonical_form_def)

lemma canonical_field:
  "k \<notin> {''resources'', ''securityContext'', ''podSecurityContext''} \<Longrightarrow>
    field k (VMap (in_canonical_form canon m)) = field k (VMap m)"
  "k \<in> {''resources'', ''securityContext'', ''podSecurityContext''} \<Longrightarrow> field k (VMap m) = VMap t \<Longrightarrow>
    field k (VMap (in_canonical_form canon m)) = VMap (canon k t)"
  by (auto simp: field_def map_of_in_canonical_form canonical_value_def split: option.splits any.splits)

lemma already_canonical: "in_canonical_form (\<lambda>_ t. t) m = m"
  by (induction m) (auto simp: in_canonical_form_def canonical_value_def split: any.split)

lemma release_tables:
  assumes release: "release_values E canon re v sp spec m" and spec: "spec_values E name namespace spec m'"
    and canon: "canonical_form canon"
    and k: "k \<in> {''resources'', ''securityContext'', ''podSecurityContext''}"
  shows "same (field k (VMap m')) (field k (VMap (in_canonical_form canon m)))"
    and "go_true (field k (VMap m')) = go_true (field k (VMap (in_canonical_form canon m)))"
proof -
  from release have c: "coalesced (helm_values v sp) chart_defaults m" and reads: "spec_reads E canon sp spec"
    and ok: "valid re values_schema (VMap (helm_values v sp))" by (simp_all add: release_values_def)
  from canon have nil: "canon k [] = []" for k by (simp add: canonical_form_def)
  have "pred_option (has_type ''object'') (map_of sp k)" using k schema_objects(1-3) [OF ok] by blast
  with c obtain t where t: "table (field k (VMap m)) t" and
    f: "field k (VMap sp) = (case t of None \<Rightarrow> VNil | Some t \<Rightarrow> VMap t)" using k by (rule given_table)
  from t obtain w where w: "field k (VMap m) = VMap w" "map_of w = map_of (the_default [] t)"
    by (auto simp: table_def split: any.splits)
  from canon w(2) have "map_of (canon k w) = map_of (canon k (the_default [] t))"
    unfolding canonical_form_def by blast
  then have tc: "table (field k (VMap (in_canonical_form canon m))) (Some (canon k (the_default [] t)))"
    by (simp add: table_def canonical_field(2) [OF k w(1)])
  obtain v' where c': "coalesced v' chart_defaults m'" and v': "map_of v' = spec_map E name namespace spec"
    using spec by (rule spec_valuesE)
  have d: "map_of chart_defaults k = Some (VMap [])" using k by (auto simp: chart_defaults_def)
  consider "k = ''resources''" | "k = ''securityContext''" | "k = ''podSecurityContext''" using k by blast
  then have "\<exists>u. map_of v' k = map_option VMap u \<and> map_of (the_default [] u) = map_of (canon k (the_default [] t))"
  proof cases
    case 1
    with reads f have "reads_resources (ResourcesToUnstructured E) (canon k)
        (case t of None \<Rightarrow> VNil | Some t \<Rightarrow> VMap t) (Resources spec)" by (simp add: spec_reads_def Let_def)
    from resources_table [OF this nil] 1 show ?thesis by (simp add: v' spec_map_def)
  next
    case 2
    with reads f have "reads_context (SecurityToUnstructured E) (canon k)
        (case t of None \<Rightarrow> VNil | Some t \<Rightarrow> VMap t) (SecurityContext spec)" by (simp add: spec_reads_def Let_def)
    from context_table [OF this nil] 2 show ?thesis by (simp add: v' spec_map_def)
  next
    case 3
    with reads f have "reads_context (PodSecurityToUnstructured E) (canon k)
        (case t of None \<Rightarrow> VNil | Some t \<Rightarrow> VMap t) (PodSecurityContext spec)" by (simp add: spec_reads_def Let_def)
    from context_table [OF this nil] 3 show ?thesis by (simp add: v' spec_map_def)
  qed
  then obtain u where u: "map_of v' k = map_option VMap u"
    and eq: "map_of (the_default [] u) = map_of (canon k (the_default [] t))" by blast
  note same = same_tables [OF coalesced_over_empty_table [OF c' d u] tc]
  show "same (field k (VMap m')) (field k (VMap (in_canonical_form canon m)))" by (rule same(1)) (simp add: eq)
  show "go_true (field k (VMap m')) = go_true (field k (VMap (in_canonical_form canon m)))"
    by (rule same(2)) (simp add: eq)
qed

text \<open>The ingress: a string of the document, or its default.\<close>

lemma string_or_default:
  assumes "field k x = (case map_of t k of None \<Rightarrow> VStr d | Some y \<Rightarrow> y)"
    and "pred_option (has_type ''string'') (map_of t k)"
    and "case field k (VMap t) of VNil \<Rightarrow> s = d | y \<Rightarrow> reads_string y s"
  shows "field k x = VStr s"
proof (cases "map_of t k")
  case None
  with assms show ?thesis by simp
next
  case (Some y)
  with assms show ?thesis by (cases y) auto
qed

lemma release_no_ingress:
  assumes "release_values E canon re v sp spec m" and "specIngress spec = None"
  shows "field ''enabled'' (field ''ingress'' (VMap m)) = VBool False"
proof -
  from assms(1) have c: "coalesced (helm_values v sp) chart_defaults m" and reads: "spec_reads E canon sp spec"
    and ok: "valid re values_schema (VMap (helm_values v sp))" by (simp_all add: release_values_def)
  have "map_of sp ''ingress'' = None"
  proof (cases "map_of sp ''ingress''")
    case (Some x)
    with schema_objects(4) [OF ok] obtain t where "x = VMap t" by (auto simp: ingress_schema_def dest: has_typeD)
    with Some reads assms(2) show ?thesis by (simp add: spec_reads_def reads_ingress_def)
  qed
  then show ?thesis by (simp add: coalesced_default [OF c] helm_values_lookup chart_defaults_def)
qed

lemma release_ingress:
  assumes "release_values E canon re v sp spec m" and "specIngress spec = Some i"
  shows "field ''enabled'' (field ''ingress'' (VMap m)) =
      (case field ''enabled'' (field ''ingress'' (VMap sp)) of VNil \<Rightarrow> VBool False | x \<Rightarrow> x)"
    and "field ''host'' (field ''ingress'' (VMap m)) = VStr (Host i)"
    and "field ''path'' (field ''ingress'' (VMap m)) = VStr (ingressPath i)"
    and "field ''pathType'' (field ''ingress'' (VMap m)) = VStr (PathType i)"
proof -
  from assms(1) have c: "coalesced (helm_values v sp) chart_defaults m" and reads: "spec_reads E canon sp spec"
    and ok: "valid re values_schema (VMap (helm_values v sp))" by (simp_all add: release_values_def)
  let ?d = "[(''enabled'', VBool False), (''host'', VStr []), (''path'', VStr ''/''), (''pathType'', VStr ''Prefix'')]"
  have d: "map_of chart_defaults ''ingress'' = Some (VMap ?d)" by (simp add: chart_defaults_def)
  have r: "reads_ingress (field ''ingress'' (VMap sp)) (Some i)" using reads assms(2) by (simp add: spec_reads_def)
  obtain t where t: "field ''ingress'' (VMap sp) = VMap t"
    using r by (cases "field ''ingress'' (VMap sp)") (simp_all add: reads_ingress_def)
  have host: "reads_string (field ''host'' (VMap t)) (Host i)"
    and strings: "case field ''path'' (VMap t) of VNil \<Rightarrow> ingressPath i = ''/'' | y \<Rightarrow> reads_string y (ingressPath i)"
      "case field ''pathType'' (VMap t) of VNil \<Rightarrow> PathType i = ''Prefix'' | y \<Rightarrow> reads_string y (PathType i)"
    using r by (simp_all add: reads_ingress_def t)
  from t have sp: "map_of sp ''ingress'' = Some (VMap t)" by (auto simp: field_def split: option.splits)
  from sp schema_objects(4) [OF ok] have "valid re ingress_schema (VMap t)" by simp
  then have types: "map_of t ''enabled'' \<noteq> Some VNil" "pred_option (has_type ''string'') (map_of t ''host'')"
    "pred_option (has_type ''string'') (map_of t ''path'')" "pred_option (has_type ''string'') (map_of t ''pathType'')"
    by (auto simp: ingress_schema_def split: option.splits)
  obtain e where "field ''ingress'' (VMap m) = VMap e" and "map_of e = map_of ?d ++ map_of t"
    using coalesced_table [OF c _ d, of t] sp by (auto simp: helm_values_lookup)
  then have look: "field k (field ''ingress'' (VMap m)) =
      (case map_of t k of None \<Rightarrow> field k (VMap ?d) | Some y \<Rightarrow> y)" for k
    by (simp add: field_def map_add_def split: option.split)
  show "field ''enabled'' (field ''ingress'' (VMap m)) =
      (case field ''enabled'' (field ''ingress'' (VMap sp)) of VNil \<Rightarrow> VBool False | x \<Rightarrow> x)"
    using types(1) by (cases "map_of t ''enabled''") (auto simp: look t split: any.split)
  show "field ''host'' (field ''ingress'' (VMap m)) = VStr (Host i)"
  proof (rule string_or_default [OF _ types(2)])
    show "case field ''host'' (VMap t) of VNil \<Rightarrow> Host i = [] | y \<Rightarrow> reads_string y (Host i)"
      using host by (cases "field ''host'' (VMap t)") simp_all
  qed (simp add: look split: option.split)
  show "field ''path'' (field ''ingress'' (VMap m)) = VStr (ingressPath i)"
    by (rule string_or_default [OF _ types(3) strings(1)]) (simp add: look split: option.split)
  show "field ''pathType'' (field ''ingress'' (VMap m)) = VStr (PathType i)"
    by (rule string_or_default [OF _ types(4) strings(2)]) (simp add: look split: option.split)
qed

text \<open>The documents of tier B for the same document, part by part.\<close>

lemma same_entries: "same x y \<Longrightarrow> same (VMap ((k, x) # a)) (VMap ((k, y) # a))"
  by (rule same_entry [OF _ same_refl])

lemma same_rest: "same (VMap a) (VMap b) \<Longrightarrow> same (VMap ((k, x) # a)) (VMap ((k, x) # b))"
  by (rule same_entry [OF same_refl])

lemma same_singleton: "same x y \<Longrightarrow> same (VList [x]) (VList [y])"
  by (rule same_item [OF _ same_refl])

lemma same_append: "same (VMap a) (VMap b) \<Longrightarrow> same (VMap (c @ a)) (VMap (c @ b))"
  by (induction c) (auto intro: same_rest)

text \<open>The fields the templates look at, of the values in canonical form.\<close>

lemma release_fields:
  assumes "release_values E canon re v sp spec m"
  defines "m' \<equiv> in_canonical_form canon m"
  shows "field ''name'' (VMap m') = VStr (var_name v)" "field ''namespace'' (VMap m') = VStr (var_namespace v)"
    "field ''image'' (VMap m') = VStr (Image spec)" "field ''port'' (VMap m') = VInt (sint (Port spec))"
    "field ''ingressClass'' (VMap m') = VStr (IngressClass spec)"
    "field ''networkPolicy'' (VMap m') = VMap [(''enabled'', VBool True), (''metadataIP'', VStr ''169.254.169.254/32'')]"
    "field ''minReplicas'' (field ''autoscale'' (VMap m')) = VInt (sint (MinReplicas (specAutoscale spec)))"
    "field ''maxReplicas'' (field ''autoscale'' (VMap m')) = VInt (sint (MaxReplicas (specAutoscale spec)))"
    "field ''targetCPUUtilization'' (field ''autoscale'' (VMap m')) =
      VInt (sint (TargetCPUUtilization (specAutoscale spec)))"
    "field ''minAvailable'' (field ''pdb'' (VMap m')) = VInt (var_pdb_min_available v)"
    "field ''ingress'' (VMap m') = field ''ingress'' (VMap m)"
    "probe_entry yaml (VMap m') ''livenessProbe'' = probe_entry yaml (VMap m) ''livenessProbe''"
    "probe_entry yaml (VMap m') ''readinessProbe'' = probe_entry yaml (VMap m) ''readinessProbe''"
  by (simp_all add: m'_def canonical_field(1) release_scalars [OF assms(1)] release_autoscale [OF assms(1)] probe_entry_def)

definition budget_doc :: "(string \<Rightarrow> any) \<Rightarrow> any \<Rightarrow> int \<Rightarrow> go_values" where
  "budget_doc yaml vals n = document yaml vals ''policy/v1'' ''PodDisruptionBudget'' (plain yaml (field ''name'' vals)) (VMap
     [(''minAvailable'', VInt n), (''selector'', VMap [(''matchLabels'', selectorLabels yaml vals)])])"

lemma release_documents:
  assumes release: "release_values E canon re v sp spec m" and spec: "spec_values E (var_name v) (var_namespace v) spec m'"
    and canon: "canonical_form canon"
  defines "mc \<equiv> in_canonical_form canon m"
  shows "same_document (deployment_doc yaml (VMap m')) (deployment_doc yaml (VMap mc))"
    and "hpa_doc yaml (VMap m') = hpa_doc yaml (VMap mc)"
    and "networkpolicy_docs yaml (VMap m') = networkpolicy_docs yaml (VMap mc)"
    and "pdb_doc yaml (VMap m') = budget_doc yaml (VMap m') 1"
    and "pdb_doc yaml (VMap mc) = budget_doc yaml (VMap m') (var_pdb_min_available v)"
    and "service_doc yaml (VMap m') = service_doc yaml (VMap mc)"
proof -
  note fields = spec_scalars [OF spec] spec_autoscale [OF spec] spec_network [OF spec]
    release_fields [OF release, folded mc_def]
  have doc: "document yaml (VMap m') version kind n s = document yaml (VMap mc) version kind n s" for version kind n s
    by (simp add: document_def workload_labels_def fields)
  have labels: "selectorLabels yaml (VMap m') = selectorLabels yaml (VMap mc)"
    "workload_labels yaml (VMap m') = workload_labels yaml (VMap mc)"
    by (simp_all add: selectorLabels_def workload_labels_def fields)
  show "hpa_doc yaml (VMap m') = hpa_doc yaml (VMap mc)"
    by (simp add: hpa_doc_def doc labels fields)
  show "networkpolicy_docs yaml (VMap m') = networkpolicy_docs yaml (VMap mc)"
    by (simp add: networkpolicy_docs_def deny_doc_def allow_doc_def doc labels fields)
  show "pdb_doc yaml (VMap m') = budget_doc yaml (VMap m') 1"
    by (simp add: pdb_doc_def budget_doc_def fields)
  show "pdb_doc yaml (VMap mc) = budget_doc yaml (VMap m') (var_pdb_min_available v)"
    by (simp add: pdb_doc_def budget_doc_def doc labels fields)
  show "service_doc yaml (VMap m') = service_doc yaml (VMap mc)"
    by (simp add: service_doc_def doc labels fields)
  note tables = release_tables [OF release spec canon, folded mc_def]
  have pod: "same (pod_security_context (VMap m')) (pod_security_context (VMap mc))"
    using tables [of "''podSecurityContext''"] by (simp add: pod_security_context_def Let_def same_refl)
  have sec: "same (security_context (VMap m')) (security_context (VMap mc))"
    using tables [of "''securityContext''"] by (simp add: security_context_def Let_def same_refl)
  have "same (VMap (if go_true (field ''resources'' (VMap m')) then [(''resources'', field ''resources'' (VMap m'))] else []))
      (VMap (if go_true (field ''resources'' (VMap mc)) then [(''resources'', field ''resources'' (VMap mc))] else []))"
    using tables [of "''resources''"] by (simp add: same_refl same_entries)
  then have "same (container yaml (VMap m')) (container yaml (VMap mc))"
    unfolding container_def fields release_probes [OF release spec] append.simps
    by (intro same_rest same_entry [OF sec] same_append)
  from same_entry [OF pod same_entries [OF same_singleton [OF this]]]
  show "same_document (deployment_doc yaml (VMap m')) (deployment_doc yaml (VMap mc))"
    unfolding same_document_def deployment_doc_def doc labels fields document_def
    by (rule same_rest [OF same_rest [OF same_rest [OF same_entries [OF
          same_rest [OF same_rest [OF same_entries [OF same_rest [OF same_entries]]]]]]]])
qed

lemma release_renders_the_same:
  assumes "release_values E canon re v sp spec mB" and "canonical_form canon"
    and "spec_values E (var_name v) (var_namespace v) spec mA"
  shows "let lost = (specIngress spec \<noteq> None \<and>
      \<not> go_true (field ''enabled'' (field ''ingress'' (VMap sp)))) in
    list_all2 (\<lambda>(t, docsA) (t', docsB). t = t' \<and>
        (if lost \<and> t = ''workload/templates/ingress.yaml'' then length docsA = 1 \<and> docsB = []
         else if t = ''workload/templates/pdb.yaml''
         then docsA = [budget_doc yaml (VMap mA) 1] \<and> docsB = [budget_doc yaml (VMap mA) (var_pdb_min_available v)]
         else list_all2 same_document docsA docsB))
      (chart_templates yaml (VMap mA)) (chart_templates yaml (VMap (in_canonical_form canon mB)))"
proof -
  let ?mC = "in_canonical_form canon mB"
  note docs = release_documents [OF assms(1,3,2), of yaml]
  note fields = spec_scalars [OF assms(3)] spec_ingress [OF assms(3)] release_fields [OF assms(1)]
  have doc: "document yaml (VMap mA) version kind n s = document yaml (VMap ?mC) version kind n s" for version kind n s
    by (simp add: document_def workload_labels_def fields)
  have ingress: "ingress_docs yaml (VMap mA) = [] \<and> ingress_docs yaml (VMap ?mC) = []" if "specIngress spec = None"
    using that by (simp add: ingress_docs_def fields release_no_ingress [OF assms(1)] Let_def)
  have "length (ingress_docs yaml (VMap mA)) = 1 \<and>
      (if go_true (field ''enabled'' (field ''ingress'' (VMap sp)))
       then ingress_docs yaml (VMap ?mC) = ingress_docs yaml (VMap mA) else ingress_docs yaml (VMap ?mC) = [])"
    if i: "specIngress spec = Some i" for i
  proof -
    note release = release_ingress [OF assms(1) i]
    have "go_true (field ''enabled'' (field ''ingress'' (VMap mB))) =
        go_true (field ''enabled'' (field ''ingress'' (VMap sp)))"
      by (simp add: release split: any.split)
    then show ?thesis
      by (simp add: ingress_docs_def Let_def doc fields release(2-4) i or_default_def)
  qed
  with ingress show ?thesis
    by (cases "specIngress spec") (simp_all add: chart_templates_def docs list_all2_same Let_def)
qed

text \<open>What is planned in the two tiers, from one set of variables.\<close>

lemma planned_tiers:
  assumes "workload_module yamldecode (v\<lparr>var_install_tier := ''A''\<rparr>) = Some planA" and "WorkloadCR cr \<in> set planA"
    and "workload_module yamldecode (v\<lparr>var_install_tier := ''B''\<rparr>) = Some planB" and "HelmRelease h \<in> set planB"
  obtains sp where "spec_of_yaml yamldecode (var_spec_yaml v) = Some sp" and "hrValues h = helm_values v sp"
    and "hrName h = var_name v" and "hrNamespace h = var_namespace v" and "field ''spec'' (VMap (crManifest cr)) = VMap sp"
    and "field ''name'' (field ''metadata'' (VMap (crManifest cr))) = VStr (var_name v)"
    and "field ''namespace'' (field ''metadata'' (VMap (crManifest cr))) = VStr (var_namespace v)"
proof -
  obtain sp where sp: "spec_of_yaml yamldecode (var_spec_yaml v) = Some sp"
    using assms(1) by (auto simp: workload_module_def)
  have "hrValues h = helm_values v sp \<and> hrName h = var_name v \<and> hrNamespace h = var_namespace v"
    using assms(3,4) sp by (auto simp: workload_module_def workload_release_def helm_values_def)
  moreover have "crManifest cr = workload_manifest v sp"
    using assms(1,2) sp by (auto simp: workload_module_def workload_cr_def workload_manifest_def)
  ultimately show thesis using that [OF sp] by (simp add: workload_manifest_def)
qed

text \<open>Property C11: both tiers give the same manifests, up to three differences.  Let the module plan the custom
  resource \<open>cr\<close> in tier A and the release \<open>h\<close> in tier B, from the same variables; let the document have only
  fields of a spec, the values of the release be accepted by the schema of the chart, and the document be read
  by the operator as \<open>spec\<close>.  Then what the operator renders for \<open>cr\<close> and what Helm renders for \<open>h\<close> are the
  same documents, template by template, up to the order of map entries, except that
  (1) the resources and security contexts come out of the operator in the canonical form of the API machinery
  and out of Helm as they were written: the documents are the same once these three tables of the
  release are put into that form;
  (2) the module passes the ingress on without the key \<open>enabled\<close>, which only the operator sets, so an ingress
  of the document is rendered in tier A and silently left out in tier B, unless the document says
  \<open>enabled\<close> itself;
  (3) the disruption budget of tier A always asks for one pod, that of tier B for as many as the variable
  says.\<close>
theorem tiers_render_the_same_but:
  assumes "workload_module yamldecode (v\<lparr>var_install_tier := ''A''\<rparr>) = Some planA" and "WorkloadCR cr \<in> set planA"
    and "workload_module yamldecode (v\<lparr>var_install_tier := ''B''\<rparr>) = Some planB" and "HelmRelease h \<in> set planB"
    and "field ''spec'' (VMap (crManifest cr)) = VMap sp"
    and "list_all (\<lambda>(k, _). k \<in> set spec_keys) sp" and "valid re values_schema (VMap (hrValues h))"
    and "canonical_form canon" and "spec_reads E canon sp spec"
    and "spec_values E (hrName h) (hrNamespace h) spec mA" and "coalesced (hrValues h) chart_defaults mB"
  shows "let lost = (specIngress spec \<noteq> None \<and>
      \<not> go_true (field ''enabled'' (field ''ingress'' (VMap sp)))) in
    list_all2 (\<lambda>(t, docsA) (t', docsB). t = t' \<and>
        (if lost \<and> t = ''workload/templates/ingress.yaml'' then length docsA = 1 \<and> docsB = []
         else if t = ''workload/templates/pdb.yaml''
         then docsA = [budget_doc yaml (VMap mA) 1] \<and> docsB = [budget_doc yaml (VMap mA) (var_pdb_min_available v)]
         else list_all2 same_document docsA docsB))
      (chart_templates yaml (VMap mA)) (chart_templates yaml (VMap (in_canonical_form canon mB)))"
proof -
  from planned_tiers [OF assms(1-4)] assms(5)
  have h: "hrValues h = helm_values v sp" "hrName h = var_name v" "hrNamespace h = var_namespace v" by auto
  with assms(6,7,9,11) have "release_values E canon re v sp spec mB" by (simp add: release_values_def)
  from release_renders_the_same [OF this assms(8)] assms(10) h show ?thesis by simp
qed

subsection \<open>A document to try the property on\<close>

text \<open>A document with an ingress, as its host alone.\<close>

definition sample_document :: go_values where
  "sample_document =
    [(''image'', VStr ''nginx:1.27''), (''port'', VInt 8080),
     (''autoscale'', VMap [(''minReplicas'', VInt 2), (''maxReplicas'', VInt 10), (''targetCPUUtilization'', VInt 70)]),
     (''rolloutStrategy'', VStr ''Canary''), (''ingress'', VMap [(''host'', VStr ''app.example.com'')])]"

definition sample_vars :: workload_vars where
  "sample_vars = \<lparr>var_install_tier = ''A'', var_name = ''demo'', var_namespace = ''apps'', var_spec_yaml = ''spec'',
    var_workload_chart_path = ''../../charts/workload'', var_pdb_min_available = 2, var_wait_for_ready = True,
    var_wait_timeout = ''5m'', var_crd_ready = [], var_secrets_ready = []\<rparr>"

definition routed_spec :: "unit WorkloadSpec" where
  "routed_spec = sample_spec\<lparr>specIngress :=
    Some \<lparr>Host = ''app.example.com'', ingressPath = ''/'', PathType = ''Prefix''\<rparr>\<rparr>"

definition routed_values :: "bool \<Rightarrow> go_values" where
  "routed_values enabled =
    [(''ingress'', VMap [(''enabled'', VBool enabled), (''host'', VStr ''app.example.com''), (''path'', VStr ''/''),
      (''pathType'', VStr ''Prefix'')])] @
    (if enabled then [] else [(''rolloutStrategy'', VStr ''Canary''), (''pdb'', VMap [(''minAvailable'', VInt 2)])]) @
    sample_values ''demo''"

lemma routed_from_spec: "valuesFromSpec E ''demo'' ''apps'' routed_spec = Inr (base_values ''demo'' ''apps'' sample_spec @
    [(''ingress'', ingress_value \<lparr>Host = ''app.example.com'', ingressPath = ''/'', PathType = ''Prefix''\<rparr>)])"
  by (simp add: valuesFromSpec_def plain_values_def routed_spec_def sample_spec_def base_values_def)

lemma routed_coalesced:
  "coalesced (base_values ''demo'' ''apps'' sample_spec @
    [(''ingress'', ingress_value \<lparr>Host = ''app.example.com'', ingressPath = ''/'', PathType = ''Prefix''\<rparr>)])
    chart_defaults (routed_values True)"
  unfolding coalesced_def
proof
  fix k
  consider "k = ''autoscale''" | "k = ''pdb''" | "k = ''ingress''" | "k \<notin> {''autoscale'', ''pdb'', ''ingress''}" by blast
  then show "case (map_of (base_values ''demo'' ''apps'' sample_spec @
        [(''ingress'', ingress_value \<lparr>Host = ''app.example.com'', ingressPath = ''/'', PathType = ''Prefix''\<rparr>)]) k,
      map_of chart_defaults k) of
     (None, y) \<Rightarrow> map_of (routed_values True) k = y
   | (Some (VMap a), Some (VMap b)) \<Rightarrow>
       (case map_of (routed_values True) k of
          Some (VMap c) \<Rightarrow> map_of c = map_of b ++ map_of a \<and> (c = [] \<longleftrightarrow> a = [] \<and> b = [])
        | _ \<Rightarrow> False)
   | (Some x, _) \<Rightarrow> map_of (routed_values True) k = Some x"
    by cases (auto simp: routed_values_def sample_values_def base_values_def chart_defaults_def fun_eq_iff
      ingress_value_def Let_def)
qed

lemma sample_release_coalesced: "coalesced (helm_values sample_vars sample_document) chart_defaults (routed_values False)"
  unfolding coalesced_def helm_values_lookup
proof
  fix k
  consider "k = ''autoscale''" | "k = ''pdb''" | "k = ''ingress''" | "k \<notin> {''autoscale'', ''pdb'', ''ingress''}" by blast
  then show "case (((map_of sample_document)(''name'' \<mapsto> VStr (var_name sample_vars),
        ''namespace'' \<mapsto> VStr (var_namespace sample_vars),
        ''pdb'' \<mapsto> VMap [(''minAvailable'', VInt (var_pdb_min_available sample_vars))])) k, map_of chart_defaults k) of
     (None, y) \<Rightarrow> map_of (routed_values False) k = y
   | (Some (VMap a), Some (VMap b)) \<Rightarrow>
       (case map_of (routed_values False) k of
          Some (VMap c) \<Rightarrow> map_of c = map_of b ++ map_of a \<and> (c = [] \<longleftrightarrow> a = [] \<and> b = [])
        | _ \<Rightarrow> False)
   | (Some x, _) \<Rightarrow> map_of (routed_values False) k = Some x"
    by cases (auto simp: routed_values_def sample_values_def base_values_def chart_defaults_def fun_eq_iff
      sample_vars_def sample_document_def sample_spec_def)
qed

lemma sample_document_accepted: "valid (\<lambda>_ _. True) values_schema (VMap (helm_values sample_vars sample_document))"
  by (simp add: values_schema_def helm_values_lookup sample_document_def sample_vars_def ingress_schema_def)

lemma sample_document_reads: "spec_reads sample_env (\<lambda>_ t. t) sample_document routed_spec"
  by (simp add: spec_reads_def sample_document_def routed_spec_def sample_spec_def reads_probe_def reads_ingress_def
      reads_context_def reads_resources_def)

theorem tiers_render_witness:
  "length (ingress_docs VStr (VMap (routed_values True))) = 1 \<and> ingress_docs VStr (VMap (routed_values False)) = [] \<and>
   pdb_doc VStr (VMap (routed_values False)) = budget_doc VStr (VMap (routed_values True)) 2 \<and>
   same_document (deployment_doc VStr (VMap (routed_values True))) (deployment_doc VStr (VMap (routed_values False)))"
proof -
  let ?decode = "\<lambda>y. if y = ''spec'' then Some (VMap sample_document) else None"
  have spec: "spec_of_yaml ?decode (var_spec_yaml sample_vars) = Some sample_document"
    by (simp add: spec_of_yaml_def sample_vars_def) (simp add: sample_document_def)
  have same: "workload_cr (sample_vars\<lparr>var_install_tier := t\<rparr>) sample_document = workload_cr sample_vars sample_document"
    "workload_release (sample_vars\<lparr>var_install_tier := t\<rparr>) sample_document = workload_release sample_vars sample_document"
    for t by (simp_all add: workload_cr_def workload_manifest_def workload_release_def helm_values_def)
  have planA: "workload_module ?decode (sample_vars\<lparr>var_install_tier := ''A''\<rparr>) =
      Some [OrderingGate '':'', WorkloadCR (workload_cr sample_vars sample_document)]"
    and planB: "workload_module ?decode (sample_vars\<lparr>var_install_tier := ''B''\<rparr>) =
      Some [OrderingGate '':'', HelmRelease (workload_release sample_vars sample_document)]"
    using spec by (simp_all add: workload_module_def same ordering_input_def) (simp_all add: sample_vars_def)
  have h: "hrValues (workload_release sample_vars sample_document) = helm_values sample_vars sample_document"
    "hrName (workload_release sample_vars sample_document) = ''demo''"
    "hrNamespace (workload_release sample_vars sample_document) = ''apps''"
    "var_pdb_min_available sample_vars = 2"
    "field ''spec'' (VMap (crManifest (workload_cr sample_vars sample_document))) = VMap sample_document"
    "list_all (\<lambda>(k, _). k \<in> set spec_keys) sample_document" "specIngress routed_spec \<noteq> None"
    "\<not> go_true (field ''enabled'' (field ''ingress'' (VMap sample_document)))"
    by (simp_all add: workload_release_def workload_cr_def workload_manifest_def)
      (simp_all add: sample_vars_def sample_document_def spec_keys_def routed_spec_def)
  have "spec_values sample_env ''demo'' ''apps'' routed_spec (routed_values True)"
    using routed_from_spec routed_coalesced unfolding spec_values_def by blast
  moreover have "canonical_form (\<lambda>_ t. t)" by (simp add: canonical_form_def)
  ultimately show ?thesis
    using tiers_render_the_same_but [OF planA _ planB _ h(5,6), where yaml = VStr and mA = "routed_values True" and
        mB = "routed_values False" and re = "\<lambda>_ _. True" and canon = "\<lambda>_ t. t" and spec = routed_spec and E = sample_env]
      sample_document_accepted sample_document_reads sample_release_coalesced h
    by (simp add: chart_templates_def Let_def already_canonical)
qed

end
