(* ===== verification/Apply.thy ===== *)
theory Apply
  imports Workload_API
begin

text \<open>
  \<open>operator/internal/controller/apply.go\<close>: bringing one rendered object into the cluster without
  losing the fields the server owns.  The calls the reconciler makes through controller-runtime and
  the API machinery are the fields of \<open>WorkloadReconciler\<close>.  Nothing is assumed about them,
  except where a property names one of the contracts below, which state what their documentation
  promises.
\<close>

subsection \<open>Metadata\<close>

text \<open>Ranging over a \<open>nil\<close> map visits nothing.\<close>

definition entries :: "string_map option \<Rightarrow> string_map" where
  "entries m = (case m of None \<Rightarrow> [] | Some es \<Rightarrow> es)"

definition mergeStringMaps :: "string_map option \<Rightarrow> string_map option \<Rightarrow> string_map option" where
  "mergeStringMaps existing desired =
    (if existing = None \<and> desired = None then None
     else let out = [];
              out = copy_entries (entries existing) out;
              out = copy_entries (entries desired) out
          in Some out)"

definition reconcileMetadata :: "'k ClientObject \<Rightarrow> 'k ClientObject \<Rightarrow> 'k ClientObject" where
  "reconcileMetadata desired target = (let
     target = map_meta (\<lambda>m. m\<lparr>Labels := mergeStringMaps (Labels m) (Labels (object_meta desired))\<rparr>) target
   in map_meta (\<lambda>m. m\<lparr>Annotations := mergeStringMaps (Annotations m)
        (Annotations (object_meta desired))\<rparr>) target)"

subsection \<open>The spec of one object\<close>

definition copy_service_spec :: "'k ServiceSpec \<Rightarrow> 'k ServiceSpec \<Rightarrow> 'k ServiceSpec" where
  "copy_service_spec d t = (let
     clusterIP = ClusterIP t; clusterIPs = ClusterIPs t;
     t = d
   in if clusterIP \<noteq> [] then t\<lparr>ClusterIP := clusterIP, ClusterIPs := clusterIPs\<rparr> else t)"

definition copy_deployment_spec :: "'k DeploymentSpec \<Rightarrow> 'k DeploymentSpec \<Rightarrow> 'k DeploymentSpec" where
  "copy_deployment_spec d t = (let
     t = (if Selector t = None then t\<lparr>Selector := Selector d\<rparr> else t);
     selector = Selector t; replicas = Replicas t;
     t = d
   in t\<lparr>Selector := selector, Replicas := replicas\<rparr>)"

text \<open>A failed type assertion panics; the panic is an error of its own here.\<close>

definition assertion_panic :: "'k ClientObject \<Rightarrow> 'k ClientObject \<Rightarrow> go_error" where
  "assertion_panic target desired =
    ''interface conversion: client.Object is '' @ go_type target @ '', not '' @ go_type desired"

definition copy_spec :: "'k ClientObject \<Rightarrow> 'k ClientObject \<Rightarrow> 'k ClientObject go" where
  "copy_spec desired target =
    (case desired of
       Service _ d _ \<Rightarrow> (case target of
           Service m t s \<Rightarrow> Inr (Service m (copy_service_spec d t) s)
         | _ \<Rightarrow> Inl (assertion_panic target desired))
     | Deployment _ d _ \<Rightarrow> (case target of
           Deployment m t s \<Rightarrow> Inr (Deployment m (copy_deployment_spec d t) s)
         | _ \<Rightarrow> Inl (assertion_panic target desired))
     | HorizontalPodAutoscaler _ d _ \<Rightarrow> (case target of
           HorizontalPodAutoscaler m _ s \<Rightarrow> Inr (HorizontalPodAutoscaler m d s)
         | _ \<Rightarrow> Inl (assertion_panic target desired))
     | PodDisruptionBudget _ d _ \<Rightarrow> (case target of
           PodDisruptionBudget m _ s \<Rightarrow> Inr (PodDisruptionBudget m d s)
         | _ \<Rightarrow> Inl (assertion_panic target desired))
     | NetworkPolicy _ d \<Rightarrow> (case target of
           NetworkPolicy m _ \<Rightarrow> Inr (NetworkPolicy m d)
         | _ \<Rightarrow> Inl (assertion_panic target desired))
     | Ingress _ d _ \<Rightarrow> (case target of
           Ingress m _ s \<Rightarrow> Inr (Ingress m d s)
         | _ \<Rightarrow> Inl (assertion_panic target desired))
     | OtherObject _ _ _ \<Rightarrow> Inl (''apply: unsupported object kind '' @ go_type desired))"

subsection \<open>Applying one object\<close>

record NamespacedName =
  reqNamespace :: string
  reqName :: string

record Result =
  RequeueAfter :: int

text \<open>
  \<open>CreateOrUpdate\<close> takes the target and the function that mutates it.  \<open>GetDeployment\<close> returns the
  part of the Deployment the code reads.  \<open>PatchStatus\<close> is \<open>Status().Patch\<close> with a
  \<open>client.MergeFrom\<close> of its first argument.  \<open>SetStatusCondition\<close> reads the clock, so it is a
  computation.
\<close>

record ('w, 'k) WorkloadReconciler =
  GetWorkload :: "NamespacedName \<Rightarrow> ('w, api_error + 'k Workload) state"
  GetDeployment :: "NamespacedName \<Rightarrow> ('w, api_error + 'k DeploymentStatus) state"
  CreateOrUpdate :: "'k ClientObject \<Rightarrow> ('k ClientObject \<Rightarrow> 'k ClientObject go) \<Rightarrow> ('w, unit go) state"
  SetControllerReference :: "'k Workload \<Rightarrow> 'k ClientObject \<Rightarrow> 'k ClientObject go"
  SetStatusCondition :: "Condition list \<Rightarrow> Condition \<Rightarrow> ('w, Condition list) state"
  PatchStatus :: "'k Workload \<Rightarrow> 'k Workload \<Rightarrow> ('w, unit go) state"

text \<open>The function \<open>setOwnerAndApply\<close> hands to \<open>CreateOrUpdate\<close>.\<close>

definition mutate ::
  "('w, 'k) WorkloadReconciler \<Rightarrow> 'k Workload \<Rightarrow> 'k ClientObject \<Rightarrow> 'k ClientObject \<Rightarrow> 'k ClientObject go" where
  "mutate r wl desired target =
    (case SetControllerReference r wl target of
       Inl err \<Rightarrow> Inl err
     | Inr target \<Rightarrow> copy_spec desired (reconcileMetadata desired target))"

definition setOwnerAndApply ::
  "('w, 'k) WorkloadReconciler \<Rightarrow> 'k Workload \<Rightarrow> 'k ClientObject \<Rightarrow> ('w, unit go) state" where
  "setOwnerAndApply r wl desired = (let
     target = map_meta (\<lambda>m. m\<lparr>metaName := metaName (object_meta desired)\<rparr>) desired;
     target = map_meta (\<lambda>m. m\<lparr>metaNamespace := metaNamespace (object_meta desired)\<rparr>) target
   in CreateOrUpdate r target (mutate r wl desired))"

subsection \<open>Merging maps\<close>

definition go_map_option :: "string_map option \<Rightarrow> bool" where
  "go_map_option m \<longleftrightarrow> go_map (entries m)"

lemma entries_simps [simp]: "entries None = []" "entries (Some es) = es"
  by (simp_all add: entries_def)

lemma merge_lookup:
  "go_map_option existing \<Longrightarrow> go_map_option desired \<Longrightarrow>
   map_of (entries (mergeStringMaps existing desired)) =
     map_of (entries existing) ++ map_of (entries desired)"
  by (simp add: mergeStringMaps_def go_map_option_def map_of_copy_entries Let_def)

lemma merge_go_map [simp]: "go_map_option (mergeStringMaps existing desired)"
  by (simp add: mergeStringMaps_def go_map_option_def Let_def)

lemma merge_None [simp]:
  "mergeStringMaps existing desired = None \<longleftrightarrow> existing = None \<and> desired = None"
  by (simp add: mergeStringMaps_def Let_def)

lemma merge_again [simp]:
  assumes "go_map_option desired"
  shows "mergeStringMaps (mergeStringMaps existing desired) desired = mergeStringMaps existing desired"
  using assms
  by (simp add: mergeStringMaps_def go_map_option_def Let_def copy_entries_self copy_entries_again)

text \<open>Merging is the union of Go maps with the desired entries on top, whatever the order
  in which the two maps are ranged over: no entry of the live object is lost unless the desired object
  names its key, every desired entry is there, the result is a map again, \<open>nil\<close> only if both are,
  and merging the same desired entries again changes nothing.\<close>
lemma mergeStringMaps_union:
  assumes "go_map_option existing" and "go_map_option desired"
  shows "map_of (entries (mergeStringMaps existing desired)) =
      map_of (entries existing) ++ map_of (entries desired) \<and>
    go_map_option (mergeStringMaps existing desired) \<and>
    (mergeStringMaps existing desired = None \<longleftrightarrow> existing = None \<and> desired = None) \<and>
    mergeStringMaps (mergeStringMaps existing desired) desired = mergeStringMaps existing desired"
  using assms by (simp add: merge_lookup)

theorem mergeStringMaps_witness:
  "map_of (entries (mergeStringMaps (Some [(''team'', ''a''), (''tier'', ''web'')])
     (Some [(''team'', ''b'')]))) = [''team'' \<mapsto> ''b'', ''tier'' \<mapsto> ''web'']"
  using mergeStringMaps_union [of "Some [(''team'', ''a''), (''tier'', ''web'')]" "Some [(''team'', ''b'')]"]
  by (auto simp: go_map_option_def)

subsection \<open>Copying a spec\<close>

text \<open>
  The contract the type switch relies on: copying a desired spec onto the live one takes over what
  the chart decides (\<open>wants\<close>), settles what the server owns (\<open>owns\<close>) so that a second copy finds
  it as it is, and the two views determine the spec.
\<close>

locale spec_copy =
  fixes copy :: "'s \<Rightarrow> 's \<Rightarrow> 's"
    and wants :: "'s \<Rightarrow> 'v"
    and owns :: "'s \<Rightarrow> 'o"
  assumes wants_copy: "wants (copy d t) = wants d"
    and owns_settled: "owns (copy d (copy d t)) = owns (copy d t)"
    and views_eq: "wants s = wants s' \<Longrightarrow> owns s = owns s' \<Longrightarrow> s = s'"
begin

lemma copy_again: "copy d (copy d t) = copy d t"
  by (rule views_eq) (simp_all add: wants_copy owns_settled)

lemma copy_converges: "(copy d ^^ Suc n) t = copy d t"
  by (induction n) (simp_all add: copy_again)

lemma last_desired_wins: "wants (copy d' (copy d t)) = wants d'"
  by (rule wants_copy)

end

interpretation service: spec_copy copy_service_spec
  serviceRest "\<lambda>s. (ClusterIP s, ClusterIPs s)"
  by unfold_locales (auto simp: copy_service_spec_def Let_def)

interpretation deployment: spec_copy copy_deployment_spec
  deploymentRest "\<lambda>s. (Selector s, Replicas s)"
  by unfold_locales (auto simp: copy_deployment_spec_def Let_def)

interpretation replaced: spec_copy "\<lambda>d _. d" "\<lambda>s. s" "\<lambda>_. ()"
  by unfold_locales simp_all

subsection \<open>Mutating one object\<close>

text \<open>
  What applying a desired object to a live one has to give, kind by kind: the spec the chart wants,
  the fields the server owns as they are, the status untouched.
\<close>

definition spec_applied :: "'k ClientObject \<Rightarrow> 'k ClientObject \<Rightarrow> 'k ClientObject \<Rightarrow> bool" where
  "spec_applied desired live new =
    (case desired of
       Service _ d _ \<Rightarrow> (case live of
           Service _ l s \<Rightarrow> (case new of
               Service _ n s' \<Rightarrow> s' = s \<and> serviceRest n = serviceRest d \<and>
                 (if ClusterIP l = [] then n = d
                  else ClusterIP n = ClusterIP l \<and> ClusterIPs n = ClusterIPs l)
             | _ \<Rightarrow> False)
         | _ \<Rightarrow> False)
     | Deployment _ d _ \<Rightarrow> (case live of
           Deployment _ l s \<Rightarrow> (case new of
               Deployment _ n s' \<Rightarrow> s' = s \<and> deploymentRest n = deploymentRest d \<and>
                 Replicas n = Replicas l \<and>
                 Selector n = (if Selector l = None then Selector d else Selector l)
             | _ \<Rightarrow> False)
         | _ \<Rightarrow> False)
     | HorizontalPodAutoscaler _ d _ \<Rightarrow> (case live of
           HorizontalPodAutoscaler _ _ s \<Rightarrow>
             (case new of HorizontalPodAutoscaler _ n s' \<Rightarrow> s' = s \<and> n = d | _ \<Rightarrow> False)
         | _ \<Rightarrow> False)
     | PodDisruptionBudget _ d _ \<Rightarrow> (case live of
           PodDisruptionBudget _ _ s \<Rightarrow>
             (case new of PodDisruptionBudget _ n s' \<Rightarrow> s' = s \<and> n = d | _ \<Rightarrow> False)
         | _ \<Rightarrow> False)
     | NetworkPolicy _ d \<Rightarrow> (case live of
           NetworkPolicy _ _ \<Rightarrow> (case new of NetworkPolicy _ n \<Rightarrow> n = d | _ \<Rightarrow> False)
         | _ \<Rightarrow> False)
     | Ingress _ d _ \<Rightarrow> (case live of
           Ingress _ _ s \<Rightarrow> (case new of Ingress _ n s' \<Rightarrow> s' = s \<and> n = d | _ \<Rightarrow> False)
         | _ \<Rightarrow> False)
     | OtherObject _ _ _ \<Rightarrow> False)"

fun supported :: "'k ClientObject \<Rightarrow> bool" where
  "supported (OtherObject _ _ _) = False"
| "supported _ = True"

text \<open>Objects of one kind; \<open>go_type\<close> alone does not tell, since an unknown kind may have any name.\<close>

fun same_kind :: "'k ClientObject \<Rightarrow> 'k ClientObject \<Rightarrow> bool" where
  "same_kind (Service _ _ _) (Service _ _ _) = True"
| "same_kind (Deployment _ _ _) (Deployment _ _ _) = True"
| "same_kind (HorizontalPodAutoscaler _ _ _) (HorizontalPodAutoscaler _ _ _) = True"
| "same_kind (PodDisruptionBudget _ _ _) (PodDisruptionBudget _ _ _) = True"
| "same_kind (NetworkPolicy _ _) (NetworkPolicy _ _) = True"
| "same_kind (Ingress _ _ _) (Ingress _ _ _) = True"
| "same_kind (OtherObject k _ _) (OtherObject k' _ _) = (k = k')"
| "same_kind _ _ = False"

lemma same_kind_refl [simp]: "same_kind x x"
  by (cases x) simp_all

lemma same_kind_sym: "same_kind x y \<longleftrightarrow> same_kind y x"
  by (cases x; cases y) auto

lemma same_kind_trans: "same_kind x y \<Longrightarrow> same_kind y z \<Longrightarrow> same_kind x z"
  by (cases x; cases y; cases z) simp_all

lemma same_kind_map_meta [simp]: "same_kind (map_meta f x) y \<longleftrightarrow> same_kind x y"
  by (cases x; cases y) simp_all

lemma spec_applied_map_meta [simp]: "spec_applied d (map_meta f l) n \<longleftrightarrow> spec_applied d l n"
  by (cases d; cases l; cases n) (simp_all add: spec_applied_def)

lemma copy_spec_meta: "copy_spec d l = Inr n \<Longrightarrow> object_meta n = object_meta l"
  by (cases d; cases l) (auto simp: copy_spec_def)

lemma copy_spec_success:
  "(\<exists>n. copy_spec d l = Inr n) \<longleftrightarrow> supported d \<and> same_kind d l"
  by (cases d; cases l) (simp_all add: copy_spec_def)

lemma copy_spec_same_kind: "copy_spec d l = Inr n \<Longrightarrow> same_kind n l"
  by (cases d; cases l) (auto simp: copy_spec_def)

lemma copy_spec_applied: "copy_spec d l = Inr n \<Longrightarrow> spec_applied d l n"
  by (cases d; cases l)
    (auto simp: copy_spec_def spec_applied_def copy_service_spec_def copy_deployment_spec_def Let_def)

lemma copy_spec_again:
  "copy_spec d l = Inr n \<Longrightarrow> copy_spec d (map_meta f n) = Inr (map_meta f n)"
  by (cases d; cases l) (auto simp: copy_spec_def service.copy_again deployment.copy_again)

lemma map_meta_id: "f (object_meta x) = object_meta x \<Longrightarrow> map_meta f x = x"
  by (cases x) simp_all

lemma reconcileMetadata_meta:
  "reconcileMetadata d t = map_meta (\<lambda>m. m
     \<lparr>Labels := mergeStringMaps (Labels m) (Labels (object_meta d)),
      Annotations := mergeStringMaps (Annotations m) (Annotations (object_meta d))\<rparr>) t"
  by (simp add: reconcileMetadata_def Let_def)

subsection \<open>Contracts of the libraries\<close>

text \<open>
  \<open>controllerutil.SetControllerReference\<close> changes the owner references of the object only, may
  refuse (another controller owns it), and setting the same owner again finds the references as they
  should be.
\<close>

definition owner_contract ::
  "('w, 'k) WorkloadReconciler \<Rightarrow> ('k Workload \<Rightarrow> ObjectMeta \<Rightarrow> OwnerReference list go) \<Rightarrow> bool" where
  "owner_contract r own \<longleftrightarrow>
    (\<forall>wl t. SetControllerReference r wl t =
       map_sum id (\<lambda>refs. map_meta (\<lambda>m. m\<lparr>OwnerReferences := refs\<rparr>) t) (own wl (object_meta t))) \<and>
    (\<forall>wl m refs ls as. own wl m = Inr refs \<longrightarrow>
       own wl (m\<lparr>OwnerReferences := refs, Labels := ls, Annotations := as\<rparr>) = Inr refs)"

definition maps_ok :: "'k ClientObject \<Rightarrow> bool" where
  "maps_ok x \<longleftrightarrow> go_map_option (Labels (object_meta x)) \<and> go_map_option (Annotations (object_meta x))"

text \<open>The metadata after applying: owned, and merged with the desired labels and annotations.\<close>

definition applied_meta :: "OwnerReference list \<Rightarrow> ObjectMeta \<Rightarrow> ObjectMeta \<Rightarrow> ObjectMeta" where
  "applied_meta refs d m = m\<lparr>OwnerReferences := refs, Labels := mergeStringMaps (Labels m) (Labels d),
     Annotations := mergeStringMaps (Annotations m) (Annotations d)\<rparr>"

lemma mutate_contract:
  assumes "owner_contract r own"
  shows "mutate r wl desired live =
    (case own wl (object_meta live) of
       Inl err \<Rightarrow> Inl err
     | Inr refs \<Rightarrow> copy_spec desired (map_meta (applied_meta refs (object_meta desired)) live))"
proof -
  have "SetControllerReference r wl live = map_sum id
      (\<lambda>refs. map_meta (\<lambda>m. m\<lparr>OwnerReferences := refs\<rparr>) live) (own wl (object_meta live))"
    using assms by (simp add: owner_contract_def)
  then show ?thesis
    by (simp add: mutate_def reconcileMetadata_meta applied_meta_def [abs_def] split: sum.split)
qed

lemma mutate_success:
  assumes "owner_contract r own" and "mutate r wl desired live = Inr new"
  obtains refs where "own wl (object_meta live) = Inr refs"
    and "copy_spec desired (map_meta (applied_meta refs (object_meta desired)) live) = Inr new"
    and "object_meta new = applied_meta refs (object_meta desired) (object_meta live)"
    and "spec_applied desired live new" and "same_kind new live"
proof -
  obtain refs where o: "own wl (object_meta live) = Inr refs"
    and c: "copy_spec desired (map_meta (applied_meta refs (object_meta desired)) live) = Inr new"
    using assms by (auto simp: mutate_contract split: sum.splits)
  from copy_spec_meta [OF c] have "object_meta new = applied_meta refs (object_meta desired) (object_meta live)"
    by simp
  moreover from copy_spec_applied [OF c] have "spec_applied desired live new" by simp
  moreover have "same_kind new live"
    using copy_spec_same_kind [OF c] by (metis same_kind_map_meta same_kind_sym)
  ultimately show thesis using that o c by blast
qed

text \<open>Property C26: applying an object updates what the chart decides and nothing the server owns.
  When the mutation succeeds the object keeps its name, namespace, UID and status; its labels and
  annotations are the live ones with the desired ones on top; its spec is the desired one, except that a
  Service keeps the cluster IPs it was given, a Deployment the selector it has and, always, the
  replicas the autoscaler set.\<close>
theorem apply_keeps_what_the_server_owns:
  assumes "owner_contract r own" and "mutate r wl desired live = Inr new"
    and "maps_ok desired" and "maps_ok live"
  shows "spec_applied desired live new \<and>
    metaName (object_meta new) = metaName (object_meta live) \<and>
    metaNamespace (object_meta new) = metaNamespace (object_meta live) \<and>
    UID (object_meta new) = UID (object_meta live) \<and>
    own wl (object_meta live) = Inr (OwnerReferences (object_meta new)) \<and>
    map_of (entries (Labels (object_meta new))) =
      map_of (entries (Labels (object_meta live))) ++ map_of (entries (Labels (object_meta desired))) \<and>
    map_of (entries (Annotations (object_meta new))) =
      map_of (entries (Annotations (object_meta live))) ++
      map_of (entries (Annotations (object_meta desired)))"
proof -
  from assms(1,2) obtain refs where "own wl (object_meta live) = Inr refs"
    and "object_meta new = applied_meta refs (object_meta desired) (object_meta live)"
    and "spec_applied desired live new"
    by (rule mutate_success)
  with assms(3,4) show ?thesis by (simp add: applied_meta_def maps_ok_def merge_lookup)
qed

lemma mutate_again:
  assumes "owner_contract r own" and "mutate r wl desired live = Inr new" and "maps_ok desired"
  shows "mutate r wl desired new = Inr new"
proof -
  let ?d = "object_meta desired"
  from assms(1,2) obtain refs where o: "own wl (object_meta live) = Inr refs"
    and c: "copy_spec desired (map_meta (applied_meta refs ?d) live) = Inr new"
    and m: "object_meta new = applied_meta refs ?d (object_meta live)"
    by (rule mutate_success)
  from o assms(1) m have "own wl (object_meta new) = Inr refs"
    by (simp add: owner_contract_def applied_meta_def)
  moreover have "applied_meta refs ?d (object_meta new) = object_meta new"
    using assms(3) m by (simp add: applied_meta_def maps_ok_def)
  then have "map_meta (applied_meta refs ?d) new = new" by (rule map_meta_id)
  moreover from copy_spec_again [OF c, of "\<lambda>m. m"] have "copy_spec desired new = Inr new"
    by (simp add: map_meta_id)
  ultimately show ?thesis using assms(1) by (simp add: mutate_contract)
qed

text \<open>Applying is idempotent.  Applying the same desired object to the result of applying
  it changes nothing, so repeated reconciles of an unchanged Workload do not fight over its
  objects.\<close>
lemma apply_is_idempotent:
  assumes "owner_contract r own" and "maps_ok desired"
  shows "case mutate r wl desired live of Inl _ \<Rightarrow> True | Inr new \<Rightarrow> mutate r wl desired new = Inr new"
  using assms by (auto simp: mutate_again split: sum.split)

text \<open>
  The cluster as the controller sees it: \<open>live w\<close> is what it holds in world \<open>w\<close>, by kind,
  namespace and name.  \<open>CreateOrUpdate\<close> runs the mutation on the live object, or on the target itself
  if there is none, and writes what it gives; the server may fill in fields (\<open>admit\<close>).  An error
  means nothing was written, or the answer was lost after the write.
\<close>

definition same_object :: "'k ClientObject \<Rightarrow> 'k ClientObject \<Rightarrow> bool" where
  "same_object x y \<longleftrightarrow> same_kind x y \<and>
    metaNamespace (object_meta x) = metaNamespace (object_meta y) \<and>
    metaName (object_meta x) = metaName (object_meta y)"

lemma same_object_refl [simp]: "same_object x x"
  by (simp add: same_object_def)

lemma same_object_sym: "same_object x y \<longleftrightarrow> same_object y x"
  by (auto simp: same_object_def same_kind_sym)

lemma same_object_trans: "same_object x y \<Longrightarrow> same_object y z \<Longrightarrow> same_object x z"
  by (auto simp: same_object_def intro: same_kind_trans)

definition written ::
  "('w \<Rightarrow> 'k ClientObject \<Rightarrow> 'k ClientObject option) \<Rightarrow> ('k ClientObject \<Rightarrow> 'k ClientObject)
   \<Rightarrow> ('k ClientObject \<Rightarrow> 'k ClientObject go) \<Rightarrow> 'k ClientObject \<Rightarrow> 'w \<Rightarrow> 'w \<Rightarrow> bool" where
  "written live admit f target w w' \<longleftrightarrow>
    (\<exists>new. f (case live w target of None \<Rightarrow> target | Some l \<Rightarrow> l) = Inr new \<and>
      (\<forall>x. live w' x = (if same_object x target then Some (admit new) else live w x)))"

definition store_contract ::
  "('w, 'k) WorkloadReconciler \<Rightarrow> ('w \<Rightarrow> 'k ClientObject \<Rightarrow> 'k ClientObject option)
   \<Rightarrow> ('k ClientObject \<Rightarrow> 'k ClientObject) \<Rightarrow> bool" where
  "store_contract r live admit \<longleftrightarrow>
    (\<forall>w x l. live w x = Some l \<longrightarrow> same_object l x \<and> maps_ok l) \<and>
    (\<forall>w x y. same_object x y \<longrightarrow> live w x = live w y) \<and>
    (\<forall>target f w. (case run_state (CreateOrUpdate r target f) w of
       (Inr _, w') \<Rightarrow> written live admit f target w w'
     | (Inl _, w') \<Rightarrow> live w' = live w \<or> written live admit f target w w'))"

text \<open>The server fills in what is not set, and never changes what is.\<close>

definition keeps :: "'k ClientObject \<Rightarrow> 'k ClientObject \<Rightarrow> bool" where
  "keeps old new =
    (case old of
       Service _ l _ \<Rightarrow> (case new of
           Service _ n _ \<Rightarrow> ClusterIP l = [] \<or> (ClusterIP n = ClusterIP l \<and> ClusterIPs n = ClusterIPs l)
         | _ \<Rightarrow> False)
     | Deployment _ l _ \<Rightarrow> (case new of
           Deployment _ n _ \<Rightarrow> (Replicas l = None \<or> Replicas n = Replicas l) \<and>
             (Selector l = None \<or> Selector n = Selector l)
         | _ \<Rightarrow> False)
     | _ \<Rightarrow> same_kind old new)"

lemma keeps_refl [simp]: "keeps x x"
  by (cases x) (simp_all add: keeps_def)

lemma keeps_trans: "keeps x y \<Longrightarrow> keeps y z \<Longrightarrow> keeps x z"
  by (cases x; cases y; cases z) (auto simp: keeps_def)

lemma spec_applied_keeps: "spec_applied d l n \<Longrightarrow> keeps l n"
  by (cases d; cases l; cases n) (auto simp: spec_applied_def keeps_def split: if_splits)

lemma setOwnerAndApply_target: "setOwnerAndApply r wl d = CreateOrUpdate r d (mutate r wl d)"
  by (simp add: setOwnerAndApply_def map_meta_id)

lemma store_effect:
  assumes "store_contract r live admit" and "run_state (CreateOrUpdate r target f) w = (res, w')"
  shows "case res of Inr _ \<Rightarrow> written live admit f target w w'
    | Inl _ \<Rightarrow> live w' = live w \<or> written live admit f target w w'"
proof -
  from assms(1) have "case run_state (CreateOrUpdate r target f) w of
       (Inr _, w') \<Rightarrow> written live admit f target w w'
     | (Inl _, w') \<Rightarrow> live w' = live w \<or> written live admit f target w w'"
    by (simp add: store_contract_def)
  with assms(2) show ?thesis by (cases res) simp_all
qed

end
