(* ===== verification/Workload_Controller.thy ===== *)
theory Workload_Controller
  imports Apply Renderer
begin

text \<open>
  \<open>operator/internal/controller/workload_controller.go\<close>: reconciling a Workload.  What the libraries
  do is given by \<open>WorkloadReconciler\<close> and by the chart environment of \<open>Renderer\<close>; the contracts of
  \<open>Apply\<close> and the two below are named where a property relies on them.  Logging is left out.
\<close>

subsection \<open>The reconciler\<close>

definition cond :: "'k Workload \<Rightarrow> string \<Rightarrow> string \<Rightarrow> string \<Rightarrow> string \<Rightarrow> Condition" where
  "cond wl t status reason msg =
    \<lparr>condType = t, condStatus = status, condReason = reason, condMessage = msg,
     condObservedGeneration = Generation wl, LastTransitionTime = 0\<rparr>"

definition patchStatus ::
  "('w, 'k) WorkloadReconciler \<Rightarrow> 'k Workload \<Rightarrow> 'k Workload \<Rightarrow> ('w, unit go) state" where
  "patchStatus r base wl = PatchStatus r base wl"

text \<open>\<open>meta.SetStatusCondition(&wl.Status.Conditions, c)\<close>\<close>

definition set_condition ::
  "('w, 'k) WorkloadReconciler \<Rightarrow> 'k Workload \<Rightarrow> Condition \<Rightarrow> ('w, 'k Workload) state" where
  "set_condition r wl c = do {
     conditions \<leftarrow> SetStatusCondition r (Conditions (Status wl)) c;
     State_Monad.return (wl\<lparr>Status := (Status wl)\<lparr>Conditions := conditions\<rparr>\<rparr>)
   }"

definition no_requeue :: Result where "no_requeue = \<lparr>RequeueAfter = 0\<rparr>"

text \<open>The two failure paths: make the failure visible, then return it (or the error of the patch).\<close>

definition report_failure ::
  "('w, 'k) WorkloadReconciler \<Rightarrow> 'k Workload \<Rightarrow> 'k Workload \<Rightarrow> string \<Rightarrow> go_error \<Rightarrow> go_error
   \<Rightarrow> ('w, (Result \<times> go_error option) option) state" where
  "report_failure r base wl reason msg err = do {
     wl \<leftarrow> set_condition r wl (cond wl ''Ready'' ConditionFalse reason msg);
     patched \<leftarrow> patchStatus r base wl;
     (case patched of
        Inl perr \<Rightarrow> State_Monad.return (Some (no_requeue, Some perr))
      | Inr _ \<Rightarrow> State_Monad.return (Some (no_requeue, Some err)))
   }"

fun apply_all ::
  "('w, 'k) WorkloadReconciler \<Rightarrow> 'k Workload \<Rightarrow> 'k ClientObject list \<Rightarrow> ('w, unit go) state" where
  "apply_all r wl [] = State_Monad.return (Inr ())"
| "apply_all r wl (obj # objs) = do {
     applied \<leftarrow> setOwnerAndApply r wl obj;
     (case applied of
        Inl err \<Rightarrow> State_Monad.return (Inl err)
      | Inr _ \<Rightarrow> apply_all r wl objs)
   }"

definition set_rollout_condition ::
  "('w, 'k) WorkloadReconciler \<Rightarrow> 'k Workload \<Rightarrow> ('w, 'k Workload) state" where
  "set_rollout_condition r wl =
    (if RolloutStrategy (Spec wl) = RolloutCanary
     then set_condition r wl (cond wl ''RolloutDegraded'' ConditionTrue ''CanaryUnsupported''
       (''Canary requested but unsupported in this build '' @ right_arrow @ '' using RollingUpdate''))
     else set_condition r wl (cond wl ''RolloutDegraded'' ConditionFalse ''RollingUpdate''
       ''using RollingUpdate''))"

definition second :: int where "second = 1000000000"

text \<open>What follows once every object is applied.\<close>

definition finish ::
  "('w, 'k) WorkloadReconciler \<Rightarrow> NamespacedName \<Rightarrow> 'k Workload \<Rightarrow> 'k Workload
   \<Rightarrow> ('w, (Result \<times> go_error option) option) state" where
  "finish r req base wl = do {
     wl \<leftarrow> set_rollout_condition r wl;
     dep \<leftarrow> GetDeployment r req;
     let wl = (case dep of
         Inl _ \<Rightarrow> wl
       | Inr s \<Rightarrow> wl\<lparr>Status := (Status wl)\<lparr>ReadyReplicas := depReadyReplicas s\<rparr>\<rparr>);
     let wl = wl\<lparr>Status := (Status wl)\<lparr>ObservedGeneration := Generation wl\<rparr>\<rparr>;
     wl \<leftarrow> set_condition r wl
       (cond wl ''Ready'' ConditionTrue ''Reconciled'' ''all child objects applied'');
     patched \<leftarrow> patchStatus r base wl;
     (case patched of
        Inl err \<Rightarrow> State_Monad.return (Some (no_requeue, Some err))
      | Inr _ \<Rightarrow> State_Monad.return (Some (\<lparr>RequeueAfter = 30 * second\<rparr>, None)))
   }"

text \<open>The value is \<open>None\<close> exactly when rendering the chart does not return.\<close>

definition Reconcile ::
  "('w, 'k) WorkloadReconciler \<Rightarrow> ('ch, 'd, 't, 'k) ChartEnv \<Rightarrow> NamespacedName
   \<Rightarrow> ('w, (Result \<times> go_error option) option) state" where
  "Reconcile r E req = do {
     got \<leftarrow> GetWorkload r req;
     (case got of
        Inl err \<Rightarrow> State_Monad.return
          (Some (no_requeue, if IsNotFound err then None else Some (error_text err)))
      | Inr wl \<Rightarrow> (let base = wl in
          case Chart E (metaName wl) (metaNamespace wl) (Spec wl) of
            None \<Rightarrow> State_Monad.return None
          | Some (Inl err) \<Rightarrow> report_failure r base wl ''RenderFailed'' err (''render: '' @ err)
          | Some (Inr objs) \<Rightarrow> do {
              applied \<leftarrow> apply_all r wl objs;
              (case applied of
                 Inl err \<Rightarrow> report_failure r base wl ''ApplyFailed'' err err
               | Inr _ \<Rightarrow> finish r req base wl)
            }))
   }"

subsection \<open>Reconciling never strips what the server owns\<close>

text \<open>The calls that neither write objects nor patch the status.\<close>

definition reads_only :: "('w, 'k) WorkloadReconciler \<Rightarrow> ('w \<Rightarrow> 'v) \<Rightarrow> bool" where
  "reads_only r view \<longleftrightarrow>
    (\<forall>req. silent view (GetWorkload r req)) \<and> (\<forall>req. silent view (GetDeployment r req)) \<and>
    (\<forall>conditions c. silent view (SetStatusCondition r conditions c))"

lemma apply_all_preserves:
  "(\<And>d. d \<in> set objs \<Longrightarrow> preserves I (setOwnerAndApply r wl d)) \<Longrightarrow> preserves I (apply_all r wl objs)"
  by (induction objs) (auto intro!: preserve_intros)

lemma set_condition_preserves:
  "reads_only r view \<Longrightarrow> preserves (\<lambda>w. P (view w)) (set_condition r wl c)"
  unfolding set_condition_def reads_only_def
  by (intro preserves_bind silent_preserves preserves_return) blast

lemma Reconcile_preserves:
  assumes "reads_only r view"
    and "\<And>base wl. preserves (\<lambda>w. P (view w)) (PatchStatus r base wl)"
    and "\<And>wl d. preserves (\<lambda>w. P (view w)) (setOwnerAndApply r wl d)"
  shows "preserves (\<lambda>w. P (view w)) (Reconcile r E req)"
proof -
  from assms(1) have get: "preserves (\<lambda>w. P (view w)) (GetWorkload r req)"
    "preserves (\<lambda>w. P (view w)) (GetDeployment r req)"
    by (simp_all add: reads_only_def silent_preserves)
  note steps = get set_condition_preserves [OF assms(1), of P] assms(2) apply_all_preserves [OF assms(3)]
  have rollout: "preserves (\<lambda>w. P (view w)) (set_rollout_condition r wl)" for wl
    by (simp add: set_rollout_condition_def steps)
  have failure: "preserves (\<lambda>w. P (view w)) (report_failure r base wl reason msg err)"
    for base wl reason msg err
    by (auto simp: report_failure_def patchStatus_def intro!: preserve_intros steps)
  show ?thesis
    by (auto simp: Reconcile_def finish_def Let_def patchStatus_def
        intro!: preserve_intros steps rollout failure)
qed

lemma apply_keeps_live:
  assumes own: "owner_contract r own" and store: "store_contract r live admit"
    and admit: "\<And>x. keeps x (admit x)"
  shows "preserves (\<lambda>w. \<exists>l'. live w x = Some l' \<and> keeps l l') (setOwnerAndApply r wl d)"
  unfolding preserves_def setOwnerAndApply_target
proof (intro allI impI)
  fix w assume "\<exists>l'. live w x = Some l' \<and> keeps l l'"
  then obtain l' where l': "live w x = Some l'" "keeps l l'" by blast
  obtain res w' where run: "run_state (CreateOrUpdate r d (mutate r wl d)) w = (res, w')" by fastforce
  from store_effect [OF store run] have "live w' = live w \<or> written live admit (mutate r wl d) d w w'"
    by (cases res) simp_all
  moreover have "\<exists>l''. live w' x = Some l'' \<and> keeps l l''"
    if written: "written live admit (mutate r wl d) d w w'"
  proof (cases "same_object x d")
    case False
    with written l' show ?thesis by (auto simp: written_def)
  next
    case True
    with store have "live w d = live w x" unfolding store_contract_def by metis
    with written l' True obtain new where new: "mutate r wl d l' = Inr new" "live w' x = Some (admit new)"
      by (auto simp: written_def)
    from own new(1) have "spec_applied d l' new" by (rule mutate_success)
    with l'(2) admit have "keeps l (admit new)" by (blast intro: keeps_trans spec_applied_keeps)
    with new(2) show ?thesis by blast
  qed
  ultimately show "\<exists>l'. live (snd (run_state (CreateOrUpdate r d (mutate r wl d)) w)) x = Some l' \<and> keeps l l'"
    using l' run by auto
qed

text \<open>Property C8: a reconcile never strips a field the server owns.  Whatever the chart renders,
  whichever calls fail and wherever the reconcile stops, a Service in the cluster keeps its cluster
  IPs, a Deployment its selector and its replicas, and every object its kind: nothing live before is
  gone or reset after.\<close>
theorem reconcile_keeps_live_fields:
  assumes "owner_contract r own" and "store_contract r live admit" and "\<And>x. keeps x (admit x)"
    and "reads_only r live" and "\<And>base wl. silent live (PatchStatus r base wl)"
    and "live w x = Some l"
  shows "\<exists>l'. live (snd (run_state (Reconcile r E req) w)) x = Some l' \<and> keeps l l'"
proof -
  have "preserves (\<lambda>w. \<exists>l'. live w x = Some l' \<and> keeps l l') (Reconcile r E req)"
    by (rule Reconcile_preserves [OF assms(4), where P = "\<lambda>L. \<exists>l'. L x = Some l' \<and> keeps l l'"])
      (rule silent_preserves [OF assms(5)], rule apply_keeps_live [OF assms(1-3)])
  from preservesD [OF this, of w] assms(6) show ?thesis by auto
qed

subsection \<open>The status of a reconcile\<close>

definition find_condition :: "string \<Rightarrow> Condition list \<Rightarrow> Condition option" where
  "find_condition t conditions = find (\<lambda>c. condType c = t) conditions"

text \<open>
  \<open>meta.SetStatusCondition\<close>: the condition of that type has the new status, reason, message and
  generation (the transition time is the library's business), and the other types are as before.
\<close>

definition condition_says :: "Condition list \<Rightarrow> Condition \<Rightarrow> bool" where
  "condition_says conditions c \<longleftrightarrow> (case find_condition (condType c) conditions of
     None \<Rightarrow> False
   | Some c' \<Rightarrow> condStatus c' = condStatus c \<and> condReason c' = condReason c \<and>
       condMessage c' = condMessage c \<and> condObservedGeneration c' = condObservedGeneration c)"

definition condition_contract :: "('w, 'k) WorkloadReconciler \<Rightarrow> bool" where
  "condition_contract r \<longleftrightarrow> (\<forall>conditions c. pred_state
    (\<lambda>conditions'. condition_says conditions' c \<and>
      (\<forall>t. t \<noteq> condType c \<longrightarrow> find_condition t conditions' = find_condition t conditions))
    (SetStatusCondition r conditions c))"

text \<open>A view of the world that lists the status patches sent so far, with their base.\<close>

definition patch_log :: "('w, 'k) WorkloadReconciler \<Rightarrow> ('w \<Rightarrow> ('k Workload \<times> 'k Workload) list) \<Rightarrow> bool" where
  "patch_log r log \<longleftrightarrow> reads_only r log \<and> (\<forall>target f. silent log (CreateOrUpdate r target f)) \<and>
    (\<forall>base wl w. log (snd (run_state (PatchStatus r base wl) w)) = log w @ [(base, wl)])"

lemma cond_simps [simp]:
  "condType (cond wl t status reason msg) = t" "condStatus (cond wl t status reason msg) = status"
  "condObservedGeneration (cond wl t status reason msg) = Generation wl"
  by (simp_all add: cond_def)

text \<open>Running \<open>set_condition\<close>.\<close>

lemma set_condition_run:
  assumes "condition_contract r" and "reads_only r view"
  obtains conditions w' where
    "run_state (set_condition r wl c) w = (wl\<lparr>Status := (Status wl)\<lparr>Conditions := conditions\<rparr>\<rparr>, w')"
    and "view w' = view w" and "condition_says conditions c"
    and "\<forall>t. t \<noteq> condType c \<longrightarrow>
      find_condition t conditions = find_condition t (Conditions (Status wl))"
proof -
  obtain conditions w' where run:
    "run_state (SetStatusCondition r (Conditions (Status wl)) c) w = (conditions, w')" by fastforce
  then have "run_state (set_condition r wl c) w =
      (wl\<lparr>Status := (Status wl)\<lparr>Conditions := conditions\<rparr>\<rparr>, w')"
    by (simp add: set_condition_def)
  moreover have "view w' = view w"
    using assms(2) run by (metis reads_only_def silentD snd_conv)
  moreover have "condition_says conditions c \<and>
      (\<forall>t. t \<noteq> condType c \<longrightarrow> find_condition t conditions = find_condition t (Conditions (Status wl)))"
    using assms(1) run unfolding condition_contract_def by (metis (mono_tags, lifting) pred_stateD)
  ultimately show thesis using that by blast
qed

text \<open>What every reconcile that finds its Workload says of it.\<close>

definition failure_status :: "'k Workload \<Rightarrow> string \<Rightarrow> go_error \<Rightarrow> WorkloadStatus \<Rightarrow> bool" where
  "failure_status wl reason msg s \<longleftrightarrow>
    condition_says (Conditions s) (cond wl ''Ready'' ConditionFalse reason msg) \<and>
    find_condition ''RolloutDegraded'' (Conditions s) =
      find_condition ''RolloutDegraded'' (Conditions (Status wl)) \<and>
    ObservedGeneration s = ObservedGeneration (Status wl) \<and>
    ReadyReplicas s = ReadyReplicas (Status wl)"

definition success_status :: "'k Workload \<Rightarrow> WorkloadStatus \<Rightarrow> bool" where
  "success_status wl s \<longleftrightarrow>
    condition_says (Conditions s)
      (cond wl ''Ready'' ConditionTrue ''Reconciled'' ''all child objects applied'') \<and>
    (case find_condition ''RolloutDegraded'' (Conditions s) of
       None \<Rightarrow> False
     | Some c \<Rightarrow> condObservedGeneration c = Generation wl \<and> condStatus c =
         (if RolloutStrategy (Spec wl) = ''Canary'' then ConditionTrue else ConditionFalse)) \<and>
    ObservedGeneration s = Generation wl"

lemma report_failure_run:
  assumes "condition_contract r" and "patch_log r log"
  obtains s w' err' where
    "run_state (report_failure r base wl reason msg err) w = (Some (no_requeue, Some err'), w')"
    and "log w' = log w @ [(base, wl\<lparr>Status := s\<rparr>)]" and "failure_status wl reason msg s"
proof -
  from assms(2) have reads: "reads_only r log" by (simp add: patch_log_def)
  obtain conditions w1 where set: "run_state
      (set_condition r wl (cond wl ''Ready'' ConditionFalse reason msg)) w =
      (wl\<lparr>Status := (Status wl)\<lparr>Conditions := conditions\<rparr>\<rparr>, w1)" (is "_ = (?wl, _)")
    and log: "log w1 = log w"
    and says: "condition_says conditions (cond wl ''Ready'' ConditionFalse reason msg)"
    and others: "\<forall>t. t \<noteq> condType (cond wl ''Ready'' ConditionFalse reason msg) \<longrightarrow>
      find_condition t conditions = find_condition t (Conditions (Status wl))"
    by (rule set_condition_run [OF assms(1) reads])
  obtain patched w2 where patch: "run_state (PatchStatus r base ?wl) w1 = (patched, w2)" by fastforce
  with assms(2) log have log2: "log w2 = log w @ [(base, ?wl)]"
    unfolding patch_log_def by (metis snd_conv)
  have "run_state (report_failure r base wl reason msg err) w =
      (Some (no_requeue, Some (case patched of Inl perr \<Rightarrow> perr | Inr _ \<Rightarrow> err)), w2)"
    using set patch by (simp add: report_failure_def patchStatus_def split: sum.split)
  from that [OF this log2] says others show thesis by (simp add: failure_status_def)
qed

lemma rollout_condition:
  "\<exists>c. set_rollout_condition r wl = set_condition r wl c \<and> condType c = ''RolloutDegraded'' \<and>
    condObservedGeneration c = Generation wl \<and>
    condStatus c = (if RolloutStrategy (Spec wl) = ''Canary'' then ConditionTrue else ConditionFalse)"
proof (cases "RolloutStrategy (Spec wl) = ''Canary''")
  case True
  then have "set_rollout_condition r wl = set_condition r wl (cond wl ''RolloutDegraded'' ConditionTrue
      ''CanaryUnsupported''
      (''Canary requested but unsupported in this build '' @ right_arrow @ '' using RollingUpdate''))"
    by (simp add: set_rollout_condition_def RolloutCanary_def)
  with True show ?thesis by (metis cond_simps)
next
  case False
  then have "set_rollout_condition r wl = set_condition r wl (cond wl ''RolloutDegraded'' ConditionFalse
      ''RollingUpdate'' ''using RollingUpdate'')"
    by (simp add: set_rollout_condition_def RolloutCanary_def)
  with False show ?thesis by (metis cond_simps)
qed

text \<open>The part of \<open>finish\<close> before the status is patched.\<close>

definition ready_status ::
  "('w, 'k) WorkloadReconciler \<Rightarrow> NamespacedName \<Rightarrow> 'k Workload \<Rightarrow> ('w, 'k Workload) state" where
  "ready_status r req wl = do {
     wl \<leftarrow> set_rollout_condition r wl;
     dep \<leftarrow> GetDeployment r req;
     let wl = (case dep of
         Inl _ \<Rightarrow> wl
       | Inr s \<Rightarrow> wl\<lparr>Status := (Status wl)\<lparr>ReadyReplicas := depReadyReplicas s\<rparr>\<rparr>);
     let wl = wl\<lparr>Status := (Status wl)\<lparr>ObservedGeneration := Generation wl\<rparr>\<rparr>;
     set_condition r wl (cond wl ''Ready'' ConditionTrue ''Reconciled'' ''all child objects applied'')
   }"

text \<open>The end of \<open>finish\<close> and of both failure paths.\<close>

definition patch_and_return ::
  "('w, 'k) WorkloadReconciler \<Rightarrow> 'k Workload \<Rightarrow> 'k Workload \<Rightarrow> Result \<Rightarrow> go_error option
   \<Rightarrow> ('w, (Result \<times> go_error option) option) state" where
  "patch_and_return r base wl res err = do {
     patched \<leftarrow> patchStatus r base wl;
     State_Monad.return (Some (case patched of Inl perr \<Rightarrow> (no_requeue, Some perr) | Inr _ \<Rightarrow> (res, err)))
   }"

lemma finish_ready: "finish r req base wl = do {
    wl \<leftarrow> ready_status r req wl; patch_and_return r base wl \<lparr>RequeueAfter = 30 * second\<rparr> None }"
  unfolding finish_def ready_status_def patch_and_return_def bind_assoc Let_def
  by (intro bind_cong_fun) (simp split: sum.split)

lemma report_failure_patch: "report_failure r base wl reason msg err = do {
    wl \<leftarrow> set_condition r wl (cond wl ''Ready'' ConditionFalse reason msg);
    patch_and_return r base wl no_requeue (Some err) }"
  unfolding report_failure_def patch_and_return_def
  by (intro bind_cong_fun) (simp split: sum.split)

text \<open>The replicas of the status are what some read of the Deployment answered, or as they were.\<close>

definition replicas_reported ::
  "('w, 'k) WorkloadReconciler \<Rightarrow> NamespacedName \<Rightarrow> 'k Workload \<Rightarrow> WorkloadStatus \<Rightarrow> bool" where
  "replicas_reported r req wl s \<longleftrightarrow> (\<exists>v. ReadyReplicas s = (case fst (run_state (GetDeployment r req) v) of
     Inl _ \<Rightarrow> ReadyReplicas (Status wl) | Inr d \<Rightarrow> depReadyReplicas d))"

lemma ready_status_run:
  assumes contract: "condition_contract r" and reads: "reads_only r log"
  obtains s w' where "run_state (ready_status r req wl) w = (wl\<lparr>Status := s\<rparr>, w')"
    and "log w' = log w" and "success_status wl s" and "replicas_reported r req wl s"
proof -
  obtain c where c: "set_rollout_condition r wl = set_condition r wl c"
    "condType c = ''RolloutDegraded''" "condObservedGeneration c = Generation wl"
    "condStatus c = (if RolloutStrategy (Spec wl) = ''Canary'' then ConditionTrue else ConditionFalse)"
    using rollout_condition by blast
  obtain cs1 w1 where r1: "run_state (set_condition r wl c) w =
      (wl\<lparr>Status := (Status wl)\<lparr>Conditions := cs1\<rparr>\<rparr>, w1)"
    and l1: "log w1 = log w" and s1: "condition_says cs1 c"
    by (rule set_condition_run [OF contract reads])
  obtain dep w2 where r2: "run_state (GetDeployment r req) w1 = (dep, w2)" by fastforce
  with reads have l2: "log w2 = log w1" by (metis reads_only_def silentD snd_conv)
  define replicas where "replicas = (case dep of Inl _ \<Rightarrow> ReadyReplicas (Status wl) | Inr s \<Rightarrow> depReadyReplicas s)"
  define wl2 where "wl2 = wl\<lparr>Status := \<lparr>Conditions = cs1, ObservedGeneration = Generation wl,
    ReadyReplicas = replicas\<rparr>\<rparr>"
  have wl2: "(case dep of Inl _ \<Rightarrow> wl1 | Inr s \<Rightarrow> wl1\<lparr>Status := (Status wl1)\<lparr>ReadyReplicas := depReadyReplicas s\<rparr>\<rparr>)
        \<lparr>Status := (Status (case dep of Inl _ \<Rightarrow> wl1
          | Inr s \<Rightarrow> wl1\<lparr>Status := (Status wl1)\<lparr>ReadyReplicas := depReadyReplicas s\<rparr>\<rparr>))
          \<lparr>ObservedGeneration := Generation (case dep of Inl _ \<Rightarrow> wl1
            | Inr s \<Rightarrow> wl1\<lparr>Status := (Status wl1)\<lparr>ReadyReplicas := depReadyReplicas s\<rparr>\<rparr>)\<rparr>\<rparr> = wl2"
    if "wl1 = wl\<lparr>Status := (Status wl)\<lparr>Conditions := cs1\<rparr>\<rparr>" for wl1
    using that by (cases "Status wl") (simp add: wl2_def replicas_def split: sum.split)
  let ?c = "cond wl2 ''Ready'' ConditionTrue ''Reconciled'' ''all child objects applied''"
  obtain cs3 w3 where r3: "run_state (set_condition r wl2 ?c) w2 =
      (wl2\<lparr>Status := (Status wl2)\<lparr>Conditions := cs3\<rparr>\<rparr>, w3)"
    and l3: "log w3 = log w2" and s3: "condition_says cs3 ?c"
    and o3: "\<forall>t. t \<noteq> condType ?c \<longrightarrow> find_condition t cs3 = find_condition t (Conditions (Status wl2))"
    by (rule set_condition_run [OF contract reads])
  let ?s = "\<lparr>Conditions = cs3, ObservedGeneration = Generation wl, ReadyReplicas = replicas\<rparr>"
  have "run_state (ready_status r req wl) w = (wl\<lparr>Status := ?s\<rparr>, w3)"
    unfolding ready_status_def c(1) Let_def run_bind [OF r1] run_bind [OF r2] wl2 [OF refl] r3
    by (simp add: wl2_def)
  moreover have "condition_says cs3 (cond wl ''Ready'' ConditionTrue ''Reconciled'' ''all child objects applied'')"
    "find_condition ''RolloutDegraded'' cs3 = find_condition ''RolloutDegraded'' cs1"
    using s3 o3 by (simp_all add: cond_def wl2_def)
  then have "success_status wl ?s"
    using s1 c(2-4) by (simp add: success_status_def condition_says_def split: option.splits)
  moreover have "replicas_reported r req wl ?s"
    using r2 by (auto simp: replicas_reported_def replicas_def intro!: exI [of _ w1])
  ultimately show thesis using l1 l2 l3 that by metis
qed

lemma patch_and_return_run:
  assumes "patch_log r log"
  obtains res' err' w' where "run_state (patch_and_return r base wl res err) w = (Some (res', err'), w')"
    and "log w' = log w @ [(base, wl)]" and "(res', err') = (res, err) \<or> (res' = no_requeue \<and> err' \<noteq> None)"
proof -
  obtain p w' where run: "run_state (PatchStatus r base wl) w = (p, w')" by fastforce
  with assms have "log w' = log w @ [(base, wl)]" unfolding patch_log_def by (metis snd_conv)
  with run show thesis
    by (cases p) (auto simp: patch_and_return_def patchStatus_def intro: that)
qed

lemma finish_run:
  assumes "condition_contract r" and "patch_log r log"
  shows "\<exists>s res err w'. run_state (finish r req base wl) w = (Some (res, err), w') \<and>
    log w' = log w @ [(base, wl\<lparr>Status := s\<rparr>)] \<and> success_status wl s \<and> replicas_reported r req wl s \<and>
    RequeueAfter res = (if err = None then 30 * second else 0)"
proof -
  from assms(2) have reads: "reads_only r log" by (simp add: patch_log_def)
  obtain s w1 where ready: "run_state (ready_status r req wl) w = (wl\<lparr>Status := s\<rparr>, w1)"
    "log w1 = log w" "success_status wl s" "replicas_reported r req wl s"
    by (rule ready_status_run [OF assms(1) reads])
  obtain res err w2 where "run_state (patch_and_return r base (wl\<lparr>Status := s\<rparr>)
      \<lparr>RequeueAfter = 30 * second\<rparr> None) w1 = (Some (res, err), w2)"
    and "log w2 = log w1 @ [(base, wl\<lparr>Status := s\<rparr>)]"
    and "(res, err) = (\<lparr>RequeueAfter = 30 * second\<rparr>, None) \<or> (res = no_requeue \<and> err \<noteq> None)"
    by (rule patch_and_return_run [OF assms(2)])
  with ready show ?thesis by (auto simp: finish_ready no_requeue_def)
qed

lemma apply_all_silent:
  "(\<And>target f. silent view (CreateOrUpdate r target f)) \<Longrightarrow> silent view (apply_all r wl objs)"
  unfolding silent_iff_preserves setOwnerAndApply_target [symmetric, of r]
  by (simp add: apply_all_preserves setOwnerAndApply_target)

text \<open>Property C7: a reconcile that finds its Workload and gets an answer from the chart patches the
  status exactly once, on the snapshot it read, and changes nothing but the status.  Ready is true
  exactly if the chart rendered and every object was applied, and then the observed generation
  catches up, RolloutDegraded says whether a Canary was asked for, and the ready replicas are those the
  Deployment was read with, or as before if it could not be read; on a failure Ready is false with
  the reason and the message, and the rest of the status stays as it was.  The next reconcile is
  scheduled in 30 seconds if there is no error, and an error is returned whenever Ready is false.\<close>
theorem reconcile_patches_status_once:
  assumes "condition_contract r" and "patch_log r log"
    and "run_state (GetWorkload r req) w = (Inr wl, w1)"
    and "Chart E (metaName wl) (metaNamespace wl) (Spec wl) = Some rendered"
  shows "\<exists>s res err w'. run_state (Reconcile r E req) w = (Some (res, err), w') \<and>
    log w' = log w @ [(wl, wl\<lparr>Status := s\<rparr>)] \<and>
    RequeueAfter res = (if err = None then 30 * second else 0) \<and>
    (case rendered of
       Inl msg \<Rightarrow> failure_status wl ''RenderFailed'' msg s \<and> err \<noteq> None
     | Inr objs \<Rightarrow> (case fst (run_state (apply_all r wl objs) w1) of
           Inl msg \<Rightarrow> failure_status wl ''ApplyFailed'' msg s \<and> err \<noteq> None
         | Inr _ \<Rightarrow> success_status wl s \<and> replicas_reported r req wl s))"
proof -
  from assms(2) have reads: "reads_only r log"
    and silent: "\<And>target f. silent log (CreateOrUpdate r target f)" by (simp_all add: patch_log_def)
  from assms(3) reads have l1: "log w1 = log w" by (metis reads_only_def silentD snd_conv)
  have failure: "\<exists>s res err' w'. run_state (report_failure r wl wl reason msg err) v = (Some (res, err'), w') \<and>
      log w' = log v @ [(wl, wl\<lparr>Status := s\<rparr>)] \<and>
      RequeueAfter res = (if err' = None then 30 * second else 0) \<and>
      failure_status wl reason msg s \<and> err' \<noteq> None" for reason msg err v
    by (rule report_failure_run [OF assms(1,2)]) (fastforce simp: no_requeue_def)
  show ?thesis
  proof (cases rendered)
    case (Inl msg)
    with assms(3,4) have "run_state (Reconcile r E req) w =
        run_state (report_failure r wl wl ''RenderFailed'' msg (''render: '' @ msg)) w1"
      by (simp add: Reconcile_def)
    with failure [of "''RenderFailed''" msg "''render: '' @ msg" w1] l1 Inl show ?thesis by auto
  next
    case (Inr objs)
    obtain applied w2 where run: "run_state (apply_all r wl objs) w1 = (applied, w2)" by fastforce
    with apply_all_silent [OF silent] l1 have l2: "log w2 = log w" by (metis silentD snd_conv)
    show ?thesis
    proof (cases applied)
      case (Inl msg)
      with assms(3,4) Inr run have "run_state (Reconcile r E req) w =
          run_state (report_failure r wl wl ''ApplyFailed'' msg msg) w2"
        by (simp add: Reconcile_def)
      with failure [of "''ApplyFailed''" msg msg w2] l2 Inr Inl run show ?thesis by auto
    next
      case ok: (Inr u)
      with assms(3,4) Inr run have "run_state (Reconcile r E req) w = run_state (finish r req wl wl) w2"
        by (simp add: Reconcile_def)
      moreover obtain s res err w' where "run_state (finish r req wl wl) w2 = (Some (res, err), w')"
        and "log w' = log w2 @ [(wl, wl\<lparr>Status := s\<rparr>)]" and "success_status wl s"
        and "replicas_reported r req wl s" and "RequeueAfter res = (if err = None then 30 * second else 0)"
        using finish_run [OF assms(1,2), of req wl wl w2] by blast
      ultimately show ?thesis using l2 Inr ok run
        by (intro exI [of _ s] exI [of _ res] exI [of _ err] exI [of _ w']) simp
    qed
  qed
qed

subsection \<open>What a reconcile without an error has applied\<close>

fun distinct_objects :: "'k ClientObject list \<Rightarrow> bool" where
  "distinct_objects [] = True"
| "distinct_objects (x # xs) = (list_all (\<lambda>y. \<not> same_object x y) xs \<and> distinct_objects xs)"

text \<open>The object is live as the server admitted the result of applying it to what was there.\<close>

definition applied_live ::
  "('w, 'k) WorkloadReconciler \<Rightarrow> ('w \<Rightarrow> 'k ClientObject \<Rightarrow> 'k ClientObject option)
   \<Rightarrow> ('k ClientObject \<Rightarrow> 'k ClientObject) \<Rightarrow> 'k Workload \<Rightarrow> 'w \<Rightarrow> 'k ClientObject \<Rightarrow> bool" where
  "applied_live r live admit wl w d \<longleftrightarrow>
    (\<exists>old new. mutate r wl d old = Inr new \<and> spec_applied d old new \<and> live w d = Some (admit new))"

lemma apply_leaves_others:
  assumes "store_contract r live admit" and "\<not> same_object x d"
  shows "preserves (\<lambda>w. live w x = v) (setOwnerAndApply r wl d)"
  unfolding preserves_def setOwnerAndApply_target
proof (intro allI impI)
  fix w assume v: "live w x = v"
  obtain res w' where run: "run_state (CreateOrUpdate r d (mutate r wl d)) w = (res, w')" by fastforce
  have "live w' x = live w x"
    using store_effect [OF assms(1) run] assms(2) by (cases res) (auto simp: written_def)
  with run v show "live (snd (run_state (CreateOrUpdate r d (mutate r wl d)) w)) x = v" by simp
qed

lemma apply_all_live:
  assumes own: "owner_contract r own" and store: "store_contract r live admit"
    and "run_state (apply_all r wl objs) w = (Inr (), w')" and "distinct_objects objs"
  shows "list_all (applied_live r live admit wl w') objs"
  using assms(3,4)
proof (induction objs arbitrary: w)
  case (Cons d objs)
  obtain res w1 where run: "run_state (CreateOrUpdate r d (mutate r wl d)) w = (res, w1)" by fastforce
  with Cons.prems(1) obtain u where res: "res = Inr u" and rest: "run_state (apply_all r wl objs) w1 = (Inr (), w')"
    by (cases res) (simp_all add: setOwnerAndApply_target)
  from store_effect [OF store run] res have "written live admit (mutate r wl d) d w w1" by simp
  then obtain old new where new: "mutate r wl d old = Inr new" and live1: "live w1 d = Some (admit new)"
    by (auto simp: written_def)
  have "preserves (\<lambda>w. live w d = Some (admit new)) (apply_all r wl objs)"
    by (rule apply_all_preserves, rule apply_leaves_others [OF store])
      (use Cons.prems(2) in \<open>auto simp: list_all_iff\<close>)
  from preservesD [OF this live1] rest have "live w' d = Some (admit new)" by simp
  moreover from own new have "spec_applied d old new" by (rule mutate_success)
  ultimately have "applied_live r live admit wl w' d"
    using new by (auto simp: applied_live_def)
  with Cons.IH [OF rest] Cons.prems(2) show ?case by simp
qed simp

lemma finish_preserves:
  assumes "reads_only r view" and "\<And>base wl. silent view (PatchStatus r base wl)"
  shows "silent view (finish r req base wl)"
proof -
  have "preserves (\<lambda>w. view w = v) (finish r req base wl)" for v
  proof -
    from assms(1) have "preserves (\<lambda>w. view w = v) (GetDeployment r req)"
      unfolding reads_only_def by (intro silent_preserves [where P = "\<lambda>x. x = v"]) blast
    moreover note set_condition_preserves [OF assms(1), of "\<lambda>x. x = v"]
    moreover from this have "preserves (\<lambda>w. view w = v) (set_rollout_condition r wl)" for wl
      by (simp add: set_rollout_condition_def)
    moreover note silent_preserves [OF assms(2), of "\<lambda>x. x = v"]
    ultimately show ?thesis
      by (auto simp: finish_def Let_def patchStatus_def intro!: preserve_intros)
  qed
  then show ?thesis by (simp add: silent_iff_preserves)
qed

lemma report_failure_errs:
  "\<exists>err' w'. run_state (report_failure r base wl reason msg err) w = (Some (no_requeue, Some err'), w')"
proof -
  obtain wl1 w1 where 1: "run_state (set_condition r wl (cond wl ''Ready'' ConditionFalse reason msg)) w
      = (wl1, w1)" by fastforce
  obtain p w2 where 2: "run_state (PatchStatus r base wl1) w1 = (p, w2)" by fastforce
  show ?thesis
    unfolding report_failure_def run_bind [OF 1] patchStatus_def run_bind [OF 2]
    by (cases p) simp_all
qed

text \<open>A reconcile that returns no error has really applied the chart.  If it found its
  Workload, then rendering succeeded and every rendered object is in the cluster when it returns: as
  the server admitted the result of applying it, with the desired spec and of a kind the controller
  knows.  So an object of another kind, or one owned by another controller, always surfaces as an error.\<close>

lemma no_error_means_applied:
  assumes "owner_contract r own" and "store_contract r live admit"
    and "reads_only r live" and "\<And>base wl. silent live (PatchStatus r base wl)"
    and "run_state (GetWorkload r req) w = (Inr wl, w1)"
    and "run_state (Reconcile r E req) w = (Some (res, None), w')"
  shows "\<exists>objs. Chart E (metaName wl) (metaNamespace wl) (Spec wl) = Some (Inr objs) \<and>
    (if distinct_objects objs then list_all (applied_live r live admit wl w') objs else True)"
proof -
  let ?chart = "Chart E (metaName wl) (metaNamespace wl) (Spec wl)"
  from assms(5,6) have run: "run_state (case ?chart of
        None \<Rightarrow> State_Monad.return None
      | Some (Inl err) \<Rightarrow> report_failure r wl wl ''RenderFailed'' err (''render: '' @ err)
      | Some (Inr objs) \<Rightarrow> do {
          applied \<leftarrow> apply_all r wl objs;
          (case applied of
             Inl err \<Rightarrow> report_failure r wl wl ''ApplyFailed'' err err
           | Inr _ \<Rightarrow> finish r req wl wl)
        }) w1 = (Some (res, None), w')"
    by (simp add: Reconcile_def)
  obtain objs where objs: "?chart = Some (Inr objs)"
  proof (cases ?chart)
    case (Some rendered)
    show thesis
    proof (cases rendered)
      case (Inl err)
      with run Some report_failure_errs [of r wl wl "''RenderFailed''" err "''render: '' @ err" w1]
      show thesis by auto
    qed (use Some that in simp)
  qed (use run in simp)
  obtain applied w2 where applies: "run_state (apply_all r wl objs) w1 = (applied, w2)" by fastforce
  obtain u where u: "applied = Inr u"
  proof (cases applied)
    case (Inl err)
    with run objs applies report_failure_errs [of r wl wl "''ApplyFailed''" err err w2]
    show thesis by auto
  qed blast
  with run objs applies have "run_state (finish r req wl wl) w2 = (Some (res, None), w')" by simp
  with finish_preserves [OF assms(3,4)] have "live w' = live w2" by (metis silentD snd_conv)
  then have "applied_live r live admit wl w' = applied_live r live admit wl w2"
    by (simp add: applied_live_def fun_eq_iff)
  with apply_all_live [OF assms(1,2)] applies u objs show ?thesis by auto
qed

subsection \<open>A cluster to try the properties on\<close>

text \<open>
  The world is the list of live objects and the status patches.  \<open>CreateOrUpdate\<close> refuses, as
  controller-runtime does, a mutation that renames its object.
\<close>

type_synonym sample_world = "unit ClientObject list \<times> (unit Workload \<times> unit Workload) list"

definition sample_live :: "sample_world \<Rightarrow> unit ClientObject \<Rightarrow> unit ClientObject option" where
  "sample_live w x = find (\<lambda>y. same_object y x \<and> maps_ok y) (fst w)"

definition sample_own :: "unit Workload \<Rightarrow> ObjectMeta \<Rightarrow> OwnerReference list go" where
  "sample_own wl m = Inr [\<lparr>ownerKind = ''Workload'', ownerName = metaName wl, ownerUID = UID wl,
     ownerController = True\<rparr>]"

definition sample_workload :: "unit Workload" where
  "sample_workload = \<lparr>Kind = ''Workload'', APIVersion = ''workload.ops.dev/v1'', metaName = ''demo'',
    metaNamespace = ''apps'', UID = ''u1'', Generation = 2, Labels = None, Annotations = None,
    OwnerReferences = [],
    Spec = sample_spec,
    Status = \<lparr>Conditions = [], ObservedGeneration = 1, ReadyReplicas = 0\<rparr>\<rparr>"

definition sample_reconciler :: "(sample_world, unit) WorkloadReconciler" where
  "sample_reconciler = \<lparr>
     GetWorkload = (\<lambda>_. State_Monad.return (Inr sample_workload)),
     GetDeployment = (\<lambda>_. State_Monad.return (Inl (NotFound ''not found''))),
     CreateOrUpdate = (\<lambda>target f. State (\<lambda>w.
       case f (case sample_live w target of None \<Rightarrow> target | Some l \<Rightarrow> l) of
         Inl err \<Rightarrow> (Inl err, w)
       | Inr new \<Rightarrow> if same_object new target \<and> maps_ok new then (Inr (), (new # fst w, snd w))
           else (Inl ''MutateFn cannot mutate object name and/or object namespace'', w))),
     SetControllerReference = (\<lambda>wl t.
       map_sum id (\<lambda>refs. map_meta (\<lambda>m. m\<lparr>OwnerReferences := refs\<rparr>) t) (sample_own wl (object_meta t))),
     SetStatusCondition = (\<lambda>conditions c.
       State_Monad.return (c # filter (\<lambda>c'. condType c' \<noteq> condType c) conditions)),
     PatchStatus = (\<lambda>base wl. State (\<lambda>w. (Inr (), (fst w, snd w @ [(base, wl)]))))\<rparr>"

lemma sample_owner: "owner_contract sample_reconciler sample_own"
  by (simp add: owner_contract_def sample_reconciler_def sample_own_def)

lemma same_object_cong: "same_object x y \<Longrightarrow> same_object z x \<longleftrightarrow> same_object z y"
  by (metis same_object_sym same_object_trans)

lemma sample_store: "store_contract sample_reconciler sample_live (\<lambda>x. x)"
  unfolding store_contract_def
proof (intro conjI allI impI)
  fix w :: sample_world and x l assume "sample_live w x = Some l"
  then have "same_object l x \<and> maps_ok l" by (auto simp: sample_live_def find_Some_iff)
  then show "same_object l x" and "maps_ok l" by simp_all
next
  fix w :: sample_world and x y :: "unit ClientObject" assume "same_object x y"
  then show "sample_live w x = sample_live w y" by (simp add: sample_live_def same_object_cong)
next
  fix target f and w :: sample_world
  show "case run_state (CreateOrUpdate sample_reconciler target f) w of
      (Inr _, w') \<Rightarrow> written sample_live (\<lambda>x. x) f target w w'
    | (Inl _, w') \<Rightarrow> sample_live w' = sample_live w \<or> written sample_live (\<lambda>x. x) f target w w'"
  proof (cases "f (case sample_live w target of None \<Rightarrow> target | Some l \<Rightarrow> l)")
    case (Inr new)
    have "sample_live (new # fst w, snd w) x =
        (if same_object x target then Some new else sample_live w x)"
      if "same_object new target" and "maps_ok new" for x
      using that same_object_cong [of new target x] by (simp add: sample_live_def same_object_sym)
    with Inr show ?thesis
      by (simp add: sample_reconciler_def written_def)
  qed (simp add: sample_reconciler_def)
qed

lemma sample_reads: "reads_only sample_reconciler view"
  by (simp add: reads_only_def sample_reconciler_def silent_def)

lemma sample_patch_silent: "silent sample_live (PatchStatus sample_reconciler base wl)"
  by (simp add: silent_def sample_reconciler_def sample_live_def fun_eq_iff)

lemma sample_patch_log: "patch_log sample_reconciler snd"
  by (simp add: patch_log_def sample_reads)
    (simp add: silent_def sample_reconciler_def split: sum.split)

lemma find_filter_other:
  "t \<noteq> t' \<Longrightarrow> find (\<lambda>c. condType c = t) (filter (\<lambda>c. condType c \<noteq> t') cs) = find (\<lambda>c. condType c = t) cs"
  by (induction cs) auto

lemma sample_conditions: "condition_contract sample_reconciler"
  by (auto simp: condition_contract_def sample_reconciler_def condition_says_def find_condition_def
      find_filter_other intro!: outcome_return)

definition sample_service :: "string \<Rightarrow> unit ClientObject" where
  "sample_service ip = Service sample_meta \<lparr>ClusterIP = ip, ClusterIPs = None, serviceRest = ()\<rparr> ()"

lemma sample_service_ok [simp]: "maps_ok (sample_service ip)"
  by (simp add: sample_service_def maps_ok_def sample_meta_def go_map_option_def)

lemma sample_mutate:
  "\<exists>new. mutate sample_reconciler sample_workload (sample_service []) (sample_service ''10.0.0.7'') = Inr new"
  by (simp add: mutate_contract [OF sample_owner] sample_own_def sample_service_def copy_spec_def)

theorem apply_keeps_witness:
  "\<exists>new. mutate sample_reconciler sample_workload (sample_service []) (sample_service ''10.0.0.7'') = Inr new \<and>
    spec_applied (sample_service []) (sample_service ''10.0.0.7'') new"
  using sample_mutate apply_keeps_what_the_server_owns [OF sample_owner, of sample_workload
      "sample_service []" "sample_service ''10.0.0.7''"]
  by auto

theorem apply_is_idempotent_witness:
  "\<exists>new. mutate sample_reconciler sample_workload (sample_service []) (sample_service ''10.0.0.7'') = Inr new \<and>
    mutate sample_reconciler sample_workload (sample_service []) new = Inr new"
  using sample_mutate apply_is_idempotent [OF sample_owner, of "sample_service []" sample_workload
      "sample_service ''10.0.0.7''"]
  by auto

definition sample_request :: NamespacedName where
  "sample_request = \<lparr>reqNamespace = ''apps'', reqName = ''demo''\<rparr>"

theorem reconcile_keeps_witness:
  "\<exists>l'. sample_live (snd (run_state (Reconcile sample_reconciler sample_env sample_request)
      ([sample_service ''10.0.0.7''], []))) (sample_service []) = Some l' \<and>
    keeps (sample_service ''10.0.0.7'') l'"
proof (rule reconcile_keeps_live_fields [OF sample_owner sample_store keeps_refl sample_reads sample_patch_silent])
  show "sample_live ([sample_service ''10.0.0.7''], []) (sample_service []) = Some (sample_service ''10.0.0.7'')"
    by (simp add: sample_live_def) (simp add: sample_service_def same_object_def)
qed

lemma sample_get: "run_state (GetWorkload sample_reconciler req) w = (Inr sample_workload, w)"
  by (simp add: sample_reconciler_def)

theorem reconcile_patches_witness:
  "\<exists>s res err w'. run_state (Reconcile sample_reconciler sample_env sample_request) ([], []) =
      (Some (res, err), w') \<and>
    snd w' = [(sample_workload, sample_workload\<lparr>Status := s\<rparr>)] \<and>
    RequeueAfter res = (if err = None then 30 * second else 0)"
proof -
  obtain s res err w' where "run_state (Reconcile sample_reconciler sample_env sample_request) ([], []) =
      (Some (res, err), w')"
    and "snd w' = snd (([], []) :: sample_world) @ [(sample_workload, sample_workload\<lparr>Status := s\<rparr>)]"
    and "RequeueAfter res = (if err = None then 30 * second else 0)"
    using reconcile_patches_status_once [OF sample_conditions sample_patch_log sample_get sample_Chart,
        where req = sample_request and w = "([], [])"] by blast
  then show ?thesis by (intro exI conjI) simp_all
qed

lemma sample_CreateOrUpdate:
  "run_state (CreateOrUpdate sample_reconciler target f) w =
    (case f (case sample_live w target of None \<Rightarrow> target | Some l \<Rightarrow> l) of
       Inl err \<Rightarrow> (Inl err, w)
     | Inr new \<Rightarrow> if same_object new target \<and> maps_ok new then (Inr (), (new # fst w, snd w))
         else (Inl ''MutateFn cannot mutate object name and/or object namespace'', w))"
  by (simp add: sample_reconciler_def)

lemma sample_run:
  "\<exists>res w'. run_state (Reconcile sample_reconciler sample_env sample_request) ([], []) = (Some (res, None), w')"
proof -
  let ?d = "\<lambda>k. sample_object [(''kind'', VStr k)]"
  have mutate: "mutate sample_reconciler sample_workload (?d k) (?d k) =
      Inr (map_meta (applied_meta (projr (sample_own sample_workload sample_meta)) (object_meta (?d k))) (?d k))" for k
    by (simp add: mutate_contract [OF sample_owner] sample_own_def sample_object_def copy_spec_def)
  have ok: "maps_ok (map_meta (applied_meta refs m) x)" for refs m and x :: "unit ClientObject"
    by (simp add: maps_ok_def applied_meta_def)
  have same: "same_object (map_meta (applied_meta refs m) x) y \<longleftrightarrow> same_object x y"
    for refs m and x y :: "unit ClientObject"
    by (simp add: same_object_def applied_meta_def)
  have other: "\<not> same_object (?d ''x'') (?d ''y'')"
    by (simp add: sample_object_def same_object_def sample_kind_def)
  have create: "\<exists>w'. run_state (CreateOrUpdate sample_reconciler (?d k)
      (mutate sample_reconciler sample_workload (?d k))) w = (Inr (), w') \<and>
      (\<forall>y. \<not> same_object (?d k) y \<longrightarrow> sample_live w' y = sample_live w y)"
    if "sample_live w (?d k) = None" for w k
    using that
    by (simp add: sample_CreateOrUpdate mutate ok same) (simp add: sample_live_def same)
  obtain w1 where w1: "run_state (CreateOrUpdate sample_reconciler (?d ''x'')
      (mutate sample_reconciler sample_workload (?d ''x''))) ([], []) = (Inr (), w1)"
    "sample_live w1 (?d ''y'') = None"
    using create [of "([], [])" "''x''"] other by (auto simp: sample_live_def)
  obtain w2 where w2: "run_state (CreateOrUpdate sample_reconciler (?d ''y'')
      (mutate sample_reconciler sample_workload (?d ''y''))) w1 = (Inr (), w2)"
    using create [OF w1(2)] by blast
  have "run_state (Reconcile sample_reconciler sample_env sample_request) ([], []) =
      run_state (finish sample_reconciler sample_request sample_workload sample_workload) w2"
    using w1 w2 by (simp add: Reconcile_def sample_get sample_Chart setOwnerAndApply_target)
  moreover have "\<exists>res w'. run_state (finish sample_reconciler sample_request sample_workload sample_workload) w2
      = (Some (res, None), w')"
    by (simp add: finish_def set_rollout_condition_def set_condition_def patchStatus_def sample_reconciler_def)
  ultimately show ?thesis by simp
qed

theorem no_error_witness:
  "\<exists>res w'. run_state (Reconcile sample_reconciler sample_env sample_request) ([], []) = (Some (res, None), w') \<and>
    list_all (applied_live sample_reconciler sample_live (\<lambda>x. x) sample_workload w')
      [sample_object [(''kind'', VStr ''x'')], sample_object [(''kind'', VStr ''y'')]]"
proof -
  obtain res w' where run:
    "run_state (Reconcile sample_reconciler sample_env sample_request) ([], []) = (Some (res, None), w')"
    using sample_run by blast
  have "distinct_objects [sample_object [(''kind'', VStr ''x'')], sample_object [(''kind'', VStr ''y'')]]"
    by (simp add: sample_object_def same_object_def sample_kind_def)
  with no_error_means_applied [OF sample_owner sample_store sample_reads sample_patch_silent sample_get run]
  have "list_all (applied_live sample_reconciler sample_live (\<lambda>x. x) sample_workload w')
      [sample_object [(''kind'', VStr ''x'')], sample_object [(''kind'', VStr ''y'')]]"
    by (simp add: sample_Chart)
  with run show ?thesis by blast
qed

subsection \<open>Progress\<close>

text \<open>
  A cluster that accepts: writing succeeds whenever the mutation does and gives the same object, and so
  do status patches.
\<close>

definition accepts ::
  "('w, 'k) WorkloadReconciler \<Rightarrow> ('w \<Rightarrow> 'k ClientObject \<Rightarrow> 'k ClientObject option) \<Rightarrow> bool" where
  "accepts r live \<longleftrightarrow>
    (\<forall>target f w new. f (case live w target of None \<Rightarrow> target | Some l \<Rightarrow> l) = Inr new \<and>
       same_object new target \<and> maps_ok new \<longrightarrow>
       fst (run_state (CreateOrUpdate r target f) w) = Inr ()) \<and>
    (\<forall>base wl w. fst (run_state (PatchStatus r base wl) w) = Inr ())"

lemma mutate_succeeds:
  assumes "owner_contract r own" and "\<not> isl (own wl (object_meta l))" and "supported d" and "same_kind d l"
  shows "\<exists>new. mutate r wl d l = Inr new \<and> same_object new l \<and> maps_ok new"
proof -
  from assms(2) obtain refs where o: "own wl (object_meta l) = Inr refs"
    by (metis sum.disc(1) sum.exhaust)
  have "same_kind d (map_meta (applied_meta refs (object_meta d)) l)"
    using assms(4) by (simp add: same_kind_sym [of d])
  with assms(3) obtain n where "copy_spec d (map_meta (applied_meta refs (object_meta d)) l) = Inr n"
    using copy_spec_success by blast
  with o have new: "mutate r wl d l = Inr n" by (simp add: mutate_contract [OF assms(1)])
  from assms(1) this obtain refs where "object_meta n = applied_meta refs (object_meta d) (object_meta l)"
    and "same_kind n l" by (rule mutate_success)
  with new show ?thesis by (simp add: same_object_def maps_ok_def applied_meta_def)
qed

text \<open>No other controller owns what the object is applied to: the live one, or itself if there is none.\<close>

definition unowned ::
  "('k Workload \<Rightarrow> ObjectMeta \<Rightarrow> OwnerReference list go) \<Rightarrow> ('w \<Rightarrow> 'k ClientObject \<Rightarrow> 'k ClientObject option)
   \<Rightarrow> 'k Workload \<Rightarrow> 'w \<Rightarrow> 'k ClientObject \<Rightarrow> bool" where
  "unowned own live wl w d \<longleftrightarrow> \<not> isl (own wl (object_meta (case live w d of None \<Rightarrow> d | Some l \<Rightarrow> l)))"

lemma apply_all_succeeds:
  assumes own: "owner_contract r own"
    and store: "store_contract r live admit" and accepts: "accepts r live"
  shows "list_all supported objs \<Longrightarrow> distinct_objects objs \<Longrightarrow> list_all (unowned own live wl w) objs \<Longrightarrow>
    fst (run_state (apply_all r wl objs) w) = Inr ()"
proof (induction objs arbitrary: w)
  case (Cons d objs)
  have same: "same_object (case live w d of None \<Rightarrow> d | Some l \<Rightarrow> l) d"
  proof (cases "live w d")
    case (Some l)
    with store have "same_object l d" unfolding store_contract_def by blast
    with Some show ?thesis by simp
  qed simp
  with Cons.prems obtain new where "mutate r wl d (case live w d of None \<Rightarrow> d | Some l \<Rightarrow> l) = Inr new"
    and "same_object new (case live w d of None \<Rightarrow> d | Some l \<Rightarrow> l)" and "maps_ok new"
    using mutate_succeeds [OF own, of wl "case live w d of None \<Rightarrow> d | Some l \<Rightarrow> l" d]
    by (auto simp: same_object_def same_kind_sym unowned_def)
  with accepts same have "fst (run_state (CreateOrUpdate r d (mutate r wl d)) w) = Inr ()"
    unfolding accepts_def by (blast intro: same_object_trans)
  then obtain w1 where run: "run_state (setOwnerAndApply r wl d) w = (Inr (), w1)"
    by (metis prod.collapse setOwnerAndApply_target)
  have "live w1 x = live w x" if "x \<in> set objs" for x
  proof -
    have "\<not> same_object x d" using that Cons.prems(2) by (auto simp: list_all_iff same_object_sym)
    from preservesD [OF apply_leaves_others [OF store this, where v = "live w x" and wl = wl], of w] run
    show ?thesis by simp
  qed
  then have "list_all (unowned own live wl w1) objs"
    using Cons.prems(3) by (simp add: list_all_iff unowned_def)
  with Cons run show ?case by simp
qed simp

lemma finish_succeeds:
  assumes "\<And>base wl w. fst (run_state (PatchStatus r base wl) w) = Inr ()"
  shows "fst (run_state (finish r req base wl) w) = Some (\<lparr>RequeueAfter = 30 * second\<rparr>, None)"
proof -
  have patch: "run_state (PatchStatus r base wl) w = (Inr (), snd (run_state (PatchStatus r base wl) w))"
    for base wl w using assms [of base wl w] by (metis prod.collapse)
  show ?thesis
    unfolding finish_def patchStatus_def Let_def fst_run_bind assms sum.case by (simp only: run_state_return fst_conv)
qed

text \<open>A reconcile makes progress.  If the Workload is there, the chart renders distinct objects of
  the kinds the controller knows, no other controller owns them and the cluster accepts writes, then one
  reconcile is enough: it returns without an error, asks for the next in 30 seconds, and the status it
  patches has Ready true at the current generation.\<close>

lemma reconcile_makes_progress:
  assumes "owner_contract r own" and "list_all (unowned own live wl w1) objs"
    and "store_contract r live admit" and "accepts r live"
    and "condition_contract r" and "patch_log r log"
    and "run_state (GetWorkload r req) w = (Inr wl, w1)"
    and "Chart E (metaName wl) (metaNamespace wl) (Spec wl) = Some (Inr objs)"
    and "list_all supported objs" and "distinct_objects objs"
  shows "\<exists>s w'. run_state (Reconcile r E req) w = (Some (\<lparr>RequeueAfter = 30 * second\<rparr>, None), w') \<and>
    log w' = log w @ [(wl, wl\<lparr>Status := s\<rparr>)] \<and> success_status wl s"
proof -
  obtain w2 where applied: "run_state (apply_all r wl objs) w1 = (Inr (), w2)"
    using apply_all_succeeds [OF assms(1,3,4,9,10,2)] by (metis prod.collapse)
  with assms(7,8) have run: "run_state (Reconcile r E req) w = run_state (finish r req wl wl) w2"
    by (simp add: Reconcile_def)
  from assms(6) have "reads_only r log" and "silent log (apply_all r wl objs)"
    by (simp_all add: patch_log_def apply_all_silent)
  with assms(7) applied have logs: "log w2 = log w" by (metis reads_only_def silentD snd_conv)
  have "fst (run_state (finish r req wl wl) w2) = Some (\<lparr>RequeueAfter = 30 * second\<rparr>, None)"
    by (rule finish_succeeds) (use assms(4) [unfolded accepts_def] in blast)
  moreover obtain s res err w' where finish: "run_state (finish r req wl wl) w2 = (Some (res, err), w')"
    and "log w' = log w2 @ [(wl, wl\<lparr>Status := s\<rparr>)]" and "success_status wl s"
    using finish_run [OF assms(5,6), of req wl wl w2] by blast
  ultimately show ?thesis using run logs by (intro exI [of _ s] exI [of _ w']) simp
qed

text \<open>
  Filling in by the server.  \<open>resent x y z\<close>: \<open>y\<close> comes back with the metadata and status of \<open>z\<close>, and with each
  field of the spec as it is in \<open>x\<close> or in \<open>z\<close>, the two of the address together.  The server fills in an object without changing what is set,
  leaves the metadata of the client alone, and fills in the same again when some of what it had
  filled in comes back and the rest as it was sent: defaults are taken field by field, and an
  allocated address is kept.
\<close>

definition resent :: "'k ClientObject \<Rightarrow> 'k ClientObject \<Rightarrow> 'k ClientObject \<Rightarrow> bool" where
  "resent x y z \<longleftrightarrow> (case (x, y, z) of
     (Service _ a _, Service m b s, Service m' c s') \<Rightarrow> m = m' \<and> s = s' \<and>
       (ClusterIP b, ClusterIPs b) \<in> {(ClusterIP a, ClusterIPs a), (ClusterIP c, ClusterIPs c)} \<and>
       serviceRest b \<in> {serviceRest a, serviceRest c}
   | (Deployment _ a _, Deployment m b s, Deployment m' c s') \<Rightarrow> m = m' \<and> s = s' \<and>
       Replicas b \<in> {Replicas a, Replicas c} \<and> Selector b \<in> {Selector a, Selector c} \<and>
       deploymentRest b \<in> {deploymentRest a, deploymentRest c}
   | (HorizontalPodAutoscaler _ a _, HorizontalPodAutoscaler m b s, HorizontalPodAutoscaler m' c s') \<Rightarrow>
       m = m' \<and> s = s' \<and> b \<in> {a, c}
   | (PodDisruptionBudget _ a _, PodDisruptionBudget m b s, PodDisruptionBudget m' c s') \<Rightarrow>
       m = m' \<and> s = s' \<and> b \<in> {a, c}
   | (NetworkPolicy _ a, NetworkPolicy m b, NetworkPolicy m' c) \<Rightarrow> m = m' \<and> b \<in> {a, c}
   | (Ingress _ a _, Ingress m b s, Ingress m' c s') \<Rightarrow> m = m' \<and> s = s' \<and> b \<in> {a, c}
   | _ \<Rightarrow> False)"

definition same_client_meta :: "ObjectMeta \<Rightarrow> ObjectMeta \<Rightarrow> bool" where
  "same_client_meta m m' \<longleftrightarrow> metaName m = metaName m' \<and> metaNamespace m = metaNamespace m' \<and>
     Labels m = Labels m' \<and> Annotations m = Annotations m' \<and> OwnerReferences m = OwnerReferences m'"

definition fills_in :: "('k ClientObject \<Rightarrow> 'k ClientObject) \<Rightarrow> bool" where
  "fills_in admit \<longleftrightarrow> (\<forall>x. keeps x (admit x) \<and> same_kind (admit x) x \<and>
     same_client_meta (object_meta (admit x)) (object_meta x) \<and>
     (\<forall>y. resent x y (admit x) \<longrightarrow> admit y = admit x))"

text \<open>\<open>SetControllerReference\<close> looks at the namespace and the owner references of the object only.\<close>

definition owner_reads :: "('k Workload \<Rightarrow> ObjectMeta \<Rightarrow> OwnerReference list go) \<Rightarrow> bool" where
  "owner_reads own \<longleftrightarrow> (\<forall>wl m m'. metaNamespace m = metaNamespace m' \<and> OwnerReferences m = OwnerReferences m' \<longrightarrow>
     own wl m = own wl m')"

text \<open>
  A server that fills in nothing, and one that gives every Service an address and every Deployment one
  replica unless they have their own.
\<close>

fun fill_defaults :: "'k ClientObject \<Rightarrow> 'k ClientObject" where
  "fill_defaults (Service m a s) =
    Service m (if ClusterIP a = [] then a\<lparr>ClusterIP := ''10.0.0.1'', ClusterIPs := Some [''10.0.0.1'']\<rparr> else a) s"
| "fill_defaults (Deployment m a s) =
    Deployment m (a\<lparr>Replicas := Some (case Replicas a of None \<Rightarrow> 1 | Some n \<Rightarrow> n)\<rparr>) s"
| "fill_defaults x = x"

lemma resent_same: "resent x y x \<Longrightarrow> y = x"
  by (cases x; cases y) (auto simp: resent_def)

lemma fills_in_nothing: "fills_in (\<lambda>x. x)"
  by (auto simp: fills_in_def same_client_meta_def resent_same)

lemma fills_in_defaults: "fills_in fill_defaults"
  unfolding fills_in_def
proof (intro allI conjI impI)
  fix x y :: "'k ClientObject"
  show "keeps x (fill_defaults x)" by (cases x) (simp_all add: keeps_def split: option.split)
  show "same_kind (fill_defaults x) x" by (cases x) simp_all
  show "same_client_meta (object_meta (fill_defaults x)) (object_meta x)"
    by (cases x) (simp_all add: same_client_meta_def)
  assume "resent x y (fill_defaults x)"
  then show "fill_defaults y = fill_defaults x"
  proof (cases x)
    case (Service m a s)
    then obtain m' b s' where "y = Service m' b s'" using \<open>resent x y _\<close> by (cases y) (simp_all add: resent_def)
    with Service \<open>resent x y _\<close> show ?thesis by (cases a; cases b) (auto simp: resent_def split: if_splits)
  next
    case (Deployment m a s)
    then obtain m' b s' where "y = Deployment m' b s'" using \<open>resent x y _\<close> by (cases y) (simp_all add: resent_def)
    with Deployment \<open>resent x y _\<close> show ?thesis
      by (cases a; cases b; cases "Replicas a") (auto simp: resent_def)
  qed (cases y; simp add: resent_def)+
qed

text \<open>Applying an object to what the server made of it resends it.\<close>

lemma mutate_resends:
  assumes "owner_contract r own" and "owner_reads own" and "fills_in admit" and "maps_ok d"
    and "mutate r wl d old = Inr new"
  obtains new' where "mutate r wl d (admit new) = Inr new'" and "resent new new' (admit new)"
proof -
  let ?z = "admit new"
  from assms(3) have z: "keeps new ?z" "same_kind ?z new" and meta: "same_client_meta (object_meta ?z) (object_meta new)"
    unfolding fills_in_def by blast+
  from assms(1,5) obtain refs where o: "own wl (object_meta old) = Inr refs"
    and c: "copy_spec d (map_meta (applied_meta refs (object_meta d)) old) = Inr new"
    and m: "object_meta new = applied_meta refs (object_meta d) (object_meta old)"
    by (rule mutate_success)
  from o assms(1) m have "own wl (object_meta new) = Inr refs"
    by (simp add: owner_contract_def applied_meta_def)
  moreover from assms(2) meta have "own wl (object_meta ?z) = own wl (object_meta new)"
    unfolding owner_reads_def same_client_meta_def by blast
  moreover have "applied_meta refs (object_meta d) (object_meta ?z) = object_meta ?z"
    using assms(4) m meta by (simp add: applied_meta_def maps_ok_def same_client_meta_def)
  then have "map_meta (applied_meta refs (object_meta d)) ?z = ?z" by (rule map_meta_id)
  ultimately have again: "mutate r wl d ?z = copy_spec d ?z" using assms(1) by (simp add: mutate_contract)
  from c z have "\<exists>new'. copy_spec d ?z = Inr new' \<and> resent new new' ?z"
    by (cases d; cases old; cases ?z)
      (auto simp: copy_spec_def resent_def keeps_def copy_service_spec_def copy_deployment_spec_def Let_def)
  with again that show thesis by auto
qed

lemma settled_apply:
  assumes "store_contract r live admit" and "applied_live r live admit wl w d"
    and "\<And>old new. mutate r wl d old = Inr new \<Longrightarrow> \<exists>new'. mutate r wl d (admit new) = Inr new' \<and> admit new' = admit new"
  shows "live (snd (run_state (setOwnerAndApply r wl d) w)) = live w"
proof -
  obtain old new where new: "mutate r wl d old = Inr new" "live w d = Some (admit new)"
    using assms(2) by (auto simp: applied_live_def)
  obtain res w' where run: "run_state (CreateOrUpdate r d (mutate r wl d)) w = (res, w')" by fastforce
  have same: "live w x = live w d" if "same_object x d" for x
    using assms(1) that unfolding store_contract_def by blast
  have "live w' = live w" if "written live admit (mutate r wl d) d w w'"
  proof
    fix x
    from that new(2) obtain new' where "mutate r wl d (admit new) = Inr new'"
      and upd: "live w' x = (if same_object x d then Some (admit new') else live w x)"
      unfolding written_def by auto
    with assms(3) [OF new(1)] have "admit new' = admit new" by simp
    with upd same new(2) show "live w' x = live w x" by simp
  qed
  with store_effect [OF assms(1) run] have "live w' = live w" by (cases res) auto
  with run show ?thesis by (simp add: setOwnerAndApply_target)
qed

text \<open>Property C40: the cluster settles.  Once every object of the chart has been applied, applying them
  all again leaves every live object exactly as it is, so the requeue every 30 seconds changes
  nothing on its own.  The server may fill in fields, as long as it leaves alone what is set and fills in
  the same again when it gets some of that back and the rest as before.  That each application, to
  whatever it finds live, sends just this is what the mutation is shown to do: it takes the spec and the
  metadata from the chart, and addresses, selector, replicas and status from the server.\<close>
theorem applying_again_changes_nothing:
  assumes "owner_contract r own" and "store_contract r live admit"
    and "owner_reads own" and "fills_in admit" and "list_all maps_ok objs" and "distinct_objects objs"
    and "run_state (apply_all r wl objs) w = (Inr (), w1)"
  shows "live (snd (run_state (apply_all r wl objs) w1)) = live w1"
proof -
  have applied: "list_all (applied_live r live admit wl w1) objs"
    by (rule apply_all_live [OF assms(1,2,7,6)])
  have "preserves (\<lambda>w. live w = live w1) (apply_all r wl objs)"
  proof (rule apply_all_preserves)
    fix d assume d: "d \<in> set objs"
    have "live (snd (run_state (setOwnerAndApply r wl d) w)) = live w1" if "live w = live w1" for w
    proof -
      have "applied_live r live admit wl w d"
        using applied d that by (auto simp: list_all_iff applied_live_def)
      moreover have "\<exists>new'. mutate r wl d (admit new) = Inr new' \<and> admit new' = admit new"
        if "mutate r wl d old = Inr new" for old new
      proof -
        have "maps_ok d" using assms(5) d by (simp add: list_all_iff)
        from assms(1,3,4) this that obtain new' where "mutate r wl d (admit new) = Inr new'" "resent new new' (admit new)"
          by (rule mutate_resends)
        with assms(4) show ?thesis unfolding fills_in_def by blast
      qed
      ultimately show ?thesis using settled_apply [OF assms(2)] that by metis
    qed
    then show "preserves (\<lambda>w. live w = live w1) (setOwnerAndApply r wl d)"
      by (simp add: preserves_def)
  qed
  from preservesD [OF this, of w1] show ?thesis by simp
qed

lemma sample_accepts: "accepts sample_reconciler sample_live"
  by (simp add: accepts_def sample_CreateOrUpdate) (simp add: sample_reconciler_def)

lemma sample_own_free: "unowned sample_own live wl w d" "owner_reads sample_own"
  by (simp_all add: unowned_def owner_reads_def sample_own_def)

theorem reconcile_makes_progress_witness:
  "\<exists>s w'. run_state (Reconcile sample_reconciler sample_env sample_request) ([], []) =
      (Some (\<lparr>RequeueAfter = 30 * second\<rparr>, None), w') \<and>
    snd w' = [(sample_workload, sample_workload\<lparr>Status := s\<rparr>)] \<and> success_status sample_workload s"
proof -
  let ?objs = "[sample_object [(''kind'', VStr ''x'')], sample_object [(''kind'', VStr ''y'')]]"
  have "list_all supported ?objs" "distinct_objects ?objs" "list_all (unowned sample_own sample_live sample_workload w) ?objs" for w
    by (simp_all add: sample_object_def same_object_def sample_kind_def sample_own_free)
  then obtain s w' where "run_state (Reconcile sample_reconciler sample_env sample_request) ([], []) =
      (Some (\<lparr>RequeueAfter = 30 * second\<rparr>, None), w')"
    and "snd w' = snd (([], []) :: sample_world) @ [(sample_workload, sample_workload\<lparr>Status := s\<rparr>)]"
    and "success_status sample_workload s"
    using reconcile_makes_progress [OF sample_owner _ sample_store sample_accepts
        sample_conditions sample_patch_log sample_get sample_Chart] by blast
  then show ?thesis by (intro exI conjI) simp_all
qed

theorem applying_again_witness:
  "\<exists>w1. run_state (apply_all sample_reconciler sample_workload
      [sample_service [], sample_object [(''kind'', VStr ''x'')]]) ([sample_service ''10.0.0.7''], []) = (Inr (), w1) \<and>
    sample_live (snd (run_state (apply_all sample_reconciler sample_workload
      [sample_service [], sample_object [(''kind'', VStr ''x'')]]) w1)) = sample_live w1"
proof -
  let ?objs = "[sample_service [], sample_object [(''kind'', VStr ''x'')]]"
  have ok: "list_all supported ?objs" "distinct_objects ?objs" "list_all maps_ok ?objs"
    by (simp_all add: sample_object_def same_object_def)
      (simp_all add: maps_ok_def sample_meta_def go_map_option_def sample_service_def)
  moreover have "list_all (unowned sample_own sample_live sample_workload w) ?objs" for w by (simp add: sample_own_free)
  ultimately obtain w1 where run: "run_state (apply_all sample_reconciler sample_workload ?objs)
      ([sample_service ''10.0.0.7''], []) = (Inr (), w1)"
    using apply_all_succeeds [OF sample_owner sample_store sample_accepts] by (metis prod.collapse)
  then show ?thesis
    using applying_again_changes_nothing [OF sample_owner sample_store sample_own_free(2) fills_in_nothing ok(3,2)] by blast
qed

end
