(* ===== verification/Chart_Objects.thy ===== *)
theory Chart_Objects
  imports Chart_Templates Workload_Controller
begin

text \<open>
  From a Workload to its objects through the whole chart: what Helm and the YAML reader do with the files
  of \<open>charts/workload\<close> is the named contract \<open>renders\<close>, and the properties of the renderer and of the
  controller are put together over it.
\<close>

subsection \<open>What Helm and the YAML reader promise\<close>

text \<open>
  The texts written without quotes.  \<open>plain_scalar\<close> describes texts that YAML reads as one plain scalar
  wherever they stand; the templates do not guard against others.
\<close>

definition scalar_char :: "char \<Rightarrow> bool" where
  "scalar_char c \<longleftrightarrow> is_digit c \<or> (65 \<le> byte c \<and> byte c \<le> 90) \<or> (97 \<le> byte c \<and> byte c \<le> 122) \<or>
    c = CHR ''-'' \<or> c = CHR ''.'' \<or> c = CHR ''_'' \<or> c = CHR ''/''"

definition plain_scalar :: "string \<Rightarrow> bool" where
  "plain_scalar s \<longleftrightarrow> s \<noteq> [] \<and> list_all scalar_char s \<and> hd s \<notin> {CHR ''-'', CHR ''.'', CHR ''_''}"

fun text_of :: "any \<Rightarrow> string list" where
  "text_of (VStr s) = (if s = [] then [] else [s])"
| "text_of _ = []"

definition unquoted :: "any \<Rightarrow> string list" where
  "unquoted vals = (let name = text_of (field ''name'' vals); i = field ''ingress'' vals in
    name @ map (\<lambda>s. s @ ''-default-deny'') name @ map (\<lambda>s. s @ ''-allow'') name @
    text_of (field ''namespace'' vals) @
    text_of (field ''path'' (field ''livenessProbe'' vals)) @
    text_of (field ''path'' (field ''readinessProbe'' vals)) @
    text_of (field ''ingressClass'' vals) @
    text_of (or_default (VStr ''/'') (field ''path'' i)) @
    text_of (or_default (VStr ''Prefix'') (field ''pathType'' i)) @
    text_of (field ''metadataIP'' (field ''networkPolicy'' vals)))"

text \<open>The metadata of a document if every field of it is a string, as the typed object demands.\<close>

fun string_entries :: "go_values \<Rightarrow> string_map option" where
  "string_entries [] = Some []"
| "string_entries ((k, x) # m) =
    (case x of VStr s \<Rightarrow> map_option (\<lambda>es. (k, s) # es) (string_entries m) | _ \<Rightarrow> None)"

definition metadata_strings :: "go_values \<Rightarrow> (string \<times> string \<times> string_map) option" where
  "metadata_strings doc = (let md = field ''metadata'' (VMap doc) in
    case (field ''name'' md, field ''namespace'' md, field ''labels'' md) of
      (VStr name, VStr namespace, VMap ls) \<Rightarrow>
        map_option (\<lambda>es. (name, namespace, es)) (string_entries ls)
    | _ \<Rightarrow> None)"

fun mistyped_scalar :: "any \<Rightarrow> bool" where
  "mistyped_scalar VNil = False"
| "mistyped_scalar (VStr _) = False"
| "mistyped_scalar _ = True"

definition mistyped :: "go_values \<Rightarrow> bool" where
  "mistyped doc \<longleftrightarrow> (let md = field ''metadata'' (VMap doc) in
    mistyped_scalar (field ''name'' md) \<or> mistyped_scalar (field ''namespace'' md) \<or>
    (case field ''labels'' md of VMap ls \<Rightarrow> list_ex (\<lambda>(_, x). mistyped_scalar x) ls | _ \<Rightarrow> False))"

definition doc_kind :: "go_values \<Rightarrow> any \<times> any" where
  "doc_kind doc = (field ''apiVersion'' (VMap doc), field ''kind'' (VMap doc))"

text \<open>
  \<open>typed_as doc x\<close>: \<open>x\<close> is what the API machinery makes of the document, as far as the operator looks at
  it: the kind, the metadata, and the fields the server owns, which are unset unless the document
  sets them.
\<close>

definition typed_as :: "go_values \<Rightarrow> 'k ClientObject \<Rightarrow> bool" where
  "typed_as doc x \<longleftrightarrow>
    (case metadata_strings doc of
       None \<Rightarrow> False
     | Some (name, namespace, ls) \<Rightarrow>
         metaName (object_meta x) = name \<and> metaNamespace (object_meta x) = namespace \<and>
         go_map_option (Labels (object_meta x)) \<and> map_of (entries (Labels (object_meta x))) = map_of ls \<and>
         Annotations (object_meta x) = None \<and> OwnerReferences (object_meta x) = []) \<and>
    (case x of
       Service _ s _ \<Rightarrow> doc_kind doc = (VStr ''v1'', VStr ''Service'') \<and>
         (if field ''clusterIP'' (field ''spec'' (VMap doc)) = VNil then ClusterIP s = [] else True)
     | Deployment _ d _ \<Rightarrow> doc_kind doc = (VStr ''apps/v1'', VStr ''Deployment'') \<and>
         (if field ''replicas'' (field ''spec'' (VMap doc)) = VNil then Replicas d = None else True)
     | HorizontalPodAutoscaler _ _ _ \<Rightarrow> doc_kind doc = (VStr ''autoscaling/v2'', VStr ''HorizontalPodAutoscaler'')
     | PodDisruptionBudget _ _ _ \<Rightarrow> doc_kind doc = (VStr ''policy/v1'', VStr ''PodDisruptionBudget'')
     | NetworkPolicy _ _ \<Rightarrow> doc_kind doc = (VStr ''networking.k8s.io/v1'', VStr ''NetworkPolicy'')
     | Ingress _ _ _ \<Rightarrow> doc_kind doc = (VStr ''networking.k8s.io/v1'', VStr ''Ingress'')
     | OtherObject _ _ _ \<Rightarrow> False)"

text \<open>
  A document of the chart becomes a typed object if all plain scalars read as strings, and is an error
  if its metadata holds a number, a boolean or a table where the object has a string.
\<close>

definition reads_as :: "('ch, 'd, 't, 'k) ChartEnv \<Rightarrow> (string \<Rightarrow> any) \<Rightarrow> any \<Rightarrow> go_values \<Rightarrow> go_values \<Rightarrow> bool" where
  "reads_as E yaml vals raw doc \<longleftrightarrow>
    (if list_all (\<lambda>s. yaml s = VStr s) (unquoted vals)
     then \<exists>x. typedFromRaw E raw = Inr x \<and> typed_as doc x else True) \<and>
    (if mistyped doc then isl (typedFromRaw E raw) else True)"

definition reads_documents ::
  "('ch, 'd, 't, 'k) ChartEnv \<Rightarrow> (string \<Rightarrow> any) \<Rightarrow> any \<Rightarrow> string \<Rightarrow> go_values list \<Rightarrow> bool" where
  "reads_documents E yaml vals content docs \<longleftrightarrow>
    (if docs = [] then TrimSpace content = []
     else TrimSpace content \<noteq> [] \<and> (\<exists>raws. yields E (NewYAMLOrJSONDecoder E content) raws \<and>
       list_all2 (reads_as E yaml vals) (filter (\<lambda>raw. raw \<noteq> []) raws) docs))"

text \<open>
  \<open>renders E yaml re v opts\<close>: on the values \<open>v\<close> Helm checks the schema of the chart, lays the values over
  the defaults, and renders each template, in any order, to a text that reads as its documents.
\<close>

definition renders ::
  "('ch, 'd, 't, 'k) ChartEnv \<Rightarrow> (string \<Rightarrow> any) \<Rightarrow> (string \<Rightarrow> string \<Rightarrow> bool) \<Rightarrow> go_values \<Rightarrow> ReleaseOptions \<Rightarrow> bool" where
  "renders E yaml re v opts \<longleftrightarrow>
    (case loadEmbeddedChart E of
       Inl _ \<Rightarrow> False
     | Inr ch \<Rightarrow>
         (ValidateAgainstSchema E ch v = Inr () \<longleftrightarrow> valid re values_schema (VMap v)) \<and>
         (valid re values_schema (VMap v) \<longrightarrow>
           (\<exists>m rv. coalesced v chart_defaults m \<and> ToRenderValues E ch v opts = Inr rv \<and>
             (list_all plain_scalar (unquoted (VMap m)) \<longrightarrow>
               (\<exists>rendered ts. Render E ch rv = Inr rendered \<and>
                 mset ts = mset (chart_templates yaml (VMap m)) \<and>
                 list_all2 (\<lambda>(name, content) (t, docs). name = t \<and> reads_documents E yaml (VMap m) content docs)
                   rendered ts)))))"

subsection \<open>The documents are of known kinds with distinct names\<close>

text \<open>The objects of a Workload: their kinds, as \<open>%T\<close> prints them, and names.\<close>

definition object_key :: "'k ClientObject \<Rightarrow> string \<times> string" where
  "object_key x = (go_type x, metaName (object_meta x))"

definition workload_objects :: "string \<Rightarrow> 'k WorkloadSpec \<Rightarrow> (string \<times> string) list" where
  "workload_objects name spec =
    [(''*v1.Deployment'', name), (''*v2.HorizontalPodAutoscaler'', name)] @
    (if specIngress spec = None then [] else [(''*v1.Ingress'', name)]) @
    [(''*v1.NetworkPolicy'', name @ ''-default-deny''), (''*v1.NetworkPolicy'', name @ ''-allow''),
     (''*v1.PodDisruptionBudget'', name), (''*v1.Service'', name)]"

text \<open>What an object of the chart is: known, in the namespace, named, labelled, with nothing owned set.\<close>

definition chart_object :: "string \<Rightarrow> string \<Rightarrow> string \<times> string \<Rightarrow> 'k ClientObject \<Rightarrow> bool" where
  "chart_object name namespace key x \<longleftrightarrow> object_key x = key \<and> supported x \<and> maps_ok x \<and>
    metaNamespace (object_meta x) = namespace \<and> OwnerReferences (object_meta x) = [] \<and>
    map_of (entries (Labels (object_meta x))) =
      [''app.kubernetes.io/name'' \<mapsto> name, ''app.kubernetes.io/instance'' \<mapsto> name,
       ''app.kubernetes.io/part-of'' \<mapsto> name, ''app.kubernetes.io/managed-by'' \<mapsto> ''workload-operator''] \<and>
    (case x of Deployment _ d _ \<Rightarrow> Replicas d = None | Service _ s _ \<Rightarrow> ClusterIP s = [] | _ \<Rightarrow> True)"

lemma document_fields:
  "field ''metadata'' (VMap (document yaml vals version kind n spec)) = VMap [(''name'', n),
     (''namespace'', plain yaml (field ''namespace'' vals)), (''labels'', workload_labels yaml vals)]"
  "field ''spec'' (VMap (document yaml vals version kind n spec)) = spec"
  "doc_kind (document yaml vals version kind n spec) = (VStr version, VStr kind)"
  by (simp_all add: document_def doc_kind_def)

lemma document_metadata:
  assumes "field ''name'' vals = VStr name" and "field ''namespace'' vals = VStr namespace"
    and "yaml name = VStr name" and "yaml namespace = VStr namespace"
  shows "metadata_strings (document yaml vals version kind (VStr n) spec) =
    Some (n, namespace, [(''app.kubernetes.io/name'', name), (''app.kubernetes.io/instance'', name),
      (''app.kubernetes.io/part-of'', name), (''app.kubernetes.io/managed-by'', ''workload-operator'')])"
  using assms by (simp add: metadata_strings_def document_fields workload_labels_def Let_def)

lemma typed_chart_object:
  assumes "field ''name'' vals = VStr name" and "field ''namespace'' vals = VStr namespace"
    and "yaml name = VStr name" and "yaml namespace = VStr namespace"
    and "typed_as (document yaml vals version kind (VStr n) spec) x"
    and "(version, kind, gtype) \<in> set [(''apps/v1'', ''Deployment'', ''*v1.Deployment''),
      (''autoscaling/v2'', ''HorizontalPodAutoscaler'', ''*v2.HorizontalPodAutoscaler''),
      (''networking.k8s.io/v1'', ''Ingress'', ''*v1.Ingress''),
      (''networking.k8s.io/v1'', ''NetworkPolicy'', ''*v1.NetworkPolicy''),
      (''policy/v1'', ''PodDisruptionBudget'', ''*v1.PodDisruptionBudget''), (''v1'', ''Service'', ''*v1.Service'')]"
    and "field ''replicas'' spec = VNil" and "field ''clusterIP'' spec = VNil"
  shows "chart_object name namespace (gtype, n) x"
proof -
  have typed: "metaName (object_meta x) = n" "metaNamespace (object_meta x) = namespace"
    "go_map_option (Labels (object_meta x))" "Annotations (object_meta x) = None"
    "OwnerReferences (object_meta x) = []"
    "map_of (entries (Labels (object_meta x))) = map_of
      [(''app.kubernetes.io/name'', name), (''app.kubernetes.io/instance'', name),
       (''app.kubernetes.io/part-of'', name), (''app.kubernetes.io/managed-by'', ''workload-operator'')]"
    using assms(5) unfolding typed_as_def document_metadata [OF assms(1-4)] by simp_all
  have "maps_ok x" using typed(3,4) by (simp add: maps_ok_def go_map_option_def)
  moreover have "map_of [(''app.kubernetes.io/name'', name), (''app.kubernetes.io/instance'', name),
       (''app.kubernetes.io/part-of'', name), (''app.kubernetes.io/managed-by'', ''workload-operator'')] =
      [''app.kubernetes.io/name'' \<mapsto> name, ''app.kubernetes.io/instance'' \<mapsto> name,
       ''app.kubernetes.io/part-of'' \<mapsto> name, ''app.kubernetes.io/managed-by'' \<mapsto> ''workload-operator'']"
    by (rule ext) simp
  moreover have "go_type x = gtype \<and> supported x \<and>
      (case x of Deployment _ d _ \<Rightarrow> Replicas d = None | Service _ s _ \<Rightarrow> ClusterIP s = [] | _ \<Rightarrow> True)"
    using assms(5-8) unfolding typed_as_def by (cases x) (auto simp: document_fields)
  ultimately show ?thesis using typed by (simp add: chart_object_def object_key_def)
qed

subsection \<open>From the templates to the objects\<close>

definition text_list :: "string \<Rightarrow> string list" where
  "text_list s = (if s = [] then [] else [s])"

definition spec_unquoted :: "string \<Rightarrow> string \<Rightarrow> 'k WorkloadSpec \<Rightarrow> string list" where
  "spec_unquoted name namespace spec =
    [name, name @ ''-default-deny'', name @ ''-allow'', namespace] @
    (case LivenessProbe spec of None \<Rightarrow> [] | Some p \<Rightarrow> text_list (probePath p)) @
    (case ReadinessProbe spec of None \<Rightarrow> [] | Some p \<Rightarrow> text_list (probePath p)) @
    text_list (IngressClass spec) @
    (case specIngress spec of
       None \<Rightarrow> [''/'', ''Prefix'']
     | Some i \<Rightarrow> [if ingressPath i = [] then ''/'' else ingressPath i,
         if PathType i = [] then ''Prefix'' else PathType i]) @
    [''169.254.169.254/32'']"

lemma unquoted_spec:
  assumes "spec_values E name namespace spec m" and "name \<noteq> []" and "namespace \<noteq> []"
  shows "unquoted (VMap m) = spec_unquoted name namespace spec"
  using assms(2,3)
  by (simp add: unquoted_def spec_unquoted_def text_list_def or_default_def Let_def
      spec_scalars [OF assms(1)] spec_probes [OF assms(1)] spec_ingress [OF assms(1)] spec_network [OF assms(1)]
      split: option.split)

text \<open>The keys of the objects of one template.\<close>

definition template_keys :: "string \<Rightarrow> 'k WorkloadSpec \<Rightarrow> string \<Rightarrow> (string \<times> string) list" where
  "template_keys name spec t =
    (if t = ''workload/templates/deployment.yaml'' then [(''*v1.Deployment'', name)]
     else if t = ''workload/templates/hpa.yaml'' then [(''*v2.HorizontalPodAutoscaler'', name)]
     else if t = ''workload/templates/ingress.yaml''
     then (if specIngress spec = None then [] else [(''*v1.Ingress'', name)])
     else if t = ''workload/templates/networkpolicy.yaml''
     then [(''*v1.NetworkPolicy'', name @ ''-default-deny''), (''*v1.NetworkPolicy'', name @ ''-allow'')]
     else if t = ''workload/templates/pdb.yaml'' then [(''*v1.PodDisruptionBudget'', name)]
     else if t = ''workload/templates/service.yaml'' then [(''*v1.Service'', name)]
     else [])"

lemma template_keys_all:
  "concat (map (\<lambda>(t, _). template_keys name spec t) (chart_templates yaml vals)) = workload_objects name spec"
  by (simp add: chart_templates_def template_keys_def workload_objects_def)

text \<open>Every document of a template becomes an object of its key.\<close>

definition becomes :: "string \<Rightarrow> string \<Rightarrow> 'k itself \<Rightarrow> string \<times> string \<Rightarrow> go_values \<Rightarrow> bool" where
  "becomes name namespace _ key doc \<longleftrightarrow>
    (\<forall>x :: 'k ClientObject. typed_as doc x \<longrightarrow> chart_object name namespace key x)"

lemma template_documents:
  fixes ty :: "'k itself"
  assumes vals: "spec_values E name namespace spec m"
    and yaml: "list_all (\<lambda>s. yaml s = VStr s) (spec_unquoted name namespace spec)"
  shows "list_all (\<lambda>(t, docs). list_all2 (becomes name namespace ty) (template_keys name spec t) docs)
    (chart_templates yaml (VMap m))"
proof -
  have s: "yaml name = VStr name" "yaml namespace = VStr namespace"
    "yaml (name @ ''-default-deny'') = VStr (name @ ''-default-deny'')"
    "yaml (name @ ''-allow'') = VStr (name @ ''-allow'')"
    using yaml by (simp_all add: spec_unquoted_def)
  have doc: "becomes name namespace ty (gtype, n) (document yaml (VMap m) version kind (VStr n) spec')"
    if "(version, kind, gtype) \<in> set [(''apps/v1'', ''Deployment'', ''*v1.Deployment''),
      (''autoscaling/v2'', ''HorizontalPodAutoscaler'', ''*v2.HorizontalPodAutoscaler''),
      (''networking.k8s.io/v1'', ''Ingress'', ''*v1.Ingress''),
      (''networking.k8s.io/v1'', ''NetworkPolicy'', ''*v1.NetworkPolicy''),
      (''policy/v1'', ''PodDisruptionBudget'', ''*v1.PodDisruptionBudget''), (''v1'', ''Service'', ''*v1.Service'')]"
      "field ''replicas'' spec' = VNil" "field ''clusterIP'' spec' = VNil" for version kind gtype n spec'
    unfolding becomes_def
    using typed_chart_object [OF spec_scalars(1,2) [OF vals] s(1,2) _ that] by blast
  show ?thesis
    by (simp add: chart_templates_def template_keys_def deployment_doc_def hpa_doc_def ingress_docs_def
        networkpolicy_docs_def deny_doc_def allow_doc_def pdb_doc_def service_doc_def spec_scalars [OF vals]
        spec_ingress [OF vals] spec_network [OF vals] Let_def s suffixed_def doc)
qed

lemma file_becomes:
  fixes E :: "('ch, 'd, 't, 'k) ChartEnv"
  assumes "reads_documents E yaml vals content docs"
    and "list_all (\<lambda>s. yaml s = VStr s) (unquoted vals)"
    and "list_all2 (becomes name namespace TYPE('k)) keys docs"
  shows "\<exists>os. file_objects E (n, content) = Some (Inr os) \<and> list_all2 (chart_object name namespace) keys os"
proof (cases "docs = []")
  case True
  with assms show ?thesis by (simp add: reads_documents_def file_objects_def)
next
  case False
  with assms(1) obtain raws where content: "TrimSpace content \<noteq> []"
    and raws: "yields E (NewYAMLOrJSONDecoder E content) raws"
    and docs: "list_all2 (reads_as E yaml vals) (filter (\<lambda>raw. raw \<noteq> []) raws) docs"
    by (auto simp: reads_documents_def)
  let ?ty = "\<lambda>raw. projr (typedFromRaw E raw)" and ?rs = "filter (\<lambda>raw. raw \<noteq> []) raws"
  have typed: "typedFromRaw E (?rs ! i) = Inr (?ty (?rs ! i)) \<and> typed_as (docs ! i) (?ty (?rs ! i))"
    if "i < length ?rs" for i
    using list_all2_nthD [OF docs that] assms(2) by (auto simp: reads_as_def)
  then have "\<forall>raw \<in> set ?rs. typedFromRaw E raw = Inr (?ty raw)" by (metis in_set_conv_nth)
  then have "typedFromRaw E raw = Inr (?ty raw)" if "raw \<in> set raws" "raw \<noteq> []" for raw
    using that by simp
  then have "typed_docs E n raws = Inr (map ?ty ?rs)" by (rule typed_docs_total)
  with content raws have "file_objects E (n, content) = Some (Inr (map ?ty ?rs))"
    by (simp add: file_objects_def decode_docs_yields)
  moreover have "list_all2 (chart_object name namespace) keys (map ?ty ?rs)"
    using assms(3) list_all2_lengthD [OF docs] typed
    by (auto simp: list_all2_conv_all_nth becomes_def)
  ultimately show ?thesis by blast
qed

lemma files_become:
  fixes E :: "('ch, 'd, 't, 'k) ChartEnv"
  assumes "list_all2 (\<lambda>(n, content) (t, docs). n = t \<and> reads_documents E yaml vals content docs) rendered ts"
    and "list_all (\<lambda>s. yaml s = VStr s) (unquoted vals)"
    and "list_all (\<lambda>(t, docs). list_all2 (becomes name namespace TYPE('k)) (keys t) docs) ts"
  shows "\<exists>objs. decode_files E rendered acc = Some (Inr (acc @ objs)) \<and>
    list_all2 (chart_object name namespace) (concat (map (\<lambda>(t, _). keys t) ts)) objs"
  using assms(1,3)
proof (induction rendered ts arbitrary: acc rule: list_all2_induct)
  case (Cons f rendered tpl ts)
  obtain n content t docs where f: "f = (n, content)" "tpl = (t, docs)" by fastforce
  with Cons obtain os where os: "file_objects E f = Some (Inr os)"
    "list_all2 (chart_object name namespace) (keys t) os"
    using file_becomes [OF _ assms(2), where content = content and docs = docs and keys = "keys t" and n = n
      and name = name and namespace = namespace] by auto
  obtain objs where "decode_files E rendered (acc @ os) = Some (Inr ((acc @ os) @ objs))"
    "list_all2 (chart_object name namespace) (concat (map (\<lambda>(t, _). keys t) ts)) objs"
    using Cons.IH [of "acc @ os"] Cons.prems by auto
  with os f show ?case by (intro exI [of _ "os @ objs"]) (auto simp: decode_files_Cons intro: list_all2_appendI)
qed simp

lemma mset_concat_map: "mset xs = mset ys \<Longrightarrow> mset (concat (map f xs)) = mset (concat (map f ys))"
  by (simp add: mset_concat sum_mset_sum_list [symmetric] mset_map del: sum_mset_sum_list)

lemma rendersE:
  assumes v: "valuesFromSpec E name namespace spec = Inr v"
    and renders: "renders E yaml re v \<lparr>relName = releaseName, relNamespace = namespace\<rparr>"
    and names: "name \<noteq> []" "namespace \<noteq> []" and accepts: "chart_accepts spec"
    and plain: "list_all plain_scalar (spec_unquoted name namespace spec)"
  obtains rendered ts m where "Chart E name namespace spec = decode E rendered"
    and "spec_values E name namespace spec m"
    and "unquoted (VMap m) = spec_unquoted name namespace spec"
    and "mset ts = mset (chart_templates yaml (VMap m))"
    and "list_all2 (\<lambda>(name, content) (t, docs). name = t \<and> reads_documents E yaml (VMap m) content docs) rendered ts"
proof -
  obtain ch where ch: "loadEmbeddedChart E = Inr ch" using renders by (auto simp: renders_def split: sum.splits)
  have "valid re values_schema (VMap v)"
    unfolding values_schema_valid [OF v] using names accepts by simp
  with renders ch obtain m rv where ok: "ValidateAgainstSchema E ch v = Inr ()"
    and c: "coalesced v chart_defaults m"
    and rv: "ToRenderValues E ch v \<lparr>relName = releaseName, relNamespace = namespace\<rparr> = Inr rv"
    and render: "list_all plain_scalar (unquoted (VMap m)) \<longrightarrow> (\<exists>rendered ts. Render E ch rv = Inr rendered \<and>
      mset ts = mset (chart_templates yaml (VMap m)) \<and>
      list_all2 (\<lambda>(name, content) (t, docs). name = t \<and> reads_documents E yaml (VMap m) content docs) rendered ts)"
    unfolding renders_def by auto
  have vals: "spec_values E name namespace spec m" using v c by (auto simp: spec_values_def)
  note un = unquoted_spec [OF vals names]
  from render plain obtain rendered ts where rendered: "Render E ch rv = Inr rendered"
    and ts: "mset ts = mset (chart_templates yaml (VMap m))"
    and reads: "list_all2 (\<lambda>(name, content) (t, docs). name = t \<and> reads_documents E yaml (VMap m) content docs) rendered ts"
    by (auto simp: un)
  have "Chart E name namespace spec = decode E rendered"
    by (simp add: Chart_def ch v ok rv rendered)
  from this vals un ts reads show thesis by (rule that)
qed

lemma chart_renders_objects:
  fixes E :: "('ch, 'd, 't, 'k) ChartEnv"
  assumes v: "valuesFromSpec E name namespace spec = Inr v"
    and renders: "renders E yaml re v \<lparr>relName = releaseName, relNamespace = namespace\<rparr>"
    and names: "name \<noteq> []" "namespace \<noteq> []" and accepts: "chart_accepts spec"
    and yaml: "list_all (\<lambda>s. plain_scalar s \<and> yaml s = VStr s) (spec_unquoted name namespace spec)"
  obtains objs keys where "Chart E name namespace spec = Some (Inr objs)"
    and "mset keys = mset (workload_objects name spec)" and "list_all2 (chart_object name namespace) keys objs"
proof -
  have "list_all plain_scalar (spec_unquoted name namespace spec)" using yaml by (simp add: list_all_iff)
  with assms(1-5) obtain rendered ts m where chart: "Chart E name namespace spec = decode E rendered"
    and vals: "spec_values E name namespace spec m"
    and un: "unquoted (VMap m) = spec_unquoted name namespace spec"
    and ts: "mset ts = mset (chart_templates yaml (VMap m))"
    and reads: "list_all2 (\<lambda>(name, content) (t, docs). name = t \<and> reads_documents E yaml (VMap m) content docs) rendered ts"
    by (rule rendersE)
  have strings: "list_all (\<lambda>s. yaml s = VStr s) (unquoted (VMap m))"
    using yaml unfolding un by (simp add: list_all_iff)
  have "list_all (\<lambda>(t, docs). list_all2 (becomes name namespace TYPE('k)) (template_keys name spec t) docs) ts"
    using template_documents [OF vals strings [unfolded un], of "TYPE('k)"]
    unfolding list_all_iff mset_eq_setD [OF ts] .
  from files_become [OF reads strings this, of "[]"] obtain objs where
    "decode E rendered = Some (Inr objs)"
    "list_all2 (chart_object name namespace) (concat (map (\<lambda>(t, _). template_keys name spec t) ts)) objs"
    by (auto simp: decode_def)
  moreover have "mset (concat (map (\<lambda>(t, _). template_keys name spec t) ts)) = mset (workload_objects name spec)"
    unfolding template_keys_all [symmetric, of name spec yaml "VMap m"]
    by (rule mset_concat_map [OF ts])
  ultimately show thesis using that chart by simp
qed

subsection \<open>The objects of a Workload\<close>

lemma same_object_key: "same_object x y \<Longrightarrow> object_key x = object_key y"
  by (cases x; cases y) (auto simp: same_object_def object_key_def)

lemma distinct_keys_objects: "distinct (map object_key objs) \<Longrightarrow> distinct_objects objs"
  by (induction objs) (auto simp: list_all_iff dest: same_object_key)

lemma distinct_workload_objects: "distinct (workload_objects name spec)"
  by (simp add: workload_objects_def)

lemma chart_objects_keys:
  "list_all2 (chart_object name namespace) keys objs \<Longrightarrow> map object_key objs = keys \<and>
   list_all (\<lambda>x. chart_object name namespace (object_key x) x) objs"
  by (induction rule: list_all2_induct) (auto simp: chart_object_def)

lemma chart_objects_ok:
  assumes "mset (map object_key objs) = mset (workload_objects name spec)"
    and "list_all (\<lambda>x. chart_object name namespace (object_key x) x) objs"
  shows "distinct_objects objs \<and> list_all supported objs \<and> list_all maps_ok objs"
proof -
  have "distinct (map object_key objs)"
    using distinct_workload_objects mset_eq_imp_distinct_iff [OF assms(1)] by blast
  with assms(2) show ?thesis by (auto simp: distinct_keys_objects list_all_iff chart_object_def)
qed

text \<open>Property C16: a Workload that renders becomes exactly its objects.  If its spec passes the schema, its
  overrides can be converted, and the texts the templates write without quotes (its name and namespace, the
  paths of the probes, the class, path and path type of the ingress) are plain scalars that read as
  strings, which a name \<open>123\<close> or a path \<open>8080\<close> are not, then rendering
  succeeds with one Deployment, one autoscaler, one disruption budget and one Service named like the
  Workload, the two network policies, and an Ingress exactly if the spec asks for one, in some order:
  all in the namespace, of kinds the controller applies, no two the same, labelled with the name, with
  no owner, no replicas and no cluster IP of their own.\<close>
theorem chart_yields_the_objects:
  assumes "valuesFromSpec E name namespace spec = Inr v"
    and "renders E yaml re v \<lparr>relName = releaseName, relNamespace = namespace\<rparr>"
    and "name \<noteq> []" and "namespace \<noteq> []" and "chart_accepts spec"
    and "list_all (\<lambda>s. plain_scalar s \<and> yaml s = VStr s) (spec_unquoted name namespace spec)"
  shows "\<exists>objs. Chart E name namespace spec = Some (Inr objs) \<and>
    mset (map object_key objs) = mset (workload_objects name spec) \<and>
    list_all (\<lambda>x. chart_object name namespace (object_key x) x) objs \<and> distinct_objects objs"
proof -
  obtain objs keys where objs: "Chart E name namespace spec = Some (Inr objs)"
    and keys: "mset keys = mset (workload_objects name spec)" "list_all2 (chart_object name namespace) keys objs"
    using assms by (rule chart_renders_objects)
  from chart_objects_keys [OF keys(2)] keys(1) have ok:
    "mset (map object_key objs) = mset (workload_objects name spec)"
    "list_all (\<lambda>x. chart_object name namespace (object_key x) x) objs" by simp_all
  with chart_objects_ok [OF ok] objs show ?thesis by blast
qed

subsection \<open>Names that do not read as strings\<close>

lemma mistyped_document:
  assumes "field ''name'' vals = VStr name" and "field ''namespace'' vals = VStr namespace"
    and "mistyped_scalar (yaml name) \<or> mistyped_scalar (yaml namespace)"
  shows "mistyped (document yaml vals version kind n spec)"
  using assms by (auto simp: mistyped_def document_fields workload_labels_def Let_def)

lemma template_documents_mistyped:
  assumes "spec_values E name namespace spec m"
    and "mistyped_scalar (yaml name) \<or> mistyped_scalar (yaml namespace)"
  shows "list_all (\<lambda>(t, docs). list_all mistyped docs) (chart_templates yaml (VMap m))"
  using mistyped_document [OF spec_scalars(1,2) [OF assms(1)] assms(2)]
  by (simp add: chart_templates_def deployment_doc_def hpa_doc_def ingress_docs_def networkpolicy_docs_def
      deny_doc_def allow_doc_def pdb_doc_def service_doc_def Let_def)

lemma typed_docs_mistyped:
  assumes "list_all2 (reads_as E yaml vals) (filter (\<lambda>raw. raw \<noteq> []) raws) docs"
    and "list_all mistyped docs" and "docs \<noteq> []"
  shows "isl (typed_docs E n raws)"
  using assms
proof (induction raws)
  case (Cons raw raws)
  show ?case
  proof (cases "raw = []")
    case False
    with Cons.prems obtain doc docs' where "docs = doc # docs'" "reads_as E yaml vals raw doc" "mistyped doc"
      by (auto simp: list_all2_Cons1)
    then have "isl (typedFromRaw E raw)" by (simp add: reads_as_def)
    with False show ?thesis by (cases "typedFromRaw E raw") simp_all
  qed (use Cons in simp)
qed simp

lemma files_mistyped:
  assumes "list_all2 (\<lambda>(n, content) (t, docs). n = t \<and> reads_documents E yaml vals content docs) rendered ts"
    and "list_all (\<lambda>(t, docs). list_all mistyped docs) ts" and "\<exists>(t, docs) \<in> set ts. docs \<noteq> []"
  shows "\<exists>err. decode_files E rendered acc = Some (Inl err)"
  using assms
proof (induction rendered ts rule: list_all2_induct)
  case (Cons f rendered tpl ts)
  obtain n content t docs where f: "f = (n, content)" "tpl = (t, docs)" by fastforce
  show ?case
  proof (cases "docs = []")
    case True
    with Cons f have "file_objects E f = Some (Inr [])" by (simp add: reads_documents_def file_objects_def)
    with Cons f True show ?thesis by (simp add: decode_files_Cons)
  next
    case False
    with Cons.hyps f obtain raws where "TrimSpace content \<noteq> []"
      and raws: "yields E (NewYAMLOrJSONDecoder E content) raws"
      and docs: "list_all2 (reads_as E yaml vals) (filter (\<lambda>raw. raw \<noteq> []) raws) docs"
      by (auto simp: reads_documents_def)
    moreover from typed_docs_mistyped [OF docs _ False, of n] Cons.prems f
    obtain err where "typed_docs E n raws = Inl err" by (auto simp: isl_def)
    ultimately have "file_objects E f = Some (Inl err)"
      by (simp add: f file_objects_def decode_docs_yields)
    then show ?thesis by (simp add: decode_files_Cons)
  qed
qed simp

text \<open>Property C22: the templates write the name and the namespace without quotes, so a Workload whose name
  or namespace YAML reads as a number or a boolean (\<open>123\<close> and \<open>true\<close> are valid names) never gets its
  objects: rendering fails on the first document, and every reconcile of it ends in an error.\<close>
theorem misread_names_never_render:
  assumes "valuesFromSpec E (metaName wl) (metaNamespace wl) (Spec wl) = Inr v"
    and "renders E yaml re v \<lparr>relName = releaseName, relNamespace = metaNamespace wl\<rparr>"
    and "metaName wl \<noteq> []" and "metaNamespace wl \<noteq> []" and "chart_accepts (Spec wl)"
    and "list_all plain_scalar (spec_unquoted (metaName wl) (metaNamespace wl) (Spec wl))"
    and "mistyped_scalar (yaml (metaName wl)) \<or> mistyped_scalar (yaml (metaNamespace wl))"
    and "run_state (GetWorkload r req) w = (Inr wl, w1)"
  shows "\<exists>err err' w'. Chart E (metaName wl) (metaNamespace wl) (Spec wl) = Some (Inl err) \<and>
    run_state (Reconcile r E req) w = (Some (no_requeue, Some err'), w')"
proof -
  obtain rendered ts m where chart: "Chart E (metaName wl) (metaNamespace wl) (Spec wl) = decode E rendered"
    and vals: "spec_values E (metaName wl) (metaNamespace wl) (Spec wl) m"
    and ts: "mset ts = mset (chart_templates yaml (VMap m))"
    and reads: "list_all2 (\<lambda>(name, content) (t, docs). name = t \<and> reads_documents E yaml (VMap m) content docs) rendered ts"
    using assms(1-6) by (rule rendersE)
  have "list_all (\<lambda>(t, docs). list_all mistyped docs) ts"
    using template_documents_mistyped [OF vals assms(7)] unfolding list_all_iff mset_eq_setD [OF ts] .
  moreover have "\<exists>(t, docs) \<in> set ts. docs \<noteq> []"
    unfolding mset_eq_setD [OF ts] by (simp add: chart_templates_def)
  ultimately obtain err where err: "Chart E (metaName wl) (metaNamespace wl) (Spec wl) = Some (Inl err)"
    using files_mistyped [OF reads] by (auto simp: decode_def chart)
  with assms(8) have "run_state (Reconcile r E req) w =
      run_state (report_failure r wl wl ''RenderFailed'' err (''render: '' @ err)) w1"
    by (simp add: Reconcile_def)
  with report_failure_errs [of r wl wl "''RenderFailed''" err "''render: '' @ err" w1] err show ?thesis
    by auto
qed

subsection \<open>From the Workload to the cluster\<close>

text \<open>Property C3: the operator, end to end, for a Workload that renders, in a cluster that lets it.  The Workload is
  read, its overrides convert, its spec passes the schema of the chart, and the texts that the
  templates write without quotes read as strings (a name such as \<open>123\<close> does not, and a Workload with that
  name never gets this far).  An object of its namespace without owners can be owned by it, no live object
  that has the kind and name of one of its objects is controlled by somebody else, and the cluster
  accepts writes.  Then one reconcile, from whatever else the state of the cluster is, returns without an
  error with all its objects live: the Deployment, autoscaler, budget, Service, network policies and the
  Ingress if there is one, each as the server admitted the result of applying it; and the status it patches
  says so.\<close>
theorem reconcile_applies_the_workload:
  assumes "owner_contract r own"
    and "\<And>m. metaNamespace m = metaNamespace wl \<Longrightarrow> OwnerReferences m = [] \<Longrightarrow> \<not> isl (own wl m)"
    and "\<And>d l. object_key d \<in> set (workload_objects (metaName wl) (Spec wl)) \<Longrightarrow>
      metaNamespace (object_meta d) = metaNamespace wl \<Longrightarrow> live w1 d = Some l \<Longrightarrow> \<not> isl (own wl (object_meta l))"
    and "store_contract r live admit" and "accepts r live"
    and "condition_contract r" and "patch_log r log"
    and "reads_only r live" and "\<And>base wl. silent live (PatchStatus r base wl)"
    and "run_state (GetWorkload r req) w = (Inr wl, w1)"
    and "valuesFromSpec E (metaName wl) (metaNamespace wl) (Spec wl) = Inr v"
    and "renders E yaml re v \<lparr>relName = releaseName, relNamespace = metaNamespace wl\<rparr>"
    and "metaName wl \<noteq> []" and "metaNamespace wl \<noteq> []" and "chart_accepts (Spec wl)"
    and "list_all (\<lambda>s. plain_scalar s \<and> yaml s = VStr s)
      (spec_unquoted (metaName wl) (metaNamespace wl) (Spec wl))"
  shows "\<exists>objs s w'. run_state (Reconcile r E req) w = (Some (\<lparr>RequeueAfter = 30 * second\<rparr>, None), w') \<and>
    log w' = log w @ [(wl, wl\<lparr>Status := s\<rparr>)] \<and> success_status wl s \<and>
    mset (map object_key objs) = mset (workload_objects (metaName wl) (Spec wl)) \<and>
    list_all (\<lambda>x. chart_object (metaName wl) (metaNamespace wl) (object_key x) x) objs \<and>
    list_all (applied_live r live admit wl w') objs"
proof -
  obtain objs keys where chart: "Chart E (metaName wl) (metaNamespace wl) (Spec wl) = Some (Inr objs)"
    and "mset keys = mset (workload_objects (metaName wl) (Spec wl))"
    and "list_all2 (chart_object (metaName wl) (metaNamespace wl)) keys objs"
    using assms(11-16) by (rule chart_renders_objects)
  with chart_objects_keys have keys: "mset (map object_key objs) = mset (workload_objects (metaName wl) (Spec wl))"
    "list_all (\<lambda>x. chart_object (metaName wl) (metaNamespace wl) (object_key x) x) objs" by metis+
  note ok = chart_objects_ok [OF keys]
  have "unowned own live wl w1 d" if d: "d \<in> set objs" for d
  proof -
    have "object_key d \<in> set (workload_objects (metaName wl) (Spec wl))"
      using d mset_eq_setD [OF keys(1)] by auto
    moreover have "metaNamespace (object_meta d) = metaNamespace wl" "OwnerReferences (object_meta d) = []"
      using keys(2) d by (simp_all add: list_all_iff chart_object_def)
    ultimately show ?thesis
      using assms(2,3) by (cases "live w1 d") (simp_all add: unowned_def)
  qed
  then have free: "list_all (unowned own live wl w1) objs" by (simp add: list_all_iff)
  obtain s w' where run: "run_state (Reconcile r E req) w = (Some (\<lparr>RequeueAfter = 30 * second\<rparr>, None), w')"
    and "log w' = log w @ [(wl, wl\<lparr>Status := s\<rparr>)]" and "success_status wl s"
    using reconcile_makes_progress [OF assms(1) free assms(4-7,10) chart] ok by blast
  moreover have "list_all (applied_live r live admit wl w') objs"
    using no_error_means_applied [OF assms(1,4,8,9,10) run] chart ok by auto
  ultimately show ?thesis using keys by blast
qed

end
