(* ===== verification/Chart_Samples.thy ===== *)
theory Chart_Samples
  imports Chart_Objects
begin

text \<open>
  An instance of the contract \<open>renders\<close>, a chart whose templates render to the documents of the model, and
  the properties of \<open>Chart_Objects\<close> applied to it, to a reconciler and to two Workloads.
\<close>

subsection \<open>A chart to try the properties on\<close>

text \<open>
  An instance of the contract: Helm renders each template to its own name, and the YAML reader turns
  that name into the documents of the template for the values \<open>m\<close>, reading plain scalars with \<open>yaml\<close>.
\<close>

definition sample_typed_object :: "go_values \<Rightarrow> unit ClientObject" where
  "sample_typed_object doc = (case metadata_strings doc of
     None \<Rightarrow> OtherObject [] sample_meta ()
   | Some (name, namespace, ls) \<Rightarrow> (let
       m = sample_meta\<lparr>metaName := name, metaNamespace := namespace, Labels := Some ls\<rparr>;
       kind = field ''kind'' (VMap doc)
     in if kind = VStr ''Service''
        then Service m \<lparr>ClusterIP = [], ClusterIPs = None, serviceRest = ()\<rparr> ()
        else if kind = VStr ''Deployment''
        then Deployment m \<lparr>Replicas = None, Selector = None, deploymentRest = ()\<rparr>
          \<lparr>depReadyReplicas = 0, depStatusRest = ()\<rparr>
        else if kind = VStr ''HorizontalPodAutoscaler'' then HorizontalPodAutoscaler m () ()
        else if kind = VStr ''PodDisruptionBudget'' then PodDisruptionBudget m () ()
        else if kind = VStr ''NetworkPolicy'' then NetworkPolicy m ()
        else Ingress m () ()))"

fun next_document :: "go_values list \<Rightarrow> decoded \<times> go_values list" where
  "next_document [] = (Eof, [])"
| "next_document (doc # docs) = (Document doc, docs)"

definition sample_chart ::
  "(string \<Rightarrow> any) \<Rightarrow> go_values \<Rightarrow> (unit, go_values list, go_values, unit) ChartEnv" where
  "sample_chart yaml m = \<lparr>
     Sub = (\<lambda>_. Inr []), LoadFiles = (\<lambda>_. Inr ()),
     ResourcesToUnstructured = (\<lambda>_. Inr []), SecurityToUnstructured = (\<lambda>_. Inr []),
     PodSecurityToUnstructured = (\<lambda>_. Inr []),
     ValidateAgainstSchema =
       (\<lambda>_ v. if valid (\<lambda>_ _. True) values_schema (VMap v) then Inr () else Inl ''invalid''),
     ToRenderValues = (\<lambda>_ _ _. Inr m),
     Render = (\<lambda>_ m. Inr (map (\<lambda>(t, docs). (t, if docs = [] then [] else t)) (chart_templates yaml (VMap m)))),
     NewYAMLOrJSONDecoder = (\<lambda>content. case map_of (chart_templates yaml (VMap m)) content of
        None \<Rightarrow> [] | Some docs \<Rightarrow> docs),
     Decode = next_document,
     GroupVersionKind = (\<lambda>raw. \<lparr>gvkGroup = [], gvkVersion = ''v1'', gvkKind = sample_kind raw\<rparr>),
     showGVK = gvkKind, SchemeNew = (\<lambda>_. Inr []),
     FromUnstructured = (\<lambda>raw _. if mistyped raw then Inl ''mistyped'' else Inr raw),
     asClientObject = (\<lambda>raw. Some (sample_typed_object raw)),
     SetGroupVersionKind = (\<lambda>_ x. x)\<rparr>"

lemma sample_chart_yields: "yields (sample_chart yaml m) docs docs"
  by (induction docs) (auto simp: sample_chart_def intro!: yields.intros)

lemma sample_chart_typed:
  "typedFromRaw (sample_chart yaml m) raw = (if mistyped raw then Inl ''mistyped'' else Inr (sample_typed_object raw))"
  by (simp add: typedFromRaw_def sample_chart_def)

lemma sample_document_typed:
  assumes "(version, kind) \<in> {(''apps/v1'', ''Deployment''), (''autoscaling/v2'', ''HorizontalPodAutoscaler''),
      (''networking.k8s.io/v1'', ''Ingress''), (''networking.k8s.io/v1'', ''NetworkPolicy''),
      (''policy/v1'', ''PodDisruptionBudget''), (''v1'', ''Service'')}"
    and "field ''name'' vals = VStr name" and "field ''namespace'' vals = VStr namespace"
    and "yaml name = VStr name" and "yaml namespace = VStr namespace"
  shows "typed_as (document yaml vals version kind (VStr n) spec)
      (sample_typed_object (document yaml vals version kind (VStr n) spec)) \<and>
    \<not> mistyped (document yaml vals version kind (VStr n) spec)"
proof -
  note meta = document_metadata [OF assms(2-5), of version kind n spec]
  have kind: "field ''kind'' (VMap (document yaml vals version kind (VStr n) spec)) = VStr kind"
    using document_fields(3) [of yaml vals version kind "VStr n" spec] by (simp add: doc_kind_def)
  have "\<not> mistyped (document yaml vals version kind (VStr n) spec)"
    using assms(2-5) by (simp add: mistyped_def document_fields workload_labels_def Let_def)
  moreover have "typed_as (document yaml vals version kind (VStr n) spec)
      (sample_typed_object (document yaml vals version kind (VStr n) spec))"
    unfolding typed_as_def sample_typed_object_def meta kind document_fields option.case prod.case Let_def
    using assms(1) by (elim insertE; simp add: sample_meta_def go_map_option_def)
  ultimately show ?thesis by blast
qed

lemma sample_chart_reads:
  fixes yaml :: "string \<Rightarrow> any"
  assumes "(version, kind) \<in> {(''apps/v1'', ''Deployment''), (''autoscaling/v2'', ''HorizontalPodAutoscaler''),
      (''networking.k8s.io/v1'', ''Ingress''), (''networking.k8s.io/v1'', ''NetworkPolicy''),
      (''policy/v1'', ''PodDisruptionBudget''), (''v1'', ''Service'')}"
    and "name \<noteq> []" and "n \<in> {name, name @ ''-default-deny'', name @ ''-allow''}"
  defines "vals \<equiv> VMap (sample_values name)"
  shows "reads_as (sample_chart yaml m) yaml vals (document yaml vals version kind (yaml n) spec)
    (document yaml vals version kind (yaml n) spec)"
proof -
  note scalars = spec_scalars(1,2) [OF sample_spec_values [of sample_env name], folded vals_def]
  have "unquoted vals = spec_unquoted name ''apps'' sample_spec"
    unfolding vals_def by (rule unquoted_spec [OF sample_spec_values [of sample_env]]) (simp_all add: assms(2))
  then have "yaml name = VStr name \<and> yaml ''apps'' = VStr ''apps'' \<and> yaml n = VStr n"
    if "list_all (\<lambda>s. yaml s = VStr s) (unquoted vals)"
    using that assms(3) by (auto simp: spec_unquoted_def)
  then show ?thesis
    using sample_document_typed [OF assms(1) scalars, of yaml n spec]
    by (simp add: reads_as_def sample_chart_typed)
qed

lemma sample_chart_renders:
  assumes "name \<noteq> []"
  shows "renders (sample_chart yaml (sample_values name)) yaml (\<lambda>_ _. True)
    (base_values name ''apps'' sample_spec) opts"
proof -
  let ?vals = "VMap (sample_values name)" and ?E = "sample_chart yaml (sample_values name)"
  let ?ts = "chart_templates yaml ?vals"
  let ?rendered = "map (\<lambda>(t, docs). (t, if docs = [] then [] else t)) ?ts"
  note vals = sample_spec_values [of sample_env name]
  have doc: "document yaml ?vals version kind n spec \<noteq> []" for version kind n spec
    by (simp add: document_def)
  have same: "list_all2 P xs xs" if "list_all (\<lambda>x. P x x) xs" for P and xs :: "go_values list"
    using that by (induction xs) simp_all
  have docs: "list_all (\<lambda>(t, docs). list_all (\<lambda>doc. doc \<noteq> [] \<and> reads_as ?E yaml ?vals doc doc) docs) ?ts"
    by (simp add: chart_templates_def deployment_doc_def hpa_doc_def ingress_docs_def networkpolicy_docs_def
        deny_doc_def allow_doc_def pdb_doc_def service_doc_def spec_scalars [OF vals] spec_ingress [OF vals]
        spec_network [OF vals] Let_def suffixed_def doc sample_chart_reads assms)
  have read: "reads_documents ?E yaml ?vals (if docs = [] then [] else t) docs"
    if "(t, docs) \<in> set ?ts" for t docs
  proof -
    have printable: "TrimSpace t = t" "t \<noteq> []" "map_of ?ts t = Some docs"
      using that by (auto simp: chart_templates_def intro!: TrimSpace_printable)
    have "filter (\<lambda>raw. raw \<noteq> []) docs = docs" "list_all (\<lambda>doc. reads_as ?E yaml ?vals doc doc) docs"
      using docs that by (auto simp: list_all_iff filter_id_conv)
    moreover have "NewYAMLOrJSONDecoder ?E t = docs" using printable(3) by (simp add: sample_chart_def)
    moreover have "TrimSpace [] = []" by (rule TrimSpace_printable) simp
    ultimately show ?thesis
      using printable(1,2) sample_chart_yields [of yaml "sample_values name" docs]
      by (auto simp: reads_documents_def same intro!: exI [of _ docs])
  qed
  have "list_all2 (\<lambda>(name, content) (t, docs). name = t \<and> reads_documents ?E yaml ?vals content docs) ?rendered ?ts"
    by (auto simp: list_all2_map1 list.rel_refl_strong read intro!: list.rel_refl_strong)
  moreover have "Render ?E () (sample_values name) = Inr ?rendered" by (simp add: sample_chart_def)
  moreover have "loadEmbeddedChart ?E = Inr ()" by (simp add: loadEmbeddedChart_def sample_chart_def)
  moreover have "ToRenderValues ?E () v opts = Inr (sample_values name)" for v by (simp add: sample_chart_def)
  moreover have "ValidateAgainstSchema ?E () v = Inr () \<longleftrightarrow> valid (\<lambda>_ _. True) values_schema (VMap v)" for v
    by (simp add: sample_chart_def)
  ultimately show ?thesis
    using sample_coalesced [of name] unfolding renders_def by fastforce
qed

lemma sample_unquoted_plain:
  "list_all (\<lambda>s. plain_scalar s) (spec_unquoted ''demo'' ''apps'' sample_spec)"
  "list_all (\<lambda>s. plain_scalar s) (spec_unquoted ''123'' ''apps'' sample_spec)"
  by (simp_all add: spec_unquoted_def sample_spec_def text_list_def plain_scalar_def scalar_char_def is_digit_def)

lemma sample_unquoted:
  "list_all (\<lambda>s. plain_scalar s \<and> VStr s = VStr s) (spec_unquoted ''demo'' ''apps'' sample_spec)"
  using sample_unquoted_plain(1) by simp

lemma sample_accepted: "chart_accepts sample_spec"
  by (simp add: chart_accepts_def sample_spec_def port_in_range_def)

theorem chart_yields_the_objects_witness:
  "\<exists>objs. Chart (sample_chart VStr (sample_values ''demo'')) ''demo'' ''apps'' sample_spec = Some (Inr objs) \<and>
    mset (map object_key objs) = {#(''*v1.Deployment'', ''demo''), (''*v2.HorizontalPodAutoscaler'', ''demo''),
      (''*v1.NetworkPolicy'', ''demo-default-deny''), (''*v1.NetworkPolicy'', ''demo-allow''),
      (''*v1.PodDisruptionBudget'', ''demo''), (''*v1.Service'', ''demo'')#}"
proof -
  have "workload_objects ''demo'' sample_spec = [(''*v1.Deployment'', ''demo''),
      (''*v2.HorizontalPodAutoscaler'', ''demo''), (''*v1.NetworkPolicy'', ''demo-default-deny''),
      (''*v1.NetworkPolicy'', ''demo-allow''), (''*v1.PodDisruptionBudget'', ''demo''), (''*v1.Service'', ''demo'')]"
    by (simp add: workload_objects_def sample_spec_def)
  then show ?thesis
    using chart_yields_the_objects [OF sample_values_from_spec sample_chart_renders _ _ sample_accepted sample_unquoted]
    by auto
qed

text \<open>A Workload named \<open>123\<close>, which YAML reads as a number.\<close>

definition sample_reader :: "string \<Rightarrow> any" where
  "sample_reader s = (if s = ''123'' then VInt 123 else VStr s)"

definition numbered_reconciler :: "(sample_world, unit) WorkloadReconciler" where
  "numbered_reconciler = sample_reconciler\<lparr>GetWorkload :=
     (\<lambda>_. State_Monad.return (Inr (sample_workload\<lparr>metaName := ''123''\<rparr>)))\<rparr>"

theorem misread_names_witness:
  "\<exists>err err' w'. Chart (sample_chart sample_reader (sample_values ''123'')) ''123'' ''apps'' sample_spec =
      Some (Inl err) \<and>
    run_state (Reconcile numbered_reconciler (sample_chart sample_reader (sample_values ''123'')) sample_request)
      ([], []) = (Some (no_requeue, Some err'), w')"
proof -
  let ?wl = "sample_workload\<lparr>metaName := ''123''\<rparr>"
  have get: "run_state (GetWorkload numbered_reconciler sample_request) ([], []) = (Inr ?wl, ([], []))"
    by (simp add: numbered_reconciler_def)
  have wl: "metaName ?wl = ''123''" "metaNamespace ?wl = ''apps''" "Spec ?wl = sample_spec"
    by (simp_all add: sample_workload_def)
  show ?thesis
    using misread_names_never_render [of "sample_chart sample_reader (sample_values ''123'')" ?wl, unfolded wl,
        OF sample_values_from_spec sample_chart_renders _ _ sample_accepted sample_unquoted_plain(2) _ get]
    by (simp add: sample_reader_def)
qed

theorem reconcile_applies_witness:
  "\<exists>objs w'. run_state (Reconcile sample_reconciler (sample_chart VStr (sample_values ''demo'')) sample_request)
      ([], []) = (Some (\<lparr>RequeueAfter = 30 * second\<rparr>, None), w') \<and>
    mset (map object_key objs) = mset (workload_objects ''demo'' sample_spec) \<and>
    list_all (applied_live sample_reconciler sample_live (\<lambda>x. x) sample_workload w') objs"
proof -
  have wl: "metaName sample_workload = ''demo''" "metaNamespace sample_workload = ''apps''"
    "Spec sample_workload = sample_spec"
    by (simp_all add: sample_workload_def)
  have own: "\<not> isl (sample_own wl m)" for wl m by (simp add: sample_own_def)
  show ?thesis
    using reconcile_applies_the_workload [OF sample_owner own own sample_store sample_accepts
        sample_conditions sample_patch_log sample_reads sample_patch_silent sample_get, unfolded wl,
        OF sample_values_from_spec sample_chart_renders _ _ sample_accepted sample_unquoted]
    by blast
qed

end
