(* ===== verification/Operator_Main.thy ===== *)
theory Operator_Main
  imports Workload_Controller Go_Flag
begin

text \<open>
  \<open>operator/cmd/main.go\<close>: the start of the operator, from its arguments.  The manager of
  controller-runtime is the record \<open>ManagerLib\<close>; \<open>GetConfigOrDie\<close> exits with code 1 when there is no
  configuration.  The value of \<open>operator_main\<close> is the exit code.
\<close>

record operator_flags =
  metricsAddr :: string
  watchNamespace :: string
  devMode :: bool

text \<open>\<open>DefaultNamespaces\<close> is the key set of the cache's namespace map, empty for the whole cluster.\<close>

record 's ManagerOptions =
  moScheme :: 's
  moBindAddress :: string
  moDefaultNamespaces :: "string list"

definition buildManagerOptions :: "'s \<Rightarrow> string \<Rightarrow> string \<Rightarrow> 's ManagerOptions" where
  "buildManagerOptions scheme addr namespace = (let
     options = \<lparr>moScheme = scheme, moBindAddress = addr, moDefaultNamespaces = []\<rparr>
   in if namespace \<noteq> [] then options\<lparr>moDefaultNamespaces := [namespace]\<rparr> else options)"

record ('w, 's, 'cfg, 'mgr) ManagerLib =
  SetLogger :: "bool \<Rightarrow> ('w, unit) state"
  GetConfig :: "('w, 'cfg go) state"
  NewManager :: "'cfg \<Rightarrow> 's ManagerOptions \<Rightarrow> ('w, 'mgr go) state"
  CompleteController :: "'mgr \<Rightarrow> string \<Rightarrow> string list \<Rightarrow> ('w, unit go) state"
  Start :: "'mgr \<Rightarrow> ('w, unit go) state"

text \<open>\<open>SetupWithManager\<close>: the kind reconciled and the owned kinds that trigger a reconcile.\<close>

definition SetupWithManager ::
  "('w, 's, 'cfg, 'mgr) ManagerLib \<Rightarrow> 'mgr \<Rightarrow> ('w, unit go) state" where
  "SetupWithManager L mgr = CompleteController L mgr ''Workload'' [''Deployment'']"

text \<open>
  \<open>init\<close>: the scheme of the operator, from what client-go registers; \<open>utilruntime.Must\<close> panics with an error.
\<close>

definition operator_scheme :: "(GVK list \<Rightarrow> GVK list go) \<Rightarrow> GVK list go" where
  "operator_scheme clientgo_AddToScheme =
    (case clientgo_AddToScheme [] of Inl err \<Rightarrow> Inl err | Inr known \<Rightarrow> Inr (AddToScheme known))"

lemma operator_scheme_knows_workloads:
  "operator_scheme clientgo_AddToScheme = Inr known \<Longrightarrow>
   \<lparr>gvkGroup = ''workload.ops.dev'', gvkVersion = ''v1'', gvkKind = ''Workload''\<rparr> \<in> set known"
  by (auto simp: operator_scheme_def AddToScheme_def registered_kinds_def GroupVersion_def split: sum.splits)

definition operator_main ::
  "('w, 's, 'cfg, 'mgr) ManagerLib \<Rightarrow> 's \<Rightarrow> operator_flags \<Rightarrow> ('w, nat) state" where
  "operator_main L scheme flags = do {
     _ \<leftarrow> SetLogger L (devMode flags);
     config \<leftarrow> GetConfig L;
     (case config of
        Inl _ \<Rightarrow> State_Monad.return 1
      | Inr config \<Rightarrow> do {
          mgr \<leftarrow> NewManager L config
            (buildManagerOptions scheme (metricsAddr flags) (watchNamespace flags));
          (case mgr of
             Inl _ \<Rightarrow> State_Monad.return 1
           | Inr mgr \<Rightarrow> do {
               ready \<leftarrow> SetupWithManager L mgr;
               (case ready of
                  Inl _ \<Rightarrow> State_Monad.return 1
                | Inr _ \<Rightarrow> do {
                    stopped \<leftarrow> Start L mgr;
                    State_Monad.return (case stopped of Inl _ \<Rightarrow> 1 | Inr _ \<Rightarrow> 0)
                  })
             })
        })
   }"

subsection \<open>The command line\<close>

text \<open>The flags of \<open>main\<close>, and those the imported packages have put on the same flag set.\<close>

definition operator_flag_set :: "flag_set \<Rightarrow> flag_set" where
  "operator_flag_set imported =
    [(''metrics-bind-address'', StringVar '':8080''), (''namespace'', StringVar []), (''dev'', BoolVar False)] @
    imported"

definition flag_operator :: "flag_set \<Rightarrow> operator_flags" where
  "flag_operator fs =
    \<lparr>metricsAddr = string_flag fs ''metrics-bind-address'', watchNamespace = string_flag fs ''namespace'',
     devMode = bool_flag fs ''dev''\<rparr>"

definition operator_command ::
  "('w, 's, 'cfg, 'mgr) ManagerLib \<Rightarrow> 's \<Rightarrow> flag_set \<Rightarrow> string list \<Rightarrow> ('w, int) state" where
  "operator_command L scheme imported args =
    (case Parse (operator_flag_set imported) args of
       Inl err \<Rightarrow> State_Monad.return (flag_exit err)
     | Inr (fs, _) \<Rightarrow> do {
         code \<leftarrow> operator_main L scheme (flag_operator fs);
         State_Monad.return (int code)
       })"

text \<open>The operator's own chart passes \<open>--namespace=\<close> with the namespace to watch, which may be empty.\<close>

lemma namespace_argument:
  obtains fs where "Parse (operator_flag_set imported) [''--namespace='' @ ns] = Inr (fs, [])"
    and "flag_operator fs = \<lparr>metricsAddr = '':8080'', watchNamespace = ns, devMode = False\<rparr>"
proof -
  have name: "flag_name ''namespace''" by (simp add: flag_name_def)
  have args: "''--namespace='' @ ns = ''--'' @ ''namespace'' @ CHR ''='' # ns" by simp
  have nil: "Parse fs [] = Inr (fs, [])" for fs by (subst Parse.simps) simp
  have "Parse (operator_flag_set imported) [''--namespace='' @ ns] =
      Inr (AList.update ''namespace'' (StringVar ns) (operator_flag_set imported), [])"
    unfolding operator_flag_set_def args
    by (simp add: Parse_string_eq [OF name] nil del: append.simps(2) append_Cons)
  then show thesis
    by (rule that) (simp add: flag_operator_def operator_flag_set_def string_flag_def bool_flag_def update_conv')
qed

lemma chart_arguments_scope:
  "operator_command L scheme imported [''--namespace='' @ ns] = do {
     code \<leftarrow> operator_main L scheme \<lparr>metricsAddr = '':8080'', watchNamespace = ns, devMode = False\<rparr>;
     State_Monad.return (int code)
   }"
  by (rule namespace_argument [of imported ns]) (simp add: operator_command_def del: append.simps)

text \<open>The options of the manager, as they follow from the arguments.\<close>

definition manager_options :: "flag_set \<Rightarrow> 's \<Rightarrow> string list \<Rightarrow> 's ManagerOptions option" where
  "manager_options imported scheme args = (case Parse (operator_flag_set imported) args of
     Inl _ \<Rightarrow> None
   | Inr (fs, _) \<Rightarrow> (let flags = flag_operator fs in
       Some (buildManagerOptions scheme (metricsAddr flags) (watchNamespace flags))))"

lemma namespace_options:
  "manager_options imported scheme [''--namespace='' @ ns] = Some (buildManagerOptions scheme '':8080'' ns)"
  by (rule namespace_argument [of imported ns]) (simp add: manager_options_def Let_def del: append.simps)

lemma manager_is_namespace_scoped:
  "moDefaultNamespaces (buildManagerOptions scheme addr namespace) =
    (if namespace = [] then [] else [namespace])"
  by (simp add: buildManagerOptions_def Let_def)

lemma operator_main_exit_code: "pred_state (\<lambda>code. code = 0 \<or> code = 1) (operator_main L scheme flags)"
  unfolding operator_main_def by (intro outcome_intros) (simp_all split: sum.split)

lemma no_manager_no_controller:
  assumes "run_state (SetLogger L (devMode flags)) w = ((), w1)" and "run_state (GetConfig L) w1 = (Inr c, w2)"
    and "run_state (NewManager L c
      (buildManagerOptions scheme (metricsAddr flags) (watchNamespace flags))) w2 = (Inl err, w3)"
  shows "run_state (operator_main L scheme flags) w = (1, w3)"
  using assms by (simp add: operator_main_def)

end
