(* ===== verification/Operator_Chart.thy ===== *)
theory Operator_Chart
  imports Chart_Samples Operator_Main
begin

text \<open>
  \<open>charts/workload-operator\<close>: the chart that installs the operator, as functions from its values to the
  documents of its templates; what its Role grants; and the operator with every call checked against
  these grants.
\<close>

subsection \<open>Values and templates\<close>

text \<open>\<open>values.yaml\<close> and the \<open>appVersion\<close> of \<open>Chart.yaml\<close>\<close>

definition operator_defaults :: go_values where
  "operator_defaults =
    [(''namespace'', VStr ''workload-system''),
     (''image'', VMap [(''repository'', VStr ''ghcr.io/ops-dev/workload-operator''), (''tag'', VStr []),
       (''digest'', VStr []), (''pullPolicy'', VStr ''IfNotPresent'')]),
     (''imagePullSecrets'', VList []),
     (''serviceAccount'', VMap [(''name'', VStr ''workload-operator'')]),
     (''watchNamespace'', VStr []),
     (''serviceMonitor'', VMap [(''enabled'', VBool False), (''interval'', VStr ''30s'')])]"

definition AppVersion :: string where "AppVersion = ''0.2.0''"

text \<open>A scalar as a template prints it; the values printed here are scalars.\<close>

fun printed :: "any \<Rightarrow> string" where
  "printed (VStr s) = s"
| "printed (VInt i) = Sprint_d i"
| "printed (VBool b) = (if b then ''true'' else ''false'')"
| "printed (VFloat f) = f"
| "printed _ = []"

definition targetNamespace :: "any \<Rightarrow> any" where
  "targetNamespace vals =
    (if go_true (field ''watchNamespace'' vals) then field ''watchNamespace'' vals else field ''namespace'' vals)"

definition sa_name :: "(string \<Rightarrow> any) \<Rightarrow> any \<Rightarrow> any" where
  "sa_name yaml vals = plain yaml (field ''name'' (field ''serviceAccount'' vals))"

definition operator_labels :: any where
  "operator_labels = VMap [(''app.kubernetes.io/name'', VStr ''workload-operator'')]"

definition operator_document :: "string \<Rightarrow> string \<Rightarrow> any \<Rightarrow> any \<Rightarrow> go_values \<Rightarrow> go_values \<Rightarrow> go_values" where
  "operator_document version kind name namespace labels rest =
    [(''apiVersion'', VStr version), (''kind'', VStr kind),
     (''metadata'', VMap ([(''name'', name), (''namespace'', namespace)] @ labels))] @ rest"

definition operator_image :: "any \<Rightarrow> any" where
  "operator_image vals = (let image = field ''image'' vals in
    VStr (printed (field ''repository'' image) @
      (if go_true (field ''digest'' image) then ''@'' @ printed (field ''digest'' image)
       else '':'' @ printed (or_default (VStr AppVersion) (field ''tag'' image)))))"

text \<open>\<open>deployment.yaml\<close>: the argument is written without quotes.\<close>

definition operator_deployment :: "(string \<Rightarrow> any) \<Rightarrow> any \<Rightarrow> go_values" where
  "operator_deployment yaml vals =
    operator_document ''apps/v1'' ''Deployment'' (sa_name yaml vals) (plain yaml (field ''namespace'' vals))
      [(''labels'', operator_labels)]
      [(''spec'', VMap
        [(''replicas'', VInt 1), (''selector'', VMap [(''matchLabels'', operator_labels)]),
         (''template'', VMap [(''metadata'', VMap [(''labels'', operator_labels)]),
           (''spec'', VMap
             [(''serviceAccountName'', sa_name yaml vals),
              (''securityContext'', VMap [(''runAsNonRoot'', VBool True),
                (''seccompProfile'', VMap [(''type'', VStr ''RuntimeDefault'')])]),
              (''containers'', VList [VMap
                [(''name'', VStr ''manager''), (''image'', operator_image vals),
                 (''imagePullPolicy'', plain yaml
                   (or_default (VStr ''IfNotPresent'') (field ''pullPolicy'' (field ''image'' vals)))),
                 (''args'', VList [yaml (''--namespace='' @ printed (field ''watchNamespace'' vals))]),
                 (''ports'', VList [VMap [(''containerPort'', VInt 8080), (''name'', VStr ''metrics'')]]),
                 (''securityContext'', VMap [(''allowPrivilegeEscalation'', VBool False),
                   (''readOnlyRootFilesystem'', VBool True),
                   (''capabilities'', VMap [(''drop'', VList [VStr ''ALL''])])])]])])])])]"

text \<open>\<open>rbac.yaml\<close>: two documents, in the target namespace.\<close>

definition policy_rule :: "string list \<Rightarrow> string list \<Rightarrow> string list \<Rightarrow> any" where
  "policy_rule groups resources verbs =
    VMap [(''apiGroups'', VList (map VStr groups)), (''resources'', VList (map VStr resources)),
      (''verbs'', VList (map VStr verbs))]"

definition all_verbs :: "string list" where
  "all_verbs = [''get'', ''list'', ''watch'', ''create'', ''update'', ''patch'', ''delete'']"

definition role_rules :: "any list" where
  "role_rules =
    [policy_rule [''workload.ops.dev''] [''workloads'', ''workloads/status''] all_verbs,
     policy_rule [''apps''] [''deployments''] all_verbs,
     policy_rule [''''] [''services''] all_verbs,
     policy_rule [''autoscaling''] [''horizontalpodautoscalers''] all_verbs,
     policy_rule [''policy''] [''poddisruptionbudgets''] all_verbs,
     policy_rule [''networking.k8s.io''] [''networkpolicies'', ''ingresses''] all_verbs]"

definition operator_role :: "(string \<Rightarrow> any) \<Rightarrow> any \<Rightarrow> go_values" where
  "operator_role yaml vals =
    operator_document ''rbac.authorization.k8s.io/v1'' ''Role'' (sa_name yaml vals)
      (plain yaml (targetNamespace vals)) [] [(''rules'', VList role_rules)]"

definition operator_role_binding :: "(string \<Rightarrow> any) \<Rightarrow> any \<Rightarrow> go_values" where
  "operator_role_binding yaml vals =
    operator_document ''rbac.authorization.k8s.io/v1'' ''RoleBinding'' (sa_name yaml vals)
      (plain yaml (targetNamespace vals)) []
      [(''roleRef'', VMap [(''apiGroup'', VStr ''rbac.authorization.k8s.io''), (''kind'', VStr ''Role''),
         (''name'', sa_name yaml vals)]),
       (''subjects'', VList [VMap [(''kind'', VStr ''ServiceAccount''), (''name'', sa_name yaml vals),
         (''namespace'', plain yaml (field ''namespace'' vals))]])]"

text \<open>\<open>service.yaml\<close>, \<open>serviceaccount.yaml\<close> and \<open>servicemonitor.yaml\<close>\<close>

definition operator_service :: "(string \<Rightarrow> any) \<Rightarrow> any \<Rightarrow> go_values" where
  "operator_service yaml vals =
    operator_document ''v1'' ''Service'' (sa_name yaml vals) (plain yaml (field ''namespace'' vals))
      [(''labels'', operator_labels)]
      [(''spec'', VMap [(''selector'', operator_labels),
         (''ports'', VList [VMap [(''name'', VStr ''metrics''), (''port'', VInt 8080),
            (''targetPort'', VStr ''metrics''), (''protocol'', VStr ''TCP'')]])])]"

definition operator_service_account :: "(string \<Rightarrow> any) \<Rightarrow> any \<Rightarrow> go_values" where
  "operator_service_account yaml vals =
    operator_document ''v1'' ''ServiceAccount'' (sa_name yaml vals) (plain yaml (field ''namespace'' vals)) []
      (if go_true (field ''imagePullSecrets'' vals) then [(''imagePullSecrets'', field ''imagePullSecrets'' vals)]
       else [])"

definition service_monitors :: "(string \<Rightarrow> any) \<Rightarrow> any \<Rightarrow> go_values list" where
  "service_monitors yaml vals =
    (if go_true (field ''enabled'' (field ''serviceMonitor'' vals))
     then [operator_document ''monitoring.coreos.com/v1'' ''ServiceMonitor'' (sa_name yaml vals)
       (plain yaml (field ''namespace'' vals)) [(''labels'', operator_labels)]
       [(''spec'', VMap
          [(''namespaceSelector'', VMap [(''matchNames'', VList [plain yaml (field ''namespace'' vals)])]),
           (''selector'', VMap [(''matchLabels'', operator_labels)]),
           (''endpoints'', VList [VMap [(''port'', VStr ''metrics''), (''scheme'', VStr ''http''),
              (''interval'', plain yaml (field ''interval'' (field ''serviceMonitor'' vals)))]])])]]
     else [])"

definition operator_documents :: "(string \<Rightarrow> any) \<Rightarrow> any \<Rightarrow> go_values list" where
  "operator_documents yaml vals =
    [operator_deployment yaml vals, operator_role yaml vals, operator_role_binding yaml vals,
     operator_service yaml vals, operator_service_account yaml vals] @ service_monitors yaml vals"

subsection \<open>What a Role grants\<close>

text \<open>
  Access control as Kubernetes documents it: a request in a namespace is granted by a RoleBinding of that
  namespace that names the service account and a Role of that namespace with a rule for it.  A request
  across all namespaces has no namespace, and no Role can grant it.
\<close>

record access_request =
  accVerb :: string
  accGroup :: string
  accResource :: string
  accNamespace :: string

definition lists :: "any \<Rightarrow> string \<Rightarrow> bool" where
  "lists xs s \<longleftrightarrow> (case xs of VList ys \<Rightarrow> VStr s \<in> set ys \<or> VStr ''*'' \<in> set ys | _ \<Rightarrow> False)"

definition rule_allows :: "access_request \<Rightarrow> any \<Rightarrow> bool" where
  "rule_allows req rule \<longleftrightarrow> lists (field ''apiGroups'' rule) (accGroup req) \<and>
     lists (field ''resources'' rule) (accResource req) \<and> lists (field ''verbs'' rule) (accVerb req)"

definition rules_of :: "go_values \<Rightarrow> any list" where
  "rules_of doc = (case field ''rules'' (VMap doc) of VList rs \<Rightarrow> rs | _ \<Rightarrow> [])"

definition is_subject :: "string \<times> string \<Rightarrow> any \<Rightarrow> bool" where
  "is_subject account x \<longleftrightarrow> field ''kind'' x = VStr ''ServiceAccount'' \<and>
     field ''namespace'' x = VStr (fst account) \<and> field ''name'' x = VStr (snd account)"

definition binds :: "string \<times> string \<Rightarrow> string \<Rightarrow> go_values \<Rightarrow> bool" where
  "binds account ns doc \<longleftrightarrow> doc_kind doc = (VStr ''rbac.authorization.k8s.io/v1'', VStr ''RoleBinding'') \<and>
     at [''metadata'', ''namespace''] doc = VStr ns \<and> at [''roleRef'', ''kind''] doc = VStr ''Role'' \<and>
     (case field ''subjects'' (VMap doc) of VList xs \<Rightarrow> list_ex (is_subject account) xs | _ \<Rightarrow> False)"

definition granted :: "go_values list \<Rightarrow> string \<times> string \<Rightarrow> access_request \<Rightarrow> bool" where
  "granted docs account req \<longleftrightarrow> accNamespace req \<noteq> [] \<and>
    list_ex (\<lambda>b. binds account (accNamespace req) b \<and>
      list_ex (\<lambda>r. doc_kind r = (VStr ''rbac.authorization.k8s.io/v1'', VStr ''Role'') \<and>
        at [''metadata'', ''namespace''] r = VStr (accNamespace req) \<and>
        at [''metadata'', ''name''] r = at [''roleRef'', ''name''] b \<and> list_ex (rule_allows req) (rules_of r)) docs) docs"

text \<open>What the rules of the chart allow, as triples.\<close>

definition operator_resources :: "(string \<times> string) list" where
  "operator_resources =
    [(''workload.ops.dev'', ''workloads''), (''workload.ops.dev'', ''workloads/status''), (''apps'', ''deployments''),
     ([], ''services''), (''autoscaling'', ''horizontalpodautoscalers''), (''policy'', ''poddisruptionbudgets''),
     (''networking.k8s.io'', ''networkpolicies''), (''networking.k8s.io'', ''ingresses'')]"

lemma lists_strings: "''*'' \<notin> set ss \<Longrightarrow> lists (VList (map VStr ss)) s \<longleftrightarrow> s \<in> set ss"
  by (auto simp: lists_def)

lemma policy_rule_allows:
  assumes "''*'' \<notin> set gs" and "''*'' \<notin> set rs" and "''*'' \<notin> set vs"
  shows "rule_allows req (policy_rule gs rs vs) \<longleftrightarrow>
    accGroup req \<in> set gs \<and> accResource req \<in> set rs \<and> accVerb req \<in> set vs"
  using assms by (simp add: rule_allows_def policy_rule_def lists_strings)

lemma role_rules_allow:
  "list_ex (rule_allows req) role_rules \<longleftrightarrow>
    (accGroup req, accResource req) \<in> set operator_resources \<and> accVerb req \<in> set all_verbs"
proof -
  have verbs: "''*'' \<notin> set all_verbs" by (simp add: all_verbs_def)
  show ?thesis
    by (auto simp: role_rules_def policy_rule_allows verbs operator_resources_def)
qed

text \<open>
  The markers of the controller (\<open>+kubebuilder:rbac\<close>), from which a Role could be generated, where
  \<open>core\<close> is the group without a name: the chart grants all of them, and beyond them only more verbs on
  the status of Workloads.
\<close>

definition rbac_markers :: "(string \<times> string \<times> string list) list" where
  "rbac_markers =
    [(''workload.ops.dev'', ''workloads'', all_verbs),
     (''workload.ops.dev'', ''workloads/status'', [''get'', ''update'', ''patch'']),
     (''apps'', ''deployments'', all_verbs), ([], ''services'', all_verbs),
     (''autoscaling'', ''horizontalpodautoscalers'', all_verbs), (''policy'', ''poddisruptionbudgets'', all_verbs),
     (''networking.k8s.io'', ''networkpolicies'', all_verbs), (''networking.k8s.io'', ''ingresses'', all_verbs)]"

lemma role_is_the_markers:
  assumes "accResource req \<noteq> ''workloads/status''"
  shows "list_ex (rule_allows req) role_rules \<longleftrightarrow>
    list_ex (\<lambda>(g, r, vs). accGroup req = g \<and> accResource req = r \<and> accVerb req \<in> set vs) rbac_markers"
  using assms by (auto simp: role_rules_allow rbac_markers_def operator_resources_def)

subsection \<open>An installation\<close>

text \<open>
  The texts written without quotes read as strings.  The account is the namespace the operator runs in and
  the name of its service account; \<open>watched\<close> is the namespace it is to manage, or empty.
\<close>

definition installs :: "(string \<Rightarrow> any) \<Rightarrow> go_values \<Rightarrow> string \<times> string \<Rightarrow> string \<Rightarrow> bool" where
  "installs yaml m account watched \<longleftrightarrow> field ''namespace'' (VMap m) = VStr (fst account) \<and>
     field ''name'' (field ''serviceAccount'' (VMap m)) = VStr (snd account) \<and>
     field ''watchNamespace'' (VMap m) = VStr watched \<and>
     list_all (\<lambda>s. s = [] \<or> yaml s = VStr s) [fst account, snd account, watched, ''--namespace='' @ watched]"

lemma operator_kinds:
  "doc_kind (operator_deployment yaml vals) = (VStr ''apps/v1'', VStr ''Deployment'')"
  "doc_kind (operator_role yaml vals) = (VStr ''rbac.authorization.k8s.io/v1'', VStr ''Role'')"
  "doc_kind (operator_role_binding yaml vals) = (VStr ''rbac.authorization.k8s.io/v1'', VStr ''RoleBinding'')"
  "doc_kind (operator_service yaml vals) = (VStr ''v1'', VStr ''Service'')"
  "doc_kind (operator_service_account yaml vals) = (VStr ''v1'', VStr ''ServiceAccount'')"
  "doc_kind (operator_document version kind n ns ls rest) = (VStr version, VStr kind)"
  by (simp_all add: operator_deployment_def operator_role_def operator_role_binding_def operator_service_def
      operator_service_account_def operator_document_def doc_kind_def)

lemma operator_documents_granted:
  assumes "installs yaml m account watched" and "fst account \<noteq> []" and "snd account \<noteq> []"
  shows "granted (operator_documents yaml (VMap m)) account req \<longleftrightarrow>
    accNamespace req = (if watched = [] then fst account else watched) \<and>
    (accGroup req, accResource req) \<in> set operator_resources \<and> accVerb req \<in> set all_verbs"
proof -
  let ?ns = "if watched = [] then fst account else watched"
  from assms have vals: "sa_name yaml (VMap m) = VStr (snd account)"
    "plain yaml (field ''namespace'' (VMap m)) = VStr (fst account)"
    "plain yaml (targetNamespace (VMap m)) = VStr ?ns"
    by (auto simp: installs_def sa_name_def targetNamespace_def)
  let ?r = "operator_role yaml (VMap m)" and ?b = "operator_role_binding yaml (VMap m)"
  let ?docs = "operator_documents yaml (VMap m)"
  have kind: "doc_kind d = (VStr ''rbac.authorization.k8s.io/v1'', VStr ''RoleBinding'') \<Longrightarrow> d = ?b"
    "doc_kind d = (VStr ''rbac.authorization.k8s.io/v1'', VStr ''Role'') \<Longrightarrow> d = ?r" if "d \<in> set ?docs" for d
    using that by (auto simp: operator_documents_def operator_kinds service_monitors_def split: if_splits)
  have kinds: "doc_kind d = (VStr ''rbac.authorization.k8s.io/v1'', VStr ''RoleBinding'') \<longleftrightarrow> d = ?b"
    "doc_kind d = (VStr ''rbac.authorization.k8s.io/v1'', VStr ''Role'') \<longleftrightarrow> d = ?r" if "d \<in> set ?docs" for d
    using kind [OF that] operator_kinds(2,3) by blast+
  have docs: "?b \<in> set ?docs" "?r \<in> set ?docs" by (simp_all add: operator_documents_def)
  have role: "rules_of ?r = role_rules" "at [''metadata'', ''namespace''] ?r = VStr ?ns"
    "at [''metadata'', ''name''] ?r = VStr (snd account)"
    by (simp_all add: rules_of_def operator_role_def operator_document_def at_def vals)
  have "at [''metadata'', ''namespace''] ?b = VStr ?ns" "at [''roleRef'', ''kind''] ?b = VStr ''Role''"
    "field ''subjects'' (VMap ?b) = VList [VMap [(''kind'', VStr ''ServiceAccount''), (''name'', VStr (snd account)),
       (''namespace'', VStr (fst account))]]"
    and ref: "at [''roleRef'', ''name''] ?b = VStr (snd account)"
    by (simp_all add: operator_role_binding_def operator_document_def at_def vals)
  then have binding: "binds account ns ?b \<longleftrightarrow> ns = ?ns" for ns
    by (auto simp: binds_def operator_kinds(3) is_subject_def)
  have "granted ?docs account req \<longleftrightarrow> accNamespace req \<noteq> [] \<and> binds account (accNamespace req) ?b \<and>
      at [''metadata'', ''namespace''] ?r = VStr (accNamespace req) \<and>
      at [''metadata'', ''name''] ?r = at [''roleRef'', ''name''] ?b \<and> list_ex (rule_allows req) (rules_of ?r)"
    unfolding granted_def list_ex_iff using kinds docs by (auto simp: binds_def)
  then show ?thesis using assms(2) by (auto simp: role ref binding role_rules_allow)
qed

subsection \<open>The operator under access control\<close>

text \<open>
  The arguments of the container, and the requests behind the calls of a reconcile.  The client of the
  manager reads through its cache, which lists and watches a kind in every namespace of the cache, or
  across all of them; writing goes to the object's namespace.
\<close>

definition operator_args :: "go_values \<Rightarrow> string list" where
  "operator_args deployment = (case at [''spec'', ''template'', ''spec'', ''containers''] deployment of
     VList [c] \<Rightarrow> (case field ''args'' c of VList xs \<Rightarrow> concat (map text_of xs) | _ \<Rightarrow> [])
   | _ \<Rightarrow> [])"

fun object_resource :: "'k ClientObject \<Rightarrow> (string \<times> string) option" where
  "object_resource (Service _ _ _) = Some ([], ''services'')"
| "object_resource (Deployment _ _ _) = Some (''apps'', ''deployments'')"
| "object_resource (HorizontalPodAutoscaler _ _ _) = Some (''autoscaling'', ''horizontalpodautoscalers'')"
| "object_resource (PodDisruptionBudget _ _ _) = Some (''policy'', ''poddisruptionbudgets'')"
| "object_resource (NetworkPolicy _ _) = Some (''networking.k8s.io'', ''networkpolicies'')"
| "object_resource (Ingress _ _ _) = Some (''networking.k8s.io'', ''ingresses'')"
| "object_resource (OtherObject _ _ _) = None"

definition access_to :: "string \<times> string \<Rightarrow> string \<Rightarrow> string list \<Rightarrow> access_request list" where
  "access_to gr ns verbs = map (\<lambda>v. \<lparr>accVerb = v, accGroup = fst gr, accResource = snd gr, accNamespace = ns\<rparr>) verbs"

definition cache_requests :: "'s ManagerOptions \<Rightarrow> string \<times> string \<Rightarrow> access_request list" where
  "cache_requests opts gr = concat (map (\<lambda>ns. access_to gr ns [''list'', ''watch''])
     (if moDefaultNamespaces opts = [] then [[]] else moDefaultNamespaces opts))"

text \<open>The reconciler whose calls fail unless every request behind them is granted.\<close>

definition guarded ::
  "(access_request \<Rightarrow> bool) \<Rightarrow> string \<Rightarrow> 's ManagerOptions \<Rightarrow> ('w, 'k) WorkloadReconciler \<Rightarrow> ('w, 'k) WorkloadReconciler"
where
  "guarded can forbidden opts r = r\<lparr>
     GetWorkload := (\<lambda>req. if list_all can (cache_requests opts (''workload.ops.dev'', ''workloads''))
       then GetWorkload r req else State_Monad.return (Inl (OtherError forbidden))),
     GetDeployment := (\<lambda>req. if list_all can (cache_requests opts (''apps'', ''deployments''))
       then GetDeployment r req else State_Monad.return (Inl (OtherError forbidden))),
     CreateOrUpdate := (\<lambda>d f. case object_resource d of
         None \<Rightarrow> State_Monad.return (Inl forbidden)
       | Some gr \<Rightarrow>
           if list_all can (cache_requests opts gr @ access_to gr (metaNamespace (object_meta d)) [''create'', ''update''])
           then CreateOrUpdate r d f else State_Monad.return (Inl forbidden)),
     PatchStatus := (\<lambda>base wl.
       if list_all can (access_to (''workload.ops.dev'', ''workloads/status'') (metaNamespace wl) [''patch''])
       then PatchStatus r base wl else State_Monad.return (Inl forbidden))\<rparr>"

text \<open>Everything the Role of the chart grants, in one namespace.\<close>

definition grants_in :: "string \<Rightarrow> (access_request \<Rightarrow> bool) \<Rightarrow> bool" where
  "grants_in ns can \<longleftrightarrow> (\<forall>req. accNamespace req = ns \<and> (accGroup req, accResource req) \<in> set operator_resources \<and>
     accVerb req \<in> set all_verbs \<longrightarrow> can req)"

lemma granted_access:
  assumes "grants_in ns can" and "gr \<in> set operator_resources" and "set verbs \<subseteq> set all_verbs"
  shows "list_all can (access_to gr ns verbs)"
  using assms by (auto simp: access_to_def list_all_iff grants_in_def)

lemma granted_cache:
  assumes "grants_in ns can" and "moDefaultNamespaces opts = [ns]" and "gr \<in> set operator_resources"
  shows "list_all can (cache_requests opts gr)"
  using granted_access [OF assms(1,3), of "[''list'', ''watch'']"] assms(2)
  by (simp add: cache_requests_def all_verbs_def)

lemma object_resource_granted: "supported d \<Longrightarrow> \<exists>gr \<in> set operator_resources. object_resource d = Some gr"
  by (cases d) (simp_all add: operator_resources_def)

lemma guarded_calls:
  assumes "grants_in ns can" and "moDefaultNamespaces opts = [ns]"
  shows "GetWorkload (guarded can forbidden opts r) = GetWorkload r"
    and "GetDeployment (guarded can forbidden opts r) = GetDeployment r"
    and "SetStatusCondition (guarded can forbidden opts r) = SetStatusCondition r"
    and "metaNamespace wl = ns \<Longrightarrow> PatchStatus (guarded can forbidden opts r) base wl = PatchStatus r base wl"
    and "supported d \<Longrightarrow> metaNamespace (object_meta d) = ns \<Longrightarrow>
      setOwnerAndApply (guarded can forbidden opts r) wl d = setOwnerAndApply r wl d"
proof -
  have reads: "list_all can (cache_requests opts (''workload.ops.dev'', ''workloads''))"
    "list_all can (cache_requests opts (''apps'', ''deployments''))"
    by (rule granted_cache [OF assms], simp add: operator_resources_def)+
  then show "GetWorkload (guarded can forbidden opts r) = GetWorkload r"
    "GetDeployment (guarded can forbidden opts r) = GetDeployment r"
    "SetStatusCondition (guarded can forbidden opts r) = SetStatusCondition r"
    by (simp_all add: guarded_def)
  have "list_all can (access_to (''workload.ops.dev'', ''workloads/status'') ns [''patch''])"
    by (rule granted_access [OF assms(1)]) (simp_all add: operator_resources_def all_verbs_def)
  then show "PatchStatus (guarded can forbidden opts r) base wl = PatchStatus r base wl" if "metaNamespace wl = ns"
    using that by (simp add: guarded_def)
  show "setOwnerAndApply (guarded can forbidden opts r) wl d = setOwnerAndApply r wl d"
    if d: "supported d" "metaNamespace (object_meta d) = ns"
  proof -
    obtain gr where gr: "gr \<in> set operator_resources" "object_resource d = Some gr"
      using object_resource_granted [OF d(1)] by blast
    have "list_all can (access_to gr ns [''create'', ''update''])"
      by (rule granted_access [OF assms(1) gr(1)]) (simp add: all_verbs_def)
    with granted_cache [OF assms gr(1)]
    have ok: "list_all can (cache_requests opts gr @ access_to gr ns [''create'', ''update''])" by simp
    have "object_resource (map_meta f d) = object_resource d" for f by (cases d) simp_all
    moreover have "mutate (guarded can forbidden opts r) wl d = mutate r wl d"
      by (rule ext) (simp add: mutate_def guarded_def)
    ultimately show ?thesis
      using gr(2) d(2) ok by (simp add: setOwnerAndApply_def guarded_def)
  qed
qed

lemma guarded_apply_all:
  assumes "grants_in ns can" and "moDefaultNamespaces opts = [ns]"
    and "list_all (\<lambda>d. supported d \<and> metaNamespace (object_meta d) = ns) objs"
  shows "apply_all (guarded can forbidden opts r) wl objs = apply_all r wl objs"
  using assms(3) by (induction objs) (simp_all add: guarded_calls(5) [OF assms(1,2)])

lemma guarded_status:
  assumes "grants_in ns can" and "moDefaultNamespaces opts = [ns]" and "metaNamespace wl = ns"
  shows "report_failure (guarded can forbidden opts r) base wl reason msg err = report_failure r base wl reason msg err"
    and "finish (guarded can forbidden opts r) req base wl = finish r req base wl"
proof -
  note calls = guarded_calls(2-4) [OF assms(1,2)]
  have set: "set_condition (guarded can forbidden opts r) wl c = set_condition r wl c" for wl c
    by (simp add: set_condition_def calls)
  show "report_failure (guarded can forbidden opts r) base wl reason msg err = report_failure r base wl reason msg err"
    unfolding report_failure_def set by (simp add: set_condition_def patchStatus_def calls assms(3))
  show "finish (guarded can forbidden opts r) req base wl = finish r req base wl"
    unfolding finish_def set_rollout_condition_def set
    by (simp add: set_condition_def patchStatus_def calls assms(3) Let_def split: sum.split)
qed

lemma guarded_reconcile:
  assumes "grants_in ns can" and "moDefaultNamespaces opts = [ns]"
    and "run_state (GetWorkload r req) w = (Inr wl, w1)" and "metaNamespace wl = ns"
    and "Chart E (metaName wl) (metaNamespace wl) (Spec wl) = Some (Inr objs)"
    and "list_all (\<lambda>d. supported d \<and> metaNamespace (object_meta d) = ns) objs"
  shows "run_state (Reconcile (guarded can forbidden opts r) E req) w = run_state (Reconcile r E req) w"
  using assms(3,5)
  by (simp add: Reconcile_def guarded_calls(1) [OF assms(1,2)] guarded_apply_all [OF assms(1,2,6)]
      guarded_status [OF assms(1,2,4)] Let_def)

lemma operator_arguments:
  assumes "installs yaml m account watched"
  shows "operator_args (operator_deployment yaml (VMap m)) = [''--namespace='' @ watched]"
proof -
  have "yaml (''--namespace='' @ watched) = VStr (''--namespace='' @ watched)"
    "field ''watchNamespace'' (VMap m) = VStr watched" using assms by (simp_all add: installs_def)
  then show ?thesis
    by (simp add: operator_args_def operator_deployment_def operator_document_def at_def)
qed

lemma operator_options:
  assumes "installs yaml m account watched"
  shows "manager_options imported scheme (operator_args (operator_deployment yaml (VMap m))) =
    Some (buildManagerOptions scheme '':8080'' watched)"
  unfolding operator_arguments [OF assms] by (rule namespace_options)

subsection \<open>Properties of an installation\<close>

text \<open>Property C5: the Role of the chart is enough for the operator it installs, and gives it nothing outside
  of the namespace it manages.  Let the chart be installed to watch a namespace, wherever the operator
  itself runs.  Then the arguments of its container make the manager cache exactly that namespace; every
  reconcile there of a Workload that renders comes out as if no call were checked at all, although each
  is refused unless listing and watching what it reads, creating and updating what it writes, and
  patching the status are all granted; and nothing is granted in any other namespace or across all of
  them.\<close>
theorem role_suffices:
  assumes "installs yaml m (home, account) ns" and "home \<noteq> []" and "account \<noteq> []" and "ns \<noteq> []"
    and "run_state (GetWorkload r req) w = (Inr wl, w1)" and "metaNamespace wl = ns"
    and "valuesFromSpec E (metaName wl) (metaNamespace wl) (Spec wl) = Inr v"
    and "renders E yaml re v \<lparr>relName = releaseName, relNamespace = metaNamespace wl\<rparr>"
    and "metaName wl \<noteq> []" and "chart_accepts (Spec wl)"
    and "list_all (\<lambda>s. plain_scalar s \<and> yaml s = VStr s)
      (spec_unquoted (metaName wl) (metaNamespace wl) (Spec wl))"
  shows "let can = granted (operator_documents yaml (VMap m)) (home, account);
      args = operator_args (operator_deployment yaml (VMap m)) in
    \<exists>opts. manager_options imported scheme args = Some opts \<and> moDefaultNamespaces opts = [ns] \<and>
      run_state (Reconcile (guarded can forbidden opts r) E req) w = run_state (Reconcile r E req) w \<and>
      (\<forall>q. can q \<longrightarrow> accNamespace q = ns)"
proof -
  note granted = operator_documents_granted [OF assms(1), simplified, OF assms(2,3)]
  have grants: "grants_in ns (granted (operator_documents yaml (VMap m)) (home, account))"
    using assms(4) by (simp add: grants_in_def granted)
  have opts: "moDefaultNamespaces (buildManagerOptions scheme '':8080'' ns) = [ns]"
    using assms(4) by (simp add: manager_is_namespace_scoped)
  have wl: "metaNamespace wl \<noteq> []" using assms(4,6) by simp
  obtain objs keys where chart: "Chart E (metaName wl) (metaNamespace wl) (Spec wl) = Some (Inr objs)"
    and "list_all2 (chart_object (metaName wl) (metaNamespace wl)) keys objs"
    using chart_renders_objects [OF assms(7-9) wl assms(10,11)] by metis
  with chart_objects_keys have "list_all (\<lambda>x. chart_object (metaName wl) (metaNamespace wl) (object_key x) x) objs"
    by blast
  then have "list_all (\<lambda>d. supported d \<and> metaNamespace (object_meta d) = ns) objs"
    using assms(6) by (simp add: list_all_iff chart_object_def)
  from guarded_reconcile [OF grants opts assms(5,6) chart this] opts show ?thesis
    using assms(4) unfolding operator_options [OF assms(1)] Let_def by (auto simp: granted)
qed

text \<open>Property C13: installed with its own defaults the operator cannot work.  Without a namespace to watch the
  container gets an empty argument, which makes the manager cache the whole cluster, while the Role is put
  into the namespace of the installation: listing Workloads across all namespaces is not granted, so every
  reconcile fails at its first call and changes nothing, even for a Workload of that namespace.  The
  comment in the chart has the watched namespace default to the installation's.\<close>
theorem default_install_is_forbidden:
  assumes "installs yaml m (home, account) []" and "home \<noteq> []" and "account \<noteq> []"
  shows "let can = granted (operator_documents yaml (VMap m)) (home, account);
      args = operator_args (operator_deployment yaml (VMap m)) in
    \<exists>opts. manager_options imported scheme args = Some opts \<and> moDefaultNamespaces opts = [] \<and>
      \<not> can \<lparr>accVerb = ''list'', accGroup = ''workload.ops.dev'', accResource = ''workloads'', accNamespace = []\<rparr> \<and>
      can \<lparr>accVerb = ''list'', accGroup = ''workload.ops.dev'', accResource = ''workloads'', accNamespace = home\<rparr> \<and>
      run_state (Reconcile (guarded can forbidden opts r) E req) w = (Some (no_requeue, Some forbidden), w)"
proof -
  note granted = operator_documents_granted [OF assms(1), simplified, OF assms(2,3)]
  show ?thesis
    using assms(2) unfolding operator_options [OF assms(1)] Let_def
    by (simp add: granted manager_is_namespace_scoped Reconcile_def guarded_def cache_requests_def access_to_def
        operator_resources_def all_verbs_def)
qed

subsection \<open>Installations to try the properties on\<close>

definition watching :: "string \<Rightarrow> go_values" where
  "watching ns = AList.update ''watchNamespace'' (VStr ns) operator_defaults"

lemma sample_installs:
  "installs VStr (watching ns) (''workload-system'', ''workload-operator'') ns"
  "installs VStr operator_defaults (''workload-system'', ''workload-operator'') []"
  by (simp_all add: installs_def watching_def operator_defaults_def update_conv')

theorem role_suffices_witness:
  "let can = granted (operator_documents VStr (VMap (watching ''apps''))) (''workload-system'', ''workload-operator'');
      opts = buildManagerOptions () '':8080'' ''apps''; E = sample_chart VStr (sample_values ''demo'') in
    run_state (Reconcile (guarded can ''forbidden'' opts sample_reconciler) E sample_request) ([], []) =
      run_state (Reconcile sample_reconciler E sample_request) ([], []) \<and>
    \<not> can \<lparr>accVerb = ''get'', accGroup = [], accResource = ''services'', accNamespace = ''kube-system''\<rparr>"
proof -
  have wl: "metaName sample_workload = ''demo''" "metaNamespace sample_workload = ''apps''"
    "Spec sample_workload = sample_spec"
    by (simp_all add: sample_workload_def)
  have opts: "manager_options imported scheme (operator_args (operator_deployment VStr (VMap (watching ''apps'')))) =
      Some (buildManagerOptions scheme '':8080'' ''apps'')" for imported and scheme :: unit
    by (rule operator_options [OF sample_installs(1)])
  show ?thesis
    using role_suffices [OF sample_installs(1) _ _ _ sample_get, unfolded wl, of "''apps''",
        OF _ _ _ _ sample_values_from_spec sample_chart_renders _ sample_accepted sample_unquoted,
        where scheme = "()" and forbidden = "''forbidden''" and req = sample_request and w = "([], [])"]
    by (auto simp: opts Let_def)
qed

theorem default_install_witness:
  "let can = granted (operator_documents VStr (VMap operator_defaults)) (''workload-system'', ''workload-operator'') in
    run_state (Reconcile (guarded can ''forbidden'' (buildManagerOptions () '':8080'' []) sample_reconciler)
      (sample_chart VStr (sample_values ''demo'')) sample_request) ([], []) =
      (Some (no_requeue, Some ''forbidden''), ([], []))"
proof -
  have opts: "manager_options imported scheme (operator_args (operator_deployment VStr (VMap operator_defaults))) =
      Some (buildManagerOptions scheme '':8080'' [])" for imported and scheme :: unit
    by (rule operator_options [OF sample_installs(2)])
  show ?thesis
    using default_install_is_forbidden [OF sample_installs(2), where scheme = "()" and forbidden = "''forbidden''"
        and r = sample_reconciler and req = sample_request and w = "([], [])"
        and E = "sample_chart VStr (sample_values ''demo'')"]
    by (auto simp: opts Let_def)
qed

end
