(* ===== verification/Platform_Module.thy ===== *)
theory Platform_Module
  imports Operator_Chart
begin

text \<open>
  \<open>modules/k8s-platform\<close>, the Terraform module that installs the operator in tier A and nothing in tier B.
\<close>

subsection \<open>The module\<close>

record platform_vars =
  plat_install_tier :: string
  plat_namespace :: string
  plat_operator_chart_path :: string
  plat_operator_image_repository :: string
  plat_operator_image_tag :: string
  plat_create_namespace :: bool
  plat_image_pull_secret_name :: string
  plat_kubeconfig_path :: string
  plat_kube_context :: string
  plat_crd_name :: string
  plat_crd_wait_timeout :: string

text \<open>
  What is planned: the release with its name, namespace, whether it creates the namespace, the chart and the
  \<open>set\<close> blocks; and the command that waits for the CRD, which runs after it.
\<close>

datatype platform_resource =
    OperatorRelease string string bool string "(string \<times> string) list"
  | CRDEstablished string

definition operator_sets :: "platform_vars \<Rightarrow> (string \<times> string) list" where
  "operator_sets v =
    [(''namespace'', plat_namespace v), (''image.repository'', plat_operator_image_repository v),
     (''image.tag'', plat_operator_image_tag v), (''watchNamespace'', plat_namespace v)] @
    (if plat_image_pull_secret_name v \<noteq> [] then [(''imagePullSecrets[0].name'', plat_image_pull_secret_name v)] else [])"

definition crd_wait :: "platform_vars \<Rightarrow> string" where
  "crd_wait v = ''kubectl --kubeconfig='' @ plat_kubeconfig_path v @ '' '' @
     (if plat_kube_context v \<noteq> [] then ''--context='' @ plat_kube_context v else []) @
     '' wait --for=condition=established crd/'' @ plat_crd_name v @ '' --timeout='' @ plat_crd_wait_timeout v"

definition k8s_platform :: "platform_vars \<Rightarrow> platform_resource list option" where
  "k8s_platform v =
    (if plat_install_tier v \<notin> {''A'', ''B''} then None
     else if plat_install_tier v = ''A''
     then Some [OperatorRelease ''workload-operator'' (plat_namespace v) (plat_create_namespace v)
         (plat_operator_chart_path v) (operator_sets v), CRDEstablished (crd_wait v)]
     else Some [])"

subsection \<open>The values of the release\<close>

text \<open>
  \<open>helm_sets strval sets d m\<close>: Helm lays the \<open>set\<close> blocks over the defaults \<open>d\<close>: each path gets its value as
  \<open>strval\<close> reads it (a string, unless it looks like a number, a boolean or null), and what no path
  touches stays.  Of paths into lists only this is said.
\<close>

definition path_head :: "string \<Rightarrow> string" where
  "path_head path = takeWhile (\<lambda>c. c \<noteq> CHR ''.'' \<and> c \<noteq> CHR ''['') path"

definition helm_sets :: "(string \<Rightarrow> any) \<Rightarrow> (string \<times> string) list \<Rightarrow> go_values \<Rightarrow> go_values \<Rightarrow> bool" where
  "helm_sets strval sets d m \<longleftrightarrow>
    list_all (\<lambda>(path, s). CHR ''['' \<in> set path \<or> at (Split path CHR ''.'') m = strval s) sets \<and>
    (\<forall>k. k \<notin> (\<lambda>(path, _). path_head path) ` set sets \<longrightarrow> map_of m k = map_of d k)"

lemma helm_set_at:
  assumes "helm_sets strval sets d m" and "(path, s) \<in> set sets" and "CHR ''['' \<notin> set path"
  shows "at (Split path CHR ''.'') m = strval s"
  using assms by (auto simp: helm_sets_def list_all_iff)

lemma helm_set_untouched:
  "helm_sets strval sets d m \<Longrightarrow> k \<notin> (\<lambda>(path, _). path_head path) ` set sets \<Longrightarrow> map_of m k = map_of d k"
  by (simp add: helm_sets_def)

lemma platform_installs:
  assumes "helm_sets strval (operator_sets v) operator_defaults m" and "strval (plat_namespace v) = VStr (plat_namespace v)"
    and "list_all (\<lambda>s. yaml s = VStr s) [plat_namespace v, ''workload-operator'', ''--namespace='' @ plat_namespace v]"
  shows "installs yaml m (plat_namespace v, ''workload-operator'') (plat_namespace v)"
proof -
  have "(''namespace'', plat_namespace v) \<in> set (operator_sets v)"
    "(''watchNamespace'', plat_namespace v) \<in> set (operator_sets v)" by (simp_all add: operator_sets_def)
  from this [THEN helm_set_at [OF assms(1)]]
  have "at [''namespace''] m = VStr (plat_namespace v)" "at [''watchNamespace''] m = VStr (plat_namespace v)"
    by (simp_all add: assms(2))
  moreover have "(\<lambda>(path, _). path_head path) ` set (operator_sets v) \<subseteq>
      {''namespace'', ''image'', ''watchNamespace'', ''imagePullSecrets''}"
    by (auto simp: operator_sets_def path_head_def)
  then have "map_of m ''serviceAccount'' = map_of operator_defaults ''serviceAccount''"
    by (intro helm_set_untouched [OF assms(1)]) auto
  ultimately show ?thesis
    using assms(3) by (simp add: installs_def at_def field_def operator_defaults_def)
qed

lemma platform_plans:
  "plat_install_tier v = ''A'' \<Longrightarrow> k8s_platform v =
    Some [OperatorRelease ''workload-operator'' (plat_namespace v) (plat_create_namespace v)
      (plat_operator_chart_path v) (operator_sets v), CRDEstablished (crd_wait v)]"
  "plat_install_tier v = ''B'' \<Longrightarrow> k8s_platform v = Some []"
  "plat_install_tier v \<notin> {''A'', ''B''} \<Longrightarrow> k8s_platform v = None"
  by (simp_all add: k8s_platform_def)

end
