(* ===== verification/Delivery.thy ===== *)
theory Delivery
  imports Preflight_Gate Workload_Module Platform_Module
begin

text \<open>
  From the verdict of the preflight to what runs in the cluster: the modules \<open>preflight\<close>, \<open>k8s-platform\<close> and
  \<open>workload\<close> with the install tier passed from the first to the others, and the operator that the
  platform module installs.
\<close>





subsection \<open>A root to try the property on\<close>





end
