(* ===== verification/Network_Policy.thy ===== *)
theory Network_Policy
  imports Chart_Templates "HOL-Library.Word"
begin

text \<open>
  Network policies as Kubernetes documents them: which pods a policy selects, when a pod is isolated, and
  what the union of all policies that select it lets in and out.  The documents are those of the chart
  and of \<open>modules/k8s-security\<close>.  Kubernetes leaves open which address of a pod, if any, a network plugin compares
  with an address block; it is a field of the \<open>cluster\<close>, about which nothing is assumed.
\<close>

unbundle bit_operations_syntax

subsection \<open>IPv4 blocks\<close>

text \<open>\<open>net.ParseCIDR\<close> on IPv4: four octets without leading zeros, a slash and the length of the prefix.\<close>

type_synonym ipv4 = "32 word"

definition parse_octet :: "string \<Rightarrow> ipv4 option" where
  "parse_octet s =
    (if s \<noteq> [] \<and> list_all is_digit s \<and> (length s = 1 \<or> hd s \<noteq> CHR ''0'') \<and> digits_value s \<le> 255
     then Some (of_int (digits_value s)) else None)"

definition ipv4_of :: "ipv4 \<Rightarrow> ipv4 \<Rightarrow> ipv4 \<Rightarrow> ipv4 \<Rightarrow> ipv4" where
  "ipv4_of a b c d = push_bit 24 a OR push_bit 16 b OR push_bit 8 c OR d"

definition ParseIPv4 :: "string \<Rightarrow> ipv4 option" where
  "ParseIPv4 s = (case map parse_octet (Split s CHR ''.'') of
     [Some a, Some b, Some c, Some d] \<Rightarrow> Some (ipv4_of a b c d)
   | _ \<Rightarrow> None)"

definition ParseCIDR :: "string \<Rightarrow> (ipv4 \<times> nat) option" where
  "ParseCIDR s = (case Split s CHR ''/'' of
     [ip, n] \<Rightarrow>
       (if n \<noteq> [] \<and> list_all is_digit n \<and> digits_value n \<le> 32
        then map_option (\<lambda>a. (a, nat (digits_value n))) (ParseIPv4 ip) else None)
   | _ \<Rightarrow> None)"

definition in_block :: "ipv4 \<times> nat \<Rightarrow> ipv4 \<Rightarrow> bool" where
  "in_block b a \<longleftrightarrow> drop_bit (32 - snd b) a = drop_bit (32 - snd b) (fst b)"

definition in_cidr :: "any \<Rightarrow> ipv4 \<Rightarrow> bool" where
  "in_cidr x a = (case x of VStr s \<Rightarrow> (case ParseCIDR s of None \<Rightarrow> False | Some b \<Rightarrow> in_block b a) | _ \<Rightarrow> False)"

text \<open>The metadata endpoint, and the link-local block around it.\<close>

definition metadata_endpoint :: ipv4 where "metadata_endpoint = ipv4_of 169 254 169 254"

definition link_local :: "ipv4 \<Rightarrow> bool" where "link_local a \<longleftrightarrow> drop_bit 16 a = 0xA9FE"

lemma parse_octet_samples: "parse_octet ''0'' = Some 0" "parse_octet ''169'' = Some 169" "parse_octet ''254'' = Some 254"
  by (simp_all add: parse_octet_def is_digit_def digits_value_def)

lemma parse_blocks:
  "ParseCIDR ''0.0.0.0/0'' = Some (0, 0)"
  "ParseCIDR ''169.254.169.254/32'' = Some (metadata_endpoint, 32)"
  "ParseCIDR ''169.254.0.0/16'' = Some (ipv4_of 169 254 0 0, 16)"
  by (simp_all add: ParseCIDR_def ParseIPv4_def parse_octet_samples is_digit_def digits_value_def ipv4_of_def
      metadata_endpoint_def)

lemma in_blocks [simp]:
  "in_cidr (VStr ''0.0.0.0/0'') a"
  "in_cidr (VStr ''169.254.169.254/32'') a \<longleftrightarrow> a = metadata_endpoint"
  "in_cidr (VStr ''169.254.0.0/16'') a \<longleftrightarrow> link_local a"
proof -
  have "drop_bit 32 a = 0" for a :: ipv4
    by (rule bit_word_eqI) (simp add: bit_drop_bit_eq bit_word_iff_drop_bit_and)
  then show "in_cidr (VStr ''0.0.0.0/0'') a"
    by (simp add: in_cidr_def parse_blocks in_block_def)
  show "in_cidr (VStr ''169.254.169.254/32'') a \<longleftrightarrow> a = metadata_endpoint"
    by (simp add: in_cidr_def parse_blocks in_block_def)
  have "drop_bit 16 (ipv4_of 169 254 0 0) = 0xA9FE" by (simp add: ipv4_of_def)
  then show "in_cidr (VStr ''169.254.0.0/16'') a \<longleftrightarrow> link_local a"
    by (simp add: in_cidr_def parse_blocks in_block_def link_local_def)
qed

lemma metadata_link_local [simp]: "link_local metadata_endpoint"
  by (simp add: link_local_def metadata_endpoint_def ipv4_of_def)


subsection \<open>Selectors\<close>

text \<open>
  A pod by its namespace and its labels.  What the policies leave to the cluster are the labels of the
  namespaces, each of which the API server labels with its own name, and the address under which the
  network plugin compares a pod with an \<open>ipBlock\<close>: Kubernetes says that blocks are meant for addresses outside
  of the cluster and leaves it to the plugin whether they match pods, so this is \<open>None\<close> for a pod it
  does not compare.
\<close>

record pod =
  podNamespace :: string
  podLabels :: "string \<rightharpoonup> string"

record cluster =
  nsLabels :: "string \<Rightarrow> string \<rightharpoonup> string"
  blockAddress :: "pod \<Rightarrow> ipv4 option"

definition names_itself :: "cluster \<Rightarrow> bool" where
  "names_itself ns \<longleftrightarrow> (\<forall>n. nsLabels ns n ''kubernetes.io/metadata.name'' = Some n)"

fun elements :: "any \<Rightarrow> any list" where
  "elements (VList xs) = xs"
| "elements _ = []"

text \<open>A label selector: all of \<open>matchLabels\<close>; an empty one selects everything.\<close>

definition label_selected :: "any \<Rightarrow> (string \<rightharpoonup> string) \<Rightarrow> bool" where
  "label_selected sel labels = (case field ''matchLabels'' sel of
     VMap ls \<Rightarrow> list_all (\<lambda>(k, x). case x of VStr s \<Rightarrow> labels k = Some s | _ \<Rightarrow> False) ls
   | _ \<Rightarrow> True)"

definition selected :: "go_values \<Rightarrow> pod \<Rightarrow> bool" where
  "selected policy p \<longleftrightarrow> field ''namespace'' (field ''metadata'' (VMap policy)) = VStr (podNamespace p) \<and>
     label_selected (field ''podSelector'' (field ''spec'' (VMap policy))) (podLabels p)"

subsection \<open>Peers and ports\<close>

text \<open>
  The other end of a connection: a pod, or an address outside of the cluster.  A peer is either a block or
  selectors, and one with only a pod selector means pods of the policy's namespace; a rule without peers
  admits all, and so does one without ports.
\<close>

datatype endpoint = InCluster pod | Outside ipv4

definition block_admits :: "any \<Rightarrow> ipv4 \<Rightarrow> bool" where
  "block_admits b a \<longleftrightarrow>
    in_cidr (field ''cidr'' b) a \<and> \<not> list_ex (\<lambda>x. in_cidr x a) (elements (field ''except'' b))"

definition peer_admits :: "cluster \<Rightarrow> string \<Rightarrow> any \<Rightarrow> endpoint \<Rightarrow> bool" where
  "peer_admits ns home peer e = (let b = field ''ipBlock'' peer in case e of
     InCluster q \<Rightarrow>
       if b \<noteq> VNil then (case blockAddress ns q of None \<Rightarrow> False | Some a \<Rightarrow> block_admits b a)
       else (if field ''namespaceSelector'' peer = VNil then podNamespace q = home
           else label_selected (field ''namespaceSelector'' peer) (nsLabels ns (podNamespace q))) \<and>
         (field ''podSelector'' peer = VNil \<or> label_selected (field ''podSelector'' peer) (podLabels q))
   | Outside a \<Rightarrow> b \<noteq> VNil \<and> block_admits b a)"

definition port_admits :: "any \<Rightarrow> string \<times> int \<Rightarrow> bool" where
  "port_admits x t \<longleftrightarrow>
    (case field ''protocol'' x of VStr proto \<Rightarrow> fst t = proto | _ \<Rightarrow> fst t = ''TCP'') \<and>
    (case field ''port'' x of VInt n \<Rightarrow> snd t = n | VNil \<Rightarrow> True | _ \<Rightarrow> False)"

definition rule_admits ::
  "cluster \<Rightarrow> string \<Rightarrow> string \<Rightarrow> endpoint \<Rightarrow> string \<times> int \<Rightarrow> any \<Rightarrow> bool" where
  "rule_admits ns home peers e t rule \<longleftrightarrow>
    (let ps = elements (field peers rule) in ps = [] \<or> list_ex (\<lambda>p. peer_admits ns home p e) ps) \<and>
    (let ps = elements (field ''ports'' rule) in ps = [] \<or> list_ex (\<lambda>x. port_admits x t) ps)"

subsection \<open>The union of the policies\<close>

text \<open>
  A pod is isolated in a direction by any policy of that type that selects it, and then gets exactly what
  the rules of these policies admit together.
\<close>

definition applies :: "string \<Rightarrow> go_values \<Rightarrow> pod \<Rightarrow> bool" where
  "applies type policy p \<longleftrightarrow> selected policy p \<and>
     VStr type \<in> set (elements (field ''policyTypes'' (field ''spec'' (VMap policy))))"

definition admits ::
  "cluster \<Rightarrow> string \<Rightarrow> string \<Rightarrow> string \<Rightarrow> go_values list \<Rightarrow> pod \<Rightarrow> endpoint \<Rightarrow> string \<times> int \<Rightarrow> bool"
where
  "admits ns type rules peers policies p e t \<longleftrightarrow>
    (let own = filter (\<lambda>d. applies type d p) policies in
     own = [] \<or>
     list_ex (\<lambda>d. list_ex (rule_admits ns (podNamespace p) peers e t)
       (elements (field rules (field ''spec'' (VMap d))))) own)"



text \<open>Policies only ever add to what other policies admit, once a pod is isolated.\<close>

lemma admits_mono:
  assumes "admits ns type rules peers policies p e t" and "list_ex (\<lambda>d. applies type d p) policies"
  shows "admits ns type rules peers (policies @ others) p e t"
  using assms by (auto simp: admits_def Let_def list_ex_iff filter_empty_conv)

lemma admits_append:
  assumes "list_ex (\<lambda>d. applies type d p) ds" and "list_ex (\<lambda>d. applies type d p) ds'"
  shows "admits ns type rules peers (ds @ ds') p e t \<longleftrightarrow>
    admits ns type rules peers ds p e t \<or> admits ns type rules peers ds' p e t"
  using assms by (auto simp: admits_def Let_def list_ex_iff filter_empty_conv)



subsection \<open>The floor of the chart\<close>

text \<open>The pods of a Workload: those with the labels of the pod template, and any others.\<close>

definition workload_pod :: "string \<Rightarrow> string \<Rightarrow> pod \<Rightarrow> bool" where
  "workload_pod name namespace p \<longleftrightarrow> podNamespace p = namespace \<and>
     podLabels p ''app.kubernetes.io/name'' = Some name \<and> podLabels p ''app.kubernetes.io/instance'' = Some name"








text \<open>Namespaces that have only the label of their name, and a plugin that keeps blocks to outside addresses.\<close>

definition plain_namespaces :: cluster where
  "plain_namespaces = \<lparr>nsLabels = \<lambda>n. [''kubernetes.io/metadata.name'' \<mapsto> n], blockAddress = \<lambda>_. None\<rparr>"

lemma plain_names_itself: "names_itself plain_namespaces"
  by (simp add: names_itself_def plain_namespaces_def)

definition demo_pod :: pod where
  "demo_pod = \<lparr>podNamespace = ''apps'', podLabels = \<lambda>_. Some ''demo''\<rparr>"

lemma demo_workload_pod [simp]: "workload_pod ''demo'' ''apps'' demo_pod"
  by (simp add: workload_pod_def demo_pod_def)

lemma demo_pod_namespace [simp]: "podNamespace demo_pod = ''apps''"
  by (simp add: demo_pod_def)


end
