(* ===== verification/Namespace_Security.thy ===== *)
theory Namespace_Security
  imports Network_Policy
begin

text \<open>
  \<open>modules/k8s-security\<close>, the Terraform module that secures the namespace of the Workloads: its labels for
  pod security, and two network policies for all pods of it.  They meet the policies of the chart in
  the cluster, where only the union counts.
\<close>

subsection \<open>The module\<close>
















subsection \<open>What its policies admit on their own\<close>






subsection \<open>Together with the policies of the chart\<close>


subsection \<open>A namespace to try the property on\<close>



end
