(* ===== verification/Operator_Runs.thy ===== *)
theory Operator_Runs
  imports Workload_Controller
begin

text \<open>
  The operator among the other writers of the cluster.  A reconcile is not atomic: between any two of its
  calls to the API server the autoscaler, other controllers or a person may write.  Here \<open>Reconcile\<close> is cut
  at these calls into a step relation, its steps are interleaved with those of the others, and the
  runs of the operator alone are shown to be those of \<open>Reconcile\<close>.
\<close>

subsection \<open>The steps of a reconcile\<close>

text \<open>Where a reconcile stands, with the local variables it still needs.\<close>

datatype 'k phase =
    Idle
  | Applying "'k Workload" "'k ClientObject list"
  | Failing "'k Workload" string go_error go_error
  | Finishing "'k Workload"
  | Patching "'k Workload" "'k Workload" Result "go_error option"
  | Returned Result "go_error option"

inductive operator_step ::
  "('w, 'k) WorkloadReconciler \<Rightarrow> ('ch, 'd, 't, 'k) ChartEnv \<Rightarrow> NamespacedName
   \<Rightarrow> 'k phase \<times> 'w \<Rightarrow> 'k phase \<times> 'w \<Rightarrow> bool" for r E req where
  get_failed: "run_state (GetWorkload r req) w = (Inl err, w') \<Longrightarrow>
    operator_step r E req (Idle, w)
      (Returned no_requeue (if IsNotFound err then None else Some (error_text err)), w')"
| rendered: "run_state (GetWorkload r req) w = (Inr wl, w') \<Longrightarrow>
    Chart E (metaName wl) (metaNamespace wl) (Spec wl) = Some (Inr objs) \<Longrightarrow>
    operator_step r E req (Idle, w) (Applying wl objs, w')"
| render_failed: "run_state (GetWorkload r req) w = (Inr wl, w') \<Longrightarrow>
    Chart E (metaName wl) (metaNamespace wl) (Spec wl) = Some (Inl err) \<Longrightarrow>
    operator_step r E req (Idle, w) (Failing wl ''RenderFailed'' err (''render: '' @ err), w')"
| applied: "run_state (setOwnerAndApply r wl obj) w = (Inr u, w') \<Longrightarrow>
    operator_step r E req (Applying wl (obj # objs), w) (Applying wl objs, w')"
| apply_failed: "run_state (setOwnerAndApply r wl obj) w = (Inl err, w') \<Longrightarrow>
    operator_step r E req (Applying wl (obj # objs), w) (Failing wl ''ApplyFailed'' err err, w')"
| all_applied: "operator_step r E req (Applying wl [], w) (Finishing wl, w)"
| failure_set: "run_state (set_condition r wl (cond wl ''Ready'' ConditionFalse reason msg)) w = (wl', w') \<Longrightarrow>
    operator_step r E req (Failing wl reason msg err, w) (Patching wl wl' no_requeue (Some err), w')"
| ready_set: "run_state (ready_status r req wl) w = (wl', w') \<Longrightarrow>
    operator_step r E req (Finishing wl, w) (Patching wl wl' \<lparr>RequeueAfter = 30 * second\<rparr> None, w')"
| patched: "run_state (patchStatus r base wl) w = (Inr u, w') \<Longrightarrow>
    operator_step r E req (Patching base wl res err, w) (Returned res err, w')"
| patch_failed: "run_state (patchStatus r base wl) w = (Inl perr, w') \<Longrightarrow>
    operator_step r E req (Patching base wl res err, w) (Returned no_requeue (Some perr), w')"

inductive_cases Idle_stepE: "operator_step r E req (Idle, w) c"
inductive_cases Applying_stepE: "operator_step r E req (Applying wl objs, w) c"
inductive_cases Failing_stepE: "operator_step r E req (Failing wl reason msg err, w) c"
inductive_cases Finishing_stepE: "operator_step r E req (Finishing wl, w) c"
inductive_cases Patching_stepE: "operator_step r E req (Patching base wl res err, w) c"

inductive_simps Returned_step [simp]: "operator_step r E req (Returned res err, w) c"

subsection \<open>A run of the operator alone is a reconcile\<close>

text \<open>What is left to do in each phase.\<close>

fun remaining ::
  "('w, 'k) WorkloadReconciler \<Rightarrow> ('ch, 'd, 't, 'k) ChartEnv \<Rightarrow> NamespacedName \<Rightarrow> 'k phase
   \<Rightarrow> ('w, (Result \<times> go_error option) option) state" where
  "remaining r E req Idle = Reconcile r E req"
| "remaining r E req (Applying wl objs) = do {
     applied \<leftarrow> apply_all r wl objs;
     (case applied of
        Inl err \<Rightarrow> report_failure r wl wl ''ApplyFailed'' err err
      | Inr _ \<Rightarrow> finish r req wl wl)
   }"
| "remaining r E req (Failing wl reason msg err) = report_failure r wl wl reason msg err"
| "remaining r E req (Finishing wl) = finish r req wl wl"
| "remaining r E req (Patching base wl res err) = patch_and_return r base wl res err"
| "remaining r E req (Returned res err) = State_Monad.return (Some (res, err))"

lemma step_remaining:
  "operator_step r E req c c' \<Longrightarrow>
   run_state (remaining r E req (fst c)) (snd c) = run_state (remaining r E req (fst c')) (snd c')"
  by (induction rule: operator_step.induct)
    (simp_all add: Reconcile_def finish_ready report_failure_patch patch_and_return_def)

lemma steps_remaining:
  "(operator_step r E req)\<^sup>*\<^sup>* c c' \<Longrightarrow>
   run_state (remaining r E req (fst c)) (snd c) = run_state (remaining r E req (fst c')) (snd c')"
  by (induction rule: rtranclp_induct) (simp_all add: step_remaining)

text \<open>A run that reaches the return with what is left to do returning so.\<close>

definition comes_to ::
  "('w, 'k) WorkloadReconciler \<Rightarrow> ('ch, 'd, 't, 'k) ChartEnv \<Rightarrow> NamespacedName \<Rightarrow> 'k phase \<times> 'w
   \<Rightarrow> (Result \<times> go_error option) option \<times> 'w \<Rightarrow> bool" where
  "comes_to r E req c out \<longleftrightarrow> (case out of
     (Some (res, err), w') \<Rightarrow> (operator_step r E req)\<^sup>*\<^sup>* c (Returned res err, w')
   | (None, _) \<Rightarrow> True)"

lemma comes_to_step:
  "operator_step r E req c c' \<Longrightarrow> comes_to r E req c' out \<Longrightarrow> comes_to r E req c out"
  by (auto simp: comes_to_def intro: converse_rtranclp_into_rtranclp split: prod.splits option.splits)

lemma patching_returns: "comes_to r E req (Patching base wl res err, w) (run_state (patch_and_return r base wl res err) w)"
proof -
  obtain p w' where run: "run_state (patchStatus r base wl) w = (p, w')" by fastforce
  show ?thesis
  proof (cases p)
    case (Inl perr)
    with run show ?thesis
      using r_into_rtranclp [of "operator_step r E req", OF patch_failed [OF run [unfolded Inl]]]
      by (simp add: comes_to_def patch_and_return_def)
  next
    case (Inr u)
    with run show ?thesis
      using r_into_rtranclp [of "operator_step r E req", OF patched [OF run [unfolded Inr]]]
      by (simp add: comes_to_def patch_and_return_def)
  qed
qed

lemma failing_returns:
  "comes_to r E req (Failing wl reason msg err, w) (run_state (report_failure r wl wl reason msg err) w)"
proof -
  obtain wl' w' where run:
    "run_state (set_condition r wl (cond wl ''Ready'' ConditionFalse reason msg)) w = (wl', w')" by fastforce
  from comes_to_step [OF failure_set [OF run] patching_returns] show ?thesis
    by (simp add: report_failure_patch run)
qed

lemma finishing_returns: "comes_to r E req (Finishing wl, w) (run_state (finish r req wl wl) w)"
proof -
  obtain wl' w' where run: "run_state (ready_status r req wl) w = (wl', w')" by fastforce
  from comes_to_step [OF ready_set [OF run] patching_returns] show ?thesis by (simp add: finish_ready run)
qed

lemma applying_returns:
  "comes_to r E req (Applying wl objs, w) (run_state (remaining r E req (Applying wl objs)) w)"
proof (induction objs arbitrary: w)
  case Nil
  from comes_to_step [OF all_applied finishing_returns] show ?case by simp
next
  case (Cons obj objs)
  obtain a w' where run: "run_state (setOwnerAndApply r wl obj) w = (a, w')" by fastforce
  show ?case
  proof (cases a)
    case (Inl err)
    from comes_to_step [OF apply_failed [OF run [unfolded Inl]] failing_returns] run Inl show ?thesis by simp
  next
    case (Inr u)
    from comes_to_step [OF applied [OF run [unfolded Inr]] Cons.IH] run Inr show ?thesis by simp
  qed
qed

lemma idle_returns: "comes_to r E req (Idle, w) (run_state (Reconcile r E req) w)"
proof -
  obtain got w' where run: "run_state (GetWorkload r req) w = (got, w')" by fastforce
  show ?thesis
  proof (cases got)
    case (Inl err)
    from r_into_rtranclp [of "operator_step r E req", OF get_failed [OF run [unfolded Inl]]] run Inl
    show ?thesis by (simp add: comes_to_def Reconcile_def)
  next
    case (Inr wl)
    note run = run [unfolded Inr]
    show ?thesis
    proof (cases "Chart E (metaName wl) (metaNamespace wl) (Spec wl)")
      case None
      with run show ?thesis by (simp add: comes_to_def Reconcile_def)
    next
      case (Some answer)
      show ?thesis
      proof (cases answer)
        case (Inl err)
        from comes_to_step [OF render_failed [OF run Some [unfolded Inl]] failing_returns] run Some Inl
        show ?thesis by (simp add: Reconcile_def)
      next
        case (Inr objs)
        from comes_to_step [OF rendered [OF run Some [unfolded Inr]] applying_returns] run Some Inr
        show ?thesis by (simp add: Reconcile_def)
      qed
    qed
  qed
qed

text \<open>Cutting a reconcile at its calls loses nothing: with nobody else writing, the steps from the start come to
  the return of a result in a world exactly if \<open>Reconcile\<close> returns that result and leaves that world.\<close>

lemma steps_are_reconcile:
  "(operator_step r E req)\<^sup>*\<^sup>* (Idle, w) (Returned res err, w') \<longleftrightarrow>
   run_state (Reconcile r E req) w = (Some (res, err), w')"
  using idle_returns [of r E req w] steps_remaining [of r E req "(Idle, w)" "(Returned res err, w')"]
  by (auto simp: comes_to_def)

subsection \<open>The operator among other writers\<close>

text \<open>
  The steps of one reconcile, in any order with those of the others: \<open>other w w'\<close> is what anybody else may do
  in between.  After a return controller-runtime calls \<open>Reconcile\<close> again.
\<close>

inductive reconcile_step ::
  "('w, 'k) WorkloadReconciler \<Rightarrow> ('ch, 'd, 't, 'k) ChartEnv \<Rightarrow> NamespacedName \<Rightarrow> ('w \<Rightarrow> 'w \<Rightarrow> bool)
   \<Rightarrow> 'k phase \<times> 'w \<Rightarrow> 'k phase \<times> 'w \<Rightarrow> bool" for r E req other where
  own_step: "operator_step r E req c c' \<Longrightarrow> reconcile_step r E req other c c'"
| other_step: "other w w' \<Longrightarrow> reconcile_step r E req other (p, w) (p, w')"

inductive cluster_step ::
  "('w, 'k) WorkloadReconciler \<Rightarrow> ('ch, 'd, 't, 'k) ChartEnv \<Rightarrow> NamespacedName \<Rightarrow> ('w \<Rightarrow> 'w \<Rightarrow> bool)
   \<Rightarrow> 'k phase \<times> 'w \<Rightarrow> 'k phase \<times> 'w \<Rightarrow> bool" for r E req other where
  operator: "operator_step r E req c c' \<Longrightarrow> cluster_step r E req other c c'"
| others: "other w w' \<Longrightarrow> cluster_step r E req other (p, w) (p, w')"
| requeue: "cluster_step r E req other (Returned res err, w) (Idle, w)"

lemma operator_runs: "(operator_step r E req)\<^sup>*\<^sup>* c c' \<Longrightarrow> (cluster_step r E req other)\<^sup>*\<^sup>* c c'"
  by (erule rtranclp_mono [THEN predicate2D, rotated]) (auto intro: operator)

lemma set_rollout_condition_preserves:
  "reads_only r view \<Longrightarrow> preserves (\<lambda>w. P (view w)) (set_rollout_condition r wl)"
  by (simp add: set_rollout_condition_def set_condition_preserves)

lemma ready_status_preserves:
  assumes "reads_only r view"
  shows "preserves (\<lambda>w. P (view w)) (ready_status r req wl)"
proof -
  have "preserves (\<lambda>w. P (view w)) (GetDeployment r req)"
    using assms by (simp add: reads_only_def silent_preserves)
  then show ?thesis
    unfolding ready_status_def Let_def
    by (intro preserves_bind set_rollout_condition_preserves set_condition_preserves assms)
qed

lemma silent_run: "run_state m w = (a, w') \<Longrightarrow> silent view m \<Longrightarrow> view w' = view w"
  by (drule silentD [of view m w]) simp

text \<open>A step of the operator is an application of an object, or leaves the objects alone.\<close>

lemma operator_step_live:
  fixes live :: "'w \<Rightarrow> 'k ClientObject \<Rightarrow> 'k ClientObject option"
  assumes "operator_step r E req c c'"
    and "reads_only r live" and "\<And>base wl. silent live (PatchStatus r base wl)"
  shows "live (snd c') = live (snd c) \<or>
    (\<exists>wl obj objs. fst c = Applying wl (obj # objs) \<and>
      snd c' = snd (run_state (setOwnerAndApply r wl obj) (snd c)))"
proof -
  have get: "silent live (GetWorkload r req)" using assms(2) by (simp add: reads_only_def)
  have set: "silent live (set_condition r wl c)" for wl c
    unfolding silent_iff_preserves using set_condition_preserves [OF assms(2), of "\<lambda>l. l = v" for v] by blast
  have ready: "silent live (ready_status r req wl)" for wl
    unfolding silent_iff_preserves using ready_status_preserves [OF assms(2), of "\<lambda>l. l = v" for v] by blast
  have patch: "silent live (patchStatus r base wl)" for base wl using assms(3) by (simp add: patchStatus_def)
  from assms(1) show ?thesis
    by cases (auto dest: silent_run [OF _ get] silent_run [OF _ set] silent_run [OF _ ready] silent_run [OF _ patch])
qed

lemma operator_step_keeps:
  assumes "owner_contract r own" and "store_contract r live admit" and "\<And>x. keeps x (admit x)"
    and "reads_only r live" and "\<And>base wl. silent live (PatchStatus r base wl)"
    and "operator_step r E req c c'" and "live (snd c) x = Some l"
  shows "\<exists>l'. live (snd c') x = Some l' \<and> keeps l l'"
  using operator_step_live [where live = live, OF assms(6,4,5)] assms(7)
    preservesD [OF apply_keeps_live [OF assms(1-3), of x l]]
  by (metis keeps_refl)

text \<open>The live Deployment has replicas, and their number satisfies \<open>P\<close>.\<close>

definition replicas_live ::
  "('w \<Rightarrow> 'k ClientObject \<Rightarrow> 'k ClientObject option) \<Rightarrow> 'k ClientObject \<Rightarrow> (int32 \<Rightarrow> bool) \<Rightarrow> 'w \<Rightarrow> bool" where
  "replicas_live live x P w \<longleftrightarrow> (case live w x of
     Some (Deployment _ s _) \<Rightarrow> (case Replicas s of Some n \<Rightarrow> P n | None \<Rightarrow> False)
   | _ \<Rightarrow> False)"

lemma keeps_replicas:
  assumes "live w x = Some l" and "live w' x = Some l'" and "keeps l l'" and "replicas_live live x P w"
  shows "replicas_live live x P w'"
  using assms by (cases l; cases l') (auto simp: replicas_live_def keeps_def split: option.splits)

text \<open>Property C9: the replicas belong to the autoscaler, also while a reconcile is under way.  In every
  interleaving of any number of reconciles with the others, if the others keep the replicas of a
  live Deployment in a range, they are in the range at every moment: no step of the operator, on
  whatever it read before, sets them back, resets them or deletes the Deployment.\<close>
theorem replicas_belong_to_the_autoscaler:
  assumes "owner_contract r own" and "store_contract r live admit" and "\<And>x. keeps x (admit x)"
    and "reads_only r live" and "\<And>base wl. silent live (PatchStatus r base wl)"
    and "\<And>w w'. other w w' \<Longrightarrow> replicas_live live x P w \<Longrightarrow> replicas_live live x P w'"
    and "(cluster_step r E req other)\<^sup>*\<^sup>* (p, w) (p', w')" and "replicas_live live x P w"
  shows "replicas_live live x P w'"
proof -
  have "replicas_live live x P (snd c)" if "(cluster_step r E req other)\<^sup>*\<^sup>* (p, w) c" for c
    using that
  proof (induction rule: rtranclp_induct)
    case (step c c')
    from step.hyps(2) step.IH show ?case
    proof cases
      case operator
      obtain l where l: "live (snd c) x = Some l"
        using step.IH by (auto simp: replicas_live_def split: option.splits)
      with operator_step_keeps [OF assms(1-5) operator l] step.IH show ?thesis
        by (blast intro: keeps_replicas)
    qed (use assms(6) in auto)
  qed (use assms(8) in simp)
  from this [OF assms(7)] show ?thesis by simp
qed

subsection \<open>A return without an error, whatever the others did\<close>

text \<open>
  Of objects that are applied one after the other those are in force that no later one overwrites; of
  distinct ones all.
\<close>

fun in_force :: "'k ClientObject list \<Rightarrow> 'k ClientObject list" where
  "in_force [] = []"
| "in_force (x # xs) = (if list_ex (same_object x) xs then in_force xs else x # in_force xs)"

lemma in_force_snoc: "in_force (xs @ [y]) = filter (\<lambda>x. \<not> same_object x y) (in_force xs) @ [y]"
  by (induction xs) auto

lemma in_force_distinct: "distinct_objects xs \<Longrightarrow> in_force xs = xs"
  by (induction xs) (auto simp: list_all_iff list_ex_iff)

text \<open>What the reconcile that read \<open>wl\<close>, whose chart has the objects \<open>objs\<close>, has achieved by the phase it is in.\<close>

fun achieved ::
  "('w, 'k) WorkloadReconciler \<Rightarrow> ('w \<Rightarrow> 'k ClientObject \<Rightarrow> 'k ClientObject option)
   \<Rightarrow> ('k ClientObject \<Rightarrow> 'k ClientObject) \<Rightarrow> 'k Workload \<Rightarrow> 'k ClientObject list \<Rightarrow> 'k phase \<Rightarrow> 'w \<Rightarrow> bool" where
  "achieved r live admit wl objs Idle w \<longleftrightarrow> False"
| "achieved r live admit wl objs (Applying wl' rest) w \<longleftrightarrow> wl' = wl \<and>
    (\<exists>ready. objs = ready @ rest \<and> list_all (applied_live r live admit wl w) (in_force ready))"
| "achieved r live admit wl objs (Failing wl' reason msg err) w \<longleftrightarrow> True"
| "achieved r live admit wl objs (Finishing wl') w \<longleftrightarrow> list_all (applied_live r live admit wl w) (in_force objs)"
| "achieved r live admit wl objs (Patching base wl' res err) w \<longleftrightarrow>
    err = None \<longrightarrow> list_all (applied_live r live admit wl w) (in_force objs)"
| "achieved r live admit wl objs (Returned res err) w \<longleftrightarrow>
    err = None \<longrightarrow> list_all (applied_live r live admit wl w) (in_force objs)"

lemma apply_one_live:
  assumes "owner_contract r own" and "store_contract r live admit"
    and "run_state (setOwnerAndApply r wl d) w = (Inr u, w')"
  shows "applied_live r live admit wl w' d"
proof -
  from store_effect [OF assms(2) assms(3) [unfolded setOwnerAndApply_target]]
  obtain old new where new: "mutate r wl d old = Inr new" "live w' d = Some (admit new)"
    by (auto simp: written_def)
  with assms(1) show ?thesis by (auto simp: applied_live_def elim: mutate_success)
qed

lemma apply_keeps_applied:
  assumes "store_contract r live admit" and "\<not> same_object x d"
    and "run_state (setOwnerAndApply r wl d) w = (res, w')" and "applied_live r live admit wl' w x"
  shows "applied_live r live admit wl' w' x"
  using preservesD [OF apply_leaves_others [OF assms(1,2), where v = "live w x" and wl = wl], of w] assms(3,4)
  by (simp add: applied_live_def)

lemma achieved_stable:
  assumes "\<And>d. applied_live r live admit wl w d \<Longrightarrow> applied_live r live admit wl w' d"
    and "achieved r live admit wl objs p w"
  shows "achieved r live admit wl objs p w'"
proof -
  have all: "list_all (applied_live r live admit wl w) xs \<Longrightarrow> list_all (applied_live r live admit wl w') xs" for xs
    by (erule list.pred_mono_strong) (rule assms(1))
  from assms(2) show ?thesis by (cases p) (auto intro: all)
qed

lemma operator_step_achieves:
  fixes live :: "'w \<Rightarrow> 'k ClientObject \<Rightarrow> 'k ClientObject option"
  assumes "owner_contract r own" and "store_contract r live admit"
    and "reads_only r live" and "\<And>base wl. silent live (PatchStatus r base wl)"
    and "operator_step r E req c c'" and "achieved r live admit wl objs (fst c) (snd c)"
  shows "achieved r live admit wl objs (fst c') (snd c')"
proof -
  have same: "live (snd c') = live (snd c)" if "\<And>wl obj objs. fst c \<noteq> Applying wl (obj # objs)"
    using operator_step_live [OF assms(5,3,4)] that by blast
  then have stable: "achieved r live admit wl objs p (snd c) = achieved r live admit wl objs p (snd c')"
    if "\<And>wl obj objs. fst c \<noteq> Applying wl (obj # objs)" for p
    using that by (cases p) (simp_all add: applied_live_def [abs_def])
  from assms(5) show ?thesis
  proof cases
    case (applied wl' obj w u w' rest)
    from assms(6) applied(1) obtain ready where wl: "wl' = wl" and objs: "objs = ready @ obj # rest"
      and live: "list_all (applied_live r live admit wl w) (in_force ready)" by auto
    have "list_all (applied_live r live admit wl w') (in_force (ready @ [obj]))"
      using live apply_one_live [OF assms(1,2) applied(3) [unfolded wl]]
        apply_keeps_applied [OF assms(2) _ applied(3)]
      by (auto simp: in_force_snoc list_all_iff)
    with objs wl applied(2) show ?thesis by (auto intro!: exI [of _ "ready @ [obj]"])
  next
    case (all_applied wl' w)
    with assms(6) show ?thesis by simp
  next
    case (ready_set wl' w wl'' w')
    with stable [of "Finishing wl'"] assms(6) show ?thesis by simp
  next
    case (patched base wl' w u w' res err)
    with stable [of "Patching base wl' res err"] assms(6) show ?thesis by simp
  qed (use assms(6) in simp_all)
qed

text \<open>
  Where a run stands that started at \<open>start\<close>: a reconcile under way, or one that has returned without an
  error, has read a Workload at some point of the run and gone on from there.
\<close>

definition under_way ::
  "('w, 'k) WorkloadReconciler \<Rightarrow> ('ch, 'd, 't, 'k) ChartEnv \<Rightarrow> NamespacedName \<Rightarrow> ('w \<Rightarrow> 'w \<Rightarrow> bool)
   \<Rightarrow> 'k phase \<times> 'w \<Rightarrow> 'k phase \<times> 'w \<Rightarrow> bool" where
  "under_way r E req other start c \<longleftrightarrow> (\<exists>w0 wl w1 objs.
     (cluster_step r E req other)\<^sup>*\<^sup>* start (Idle, w0) \<and> run_state (GetWorkload r req) w0 = (Inr wl, w1) \<and>
     Chart E (metaName wl) (metaNamespace wl) (Spec wl) = Some (Inr objs) \<and>
     (reconcile_step r E req other)\<^sup>*\<^sup>* (Applying wl objs, w1) c)"

fun without_error :: "'k phase \<Rightarrow> bool" where
  "without_error (Applying _ _) \<longleftrightarrow> True"
| "without_error (Finishing _) \<longleftrightarrow> True"
| "without_error (Patching _ _ _ err) \<longleftrightarrow> err = None"
| "without_error (Returned res err) \<longleftrightarrow> err = None \<and> RequeueAfter res \<noteq> 0"
| "without_error _ \<longleftrightarrow> False"

lemma under_way_step:
  "under_way r E req other start c \<Longrightarrow> reconcile_step r E req other c c' \<Longrightarrow> under_way r E req other start c'"
  unfolding under_way_def by (blast intro: rtranclp.rtrancl_into_rtrancl)

lemma run_under_way:
  assumes "(cluster_step r E req other)\<^sup>*\<^sup>* (Idle, w) c" and "without_error (fst c)"
  shows "under_way r E req other (Idle, w) c"
  using assms
proof (induction rule: rtranclp_induct)
  case (step c c')
  from step.hyps(2) show ?case
  proof cases
    case operator
    note own = own_step [where other = other, OF operator]
    have "under_way r E req other (Idle, w) c'" if "without_error (fst c)"
      using under_way_step [OF step.IH own] that .
    with operator step show ?thesis
    proof cases
      case (rendered v wl v' objs)
      with step.hyps(1) show ?thesis unfolding under_way_def by blast
    qed (auto simp: no_requeue_def)
  next
    case (others v v' p)
    with step.prems have "without_error (fst c)" by simp
    from step.IH [OF this] others(1) have "under_way r E req other (Idle, w) (p, v)" by simp
    from under_way_step [OF this] others show ?thesis by (simp add: other_step)
  next
    case requeue
    with step.prems show ?thesis by simp
  qed
qed simp

text \<open>Property C10: a reconcile that returns without an error has applied the chart of the Workload it read, even
  if others wrote between its calls.  If what the others do undoes no application of an object (the
  autoscaler scaling the Deployment does not), then in every interleaving of reconciles with them,
  whenever a reconcile has returned without an error and asked for the next, it has read a Workload
  at some point of the run, that Workload's chart has rendered, no other reconcile has started since, and
  every object of that chart is live as the result of applying it for that Workload; were two
  of them the same object, the later one is.\<close>
theorem interleaved_reconcile_applies:
  assumes "owner_contract r own" and "store_contract r live admit"
    and "reads_only r live" and "\<And>base wl. silent live (PatchStatus r base wl)"
    and "\<And>w w' wl d. other w w' \<Longrightarrow> applied_live r live admit wl w d \<Longrightarrow> applied_live r live admit wl w' d"
    and "(cluster_step r E req other)\<^sup>*\<^sup>* (Idle, w) (Returned res None, w')" and "RequeueAfter res \<noteq> 0"
  shows "\<exists>w0 wl w1 objs.
    (cluster_step r E req other)\<^sup>*\<^sup>* (Idle, w) (Idle, w0) \<and> run_state (GetWorkload r req) w0 = (Inr wl, w1) \<and>
    Chart E (metaName wl) (metaNamespace wl) (Spec wl) = Some (Inr objs) \<and>
    (reconcile_step r E req other)\<^sup>*\<^sup>* (Applying wl objs, w1) (Returned res None, w') \<and>
    list_all (applied_live r live admit wl w') (in_force objs)"
proof -
  from run_under_way [OF assms(6)] assms(7) obtain w0 wl w1 objs where
    start: "(cluster_step r E req other)\<^sup>*\<^sup>* (Idle, w) (Idle, w0)" "run_state (GetWorkload r req) w0 = (Inr wl, w1)"
      "Chart E (metaName wl) (metaNamespace wl) (Spec wl) = Some (Inr objs)"
    and run: "(reconcile_step r E req other)\<^sup>*\<^sup>* (Applying wl objs, w1) (Returned res None, w')"
    by (auto simp: under_way_def)
  have "achieved r live admit wl objs (fst c) (snd c)"
    if "(reconcile_step r E req other)\<^sup>*\<^sup>* (Applying wl objs, w1) c" for c
    using that
  proof (induction rule: rtranclp_induct)
    case (step c c')
    from step.hyps(2) show ?case
    proof cases
      case own_step
      show ?thesis by (rule operator_step_achieves [OF assms(1-4) own_step step.IH])
    next
      case (other_step v v' p)
      with achieved_stable [OF assms(5)] step.IH show ?thesis by simp
    qed
  qed simp
  from this [OF run] start run show ?thesis by auto
qed

subsection \<open>The autoscaler undoes nothing\<close>

text \<open>What the autoscaler does to an object.\<close>

fun scale :: "int32 \<Rightarrow> 'k ClientObject \<Rightarrow> 'k ClientObject" where
  "scale n (Deployment m d s) = Deployment m (d\<lparr>Replicas := Some n\<rparr>) s"
| "scale n x = x"

lemma scale_meta [simp]: "object_meta (scale n x) = object_meta x" "same_kind (scale n x) y = same_kind x y"
  "map_meta f (scale n x) = scale n (map_meta f x)"
  by (cases x; cases y; simp)+

lemma copy_spec_scale: "copy_spec d (scale n l) = map_sum (\<lambda>e. e) (scale n) (copy_spec d l)"
  by (cases d; cases l) (simp_all add: copy_spec_def copy_deployment_spec_def assertion_panic_def Let_def)

text \<open>Applying commutes with scaling.\<close>

lemma mutate_scale:
  "owner_contract r own \<Longrightarrow> mutate r wl d (scale n l) = map_sum (\<lambda>e. e) (scale n) (mutate r wl d l)"
  by (simp add: mutate_contract copy_spec_scale split: sum.split)

lemma scaling_undoes_nothing:
  assumes "owner_contract r own" and "\<And>x. admit (scale n x) = scale n (admit x)"
    and "applied_live r live admit wl w d"
    and "live w' d = live w d \<or> live w' d = map_option (scale n) (live w d)"
  shows "applied_live r live admit wl w' d"
proof -
  obtain old new where new: "mutate r wl d old = Inr new" "spec_applied d old new" "live w d = Some (admit new)"
    using assms(3) by (auto simp: applied_live_def)
  from new(1) have scaled: "mutate r wl d (scale n old) = Inr (scale n new)" by (simp add: mutate_scale [OF assms(1)])
  with assms(1) have "spec_applied d (scale n old) (scale n new)" by (rule mutate_success)
  moreover from new(3) assms(2,4) have "live w' d = Some (admit new) \<or> live w' d = Some (admit (scale n new))"
    by auto
  ultimately show ?thesis unfolding applied_live_def using new(1,2) scaled by blast
qed

subsection \<open>A cluster with an autoscaler\<close>

text \<open>The others are an autoscaler that sets the replicas of every Deployment between 2 and 10.\<close>

definition sample_autoscaler :: "sample_world \<Rightarrow> sample_world \<Rightarrow> bool" where
  "sample_autoscaler w w' \<longleftrightarrow> (\<exists>n. 2 \<le> sint n \<and> sint n \<le> 10 \<and> w' = (map (scale n) (fst w), snd w))"

lemma scale_maps_ok [simp]: "maps_ok (scale n x) = maps_ok x"
  by (simp add: maps_ok_def)

lemma sample_live_scaled: "sample_live (map (scale n) xs, log) x = map_option (scale n) (sample_live (xs, log) x)"
proof -
  have "same_object (scale n y) x \<longleftrightarrow> same_object y x" for y by (simp add: same_object_def)
  then show ?thesis by (induction xs) (simp_all add: sample_live_def)
qed

lemma sample_autoscaler_stable:
  assumes "sample_autoscaler w w'" and "applied_live sample_reconciler sample_live (\<lambda>x. x) wl w d"
  shows "applied_live sample_reconciler sample_live (\<lambda>x. x) wl w' d"
proof -
  obtain n where "w' = (map (scale n) (fst w), snd w)" using assms(1) by (auto simp: sample_autoscaler_def)
  then have "sample_live w' d = map_option (scale n) (sample_live w d)" by (cases w) (simp add: sample_live_scaled)
  with scaling_undoes_nothing [OF sample_owner _ assms(2)] show ?thesis by blast
qed

definition sample_deployment :: "int32 \<Rightarrow> unit ClientObject" where
  "sample_deployment n = Deployment sample_meta \<lparr>Replicas = Some n, Selector = None, deploymentRest = ()\<rparr>
     \<lparr>depReadyReplicas = 0, depStatusRest = ()\<rparr>"

lemma sample_deployment_live:
  "sample_live ([sample_deployment n], log) (sample_deployment 5) = Some (sample_deployment n)"
  by (simp add: sample_live_def sample_deployment_def same_object_def maps_ok_def sample_meta_def go_map_option_def)

lemma sample_distinct:
  "distinct_objects [sample_object [(''kind'', VStr ''x'')], sample_object [(''kind'', VStr ''y'')]]"
  by (simp add: sample_object_def same_object_def sample_kind_def)

text \<open>The autoscaler goes from 5 to 7 replicas, and then a whole reconcile runs.\<close>

lemma sample_interleaved:
  obtains w' where "(cluster_step sample_reconciler sample_env sample_request sample_autoscaler)\<^sup>*\<^sup>*
    (Idle, ([sample_deployment 5], [])) (Returned \<lparr>RequeueAfter = 30 * second\<rparr> None, w')"
proof -
  have "cluster_step sample_reconciler sample_env sample_request sample_autoscaler
      (Idle, ([sample_deployment 5], [])) (Idle, ([sample_deployment 7], []))"
    by (rule others) (auto simp: sample_autoscaler_def sample_deployment_def intro!: exI [of _ 7])
  moreover have "list_all supported [sample_object [(''kind'', VStr ''x'')], sample_object [(''kind'', VStr ''y'')]]"
    "list_all (unowned sample_own sample_live sample_workload ([sample_deployment 7], []))
      [sample_object [(''kind'', VStr ''x'')], sample_object [(''kind'', VStr ''y'')]]"
    by (simp_all add: sample_object_def sample_own_free)
  then obtain w' where "run_state (Reconcile sample_reconciler sample_env sample_request) ([sample_deployment 7], [])
      = (Some (\<lparr>RequeueAfter = 30 * second\<rparr>, None), w')"
    using reconcile_makes_progress [OF sample_owner _ sample_store sample_accepts
        sample_conditions sample_patch_log sample_get sample_Chart _ sample_distinct] by blast
  then have "(cluster_step sample_reconciler sample_env sample_request sample_autoscaler)\<^sup>*\<^sup>*
      (Idle, ([sample_deployment 7], [])) (Returned \<lparr>RequeueAfter = 30 * second\<rparr> None, w')"
    by (intro operator_runs) (simp add: steps_are_reconcile)
  ultimately show thesis by (rule that [OF converse_rtranclp_into_rtranclp])
qed

theorem replicas_belong_witness:
  "\<exists>w'. (cluster_step sample_reconciler sample_env sample_request sample_autoscaler)\<^sup>*\<^sup>*
      (Idle, ([sample_deployment 5], [])) (Returned \<lparr>RequeueAfter = 30 * second\<rparr> None, w') \<and>
    replicas_live sample_live (sample_deployment 5) (\<lambda>n. 2 \<le> sint n \<and> sint n \<le> 10) w'"
proof -
  let ?in = "replicas_live sample_live (sample_deployment 5) (\<lambda>n. 2 \<le> sint n \<and> sint n \<le> 10)"
  obtain w' where run: "(cluster_step sample_reconciler sample_env sample_request sample_autoscaler)\<^sup>*\<^sup>*
    (Idle, ([sample_deployment 5], [])) (Returned \<lparr>RequeueAfter = 30 * second\<rparr> None, w')"
    by (rule sample_interleaved)
  have "?in ([sample_deployment 5], [])"
    by (simp add: replicas_live_def sample_deployment_live) (simp add: sample_deployment_def)
  moreover have "?in v'" if "sample_autoscaler v v'" "?in v" for v v'
    using that by (cases v) (auto simp: sample_autoscaler_def replicas_live_def sample_live_scaled
        split: option.splits ClientObject.splits)
  ultimately have "?in w'"
    using replicas_belong_to_the_autoscaler [OF sample_owner sample_store keeps_refl sample_reads
        sample_patch_silent _ run] by blast
  with run show ?thesis by blast
qed

theorem interleaved_reconcile_witness:
  "\<exists>w'. (cluster_step sample_reconciler sample_env sample_request sample_autoscaler)\<^sup>*\<^sup>*
      (Idle, ([sample_deployment 5], [])) (Returned \<lparr>RequeueAfter = 30 * second\<rparr> None, w') \<and>
    list_all (applied_live sample_reconciler sample_live (\<lambda>x. x) sample_workload w')
      [sample_object [(''kind'', VStr ''x'')], sample_object [(''kind'', VStr ''y'')]]"
proof -
  obtain w' where run: "(cluster_step sample_reconciler sample_env sample_request sample_autoscaler)\<^sup>*\<^sup>*
    (Idle, ([sample_deployment 5], [])) (Returned \<lparr>RequeueAfter = 30 * second\<rparr> None, w')"
    by (rule sample_interleaved)
  have "\<exists>w0 wl w1 objs. run_state (GetWorkload sample_reconciler sample_request) w0 = (Inr wl, w1) \<and>
    Chart sample_env (metaName wl) (metaNamespace wl) (Spec wl) = Some (Inr objs) \<and>
    list_all (applied_live sample_reconciler sample_live (\<lambda>x. x) wl w') (in_force objs)"
  proof -
    have "\<exists>w0 wl w1 objs. (cluster_step sample_reconciler sample_env sample_request sample_autoscaler)\<^sup>*\<^sup>*
        (Idle, ([sample_deployment 5], [])) (Idle, w0) \<and>
      run_state (GetWorkload sample_reconciler sample_request) w0 = (Inr wl, w1) \<and>
      Chart sample_env (metaName wl) (metaNamespace wl) (Spec wl) = Some (Inr objs) \<and>
      (reconcile_step sample_reconciler sample_env sample_request sample_autoscaler)\<^sup>*\<^sup>*
        (Applying wl objs, w1) (Returned \<lparr>RequeueAfter = 30 * second\<rparr> None, w') \<and>
      list_all (applied_live sample_reconciler sample_live (\<lambda>x. x) wl w') (in_force objs)"
      by (rule interleaved_reconcile_applies [OF sample_owner sample_store sample_reads sample_patch_silent _ run])
        (simp_all add: sample_autoscaler_stable second_def)
    then show ?thesis by blast
  qed
  then have "list_all (applied_live sample_reconciler sample_live (\<lambda>x. x) sample_workload w')
      [sample_object [(''kind'', VStr ''x'')], sample_object [(''kind'', VStr ''y'')]]"
    unfolding sample_Chart sample_get by (auto simp only: in_force_distinct [OF sample_distinct] prod.inject sum.inject option.inject)
  with run show ?thesis by blast
qed

end
