(* ===== verification/Deep_Copy.thy ===== *)
theory Deep_Copy
  imports Workload_API
begin

text \<open>
  \<open>operator/api/v1/zz_generated.deepcopy.go\<close>, on an explicit memory: structs hold the addresses of
  what their pointers, slices and maps refer to, and \<open>new\<close> takes the next free address.  The
  controller relies on it for the snapshot it patches the status against: \<open>base := wl.DeepCopy()\<close>
  must not see what is later written through \<open>wl\<close>.

  The deep copies of the Kubernetes types are parameters.  A value of such a type (metadata,
  resources, security contexts) is one cell here, whatever it is made of, and its contract is that the
  copy is a new cell with the same contents.  Reading an address gives the cell's contents if it has
  the expected type, which Go's type system ensures; the other case of a load is never reached on the
  structs described by the \<open>_at\<close> predicates.
\<close>

subsection \<open>Memory\<close>

type_synonym addr = nat

record SpecMem =
  memImage :: string
  memPort :: int32
  memRolloutStrategy :: string
  memAutoscale :: Autoscale
  memLivenessProbe :: "addr option"
  memReadinessProbe :: "addr option"
  memResources :: addr
  memSecurityContext :: "addr option"
  memPodSecurityContext :: "addr option"
  memIngressClass :: string
  memIngress :: "addr option"

record StatusMem =
  memConditions :: "addr option"
  memObservedGeneration :: int64
  memReadyReplicas :: int32

record WorkloadMem =
  memTypeMeta :: TypeMeta
  memObjectMeta :: addr
  memSpec :: SpecMem
  memStatus :: StatusMem

record WorkloadListMem =
  memListTypeMeta :: TypeMeta
  memListMeta :: addr
  memItems :: "addr option"

datatype 'k cell =
    ProbeCell Probe
  | AutoscaleCell Autoscale
  | IngressCell IngressConfig
  | SpecCell SpecMem
  | StatusCell StatusMem
  | WorkloadCell WorkloadMem
  | ListCell WorkloadListMem
  | ConditionsCell "Condition list"
  | ItemsCell "WorkloadMem list"
  | ResourcesCell "'k ResourceRequirements"
  | MetaCell ObjectMeta
  | ExtCell 'k

record 'k mem =
  cells :: "addr \<Rightarrow> 'k cell option"
  nextAddr :: addr

definition alloc :: "'k cell \<Rightarrow> ('k mem, addr) state" where
  "alloc c = State (\<lambda>m. (nextAddr m,
     m\<lparr>cells := (cells m)(nextAddr m := Some c), nextAddr := nextAddr m + 1\<rparr>))"

definition load :: "('k cell \<Rightarrow> 'a option) \<Rightarrow> 'a \<Rightarrow> addr \<Rightarrow> ('k mem, 'a) state" where
  "load sel zero a = State (\<lambda>m. (case cells m a of
     None \<Rightarrow> zero | Some c \<Rightarrow> (case sel c of None \<Rightarrow> zero | Some x \<Rightarrow> x), m))"

definition store :: "addr \<Rightarrow> 'k cell \<Rightarrow> ('k mem, unit) state" where
  "store a c = State (\<lambda>m. ((), m\<lparr>cells := (cells m)(a := Some c)\<rparr>))"

text \<open>The zero values \<open>new\<close> fills a cell with.\<close>

definition zero_probe :: Probe where "zero_probe = \<lparr>probePath = [], probePort = 0\<rparr>"

definition zero_autoscale :: Autoscale where
  "zero_autoscale = \<lparr>MinReplicas = 0, MaxReplicas = 0, TargetCPUUtilization = 0\<rparr>"

definition zero_ingress :: IngressConfig where
  "zero_ingress = \<lparr>Host = [], ingressPath = [], PathType = []\<rparr>"

definition zero_spec :: SpecMem where
  "zero_spec = \<lparr>memImage = [], memPort = 0, memRolloutStrategy = [], memAutoscale = zero_autoscale,
    memLivenessProbe = None, memReadinessProbe = None, memResources = 0, memSecurityContext = None,
    memPodSecurityContext = None, memIngressClass = [], memIngress = None\<rparr>"

definition zero_status :: StatusMem where
  "zero_status = \<lparr>memConditions = None, memObservedGeneration = 0, memReadyReplicas = 0\<rparr>"

definition zero_workload :: WorkloadMem where
  "zero_workload = \<lparr>memTypeMeta = \<lparr>Kind = [], APIVersion = []\<rparr>, memObjectMeta = 0,
    memSpec = zero_spec, memStatus = zero_status\<rparr>"

definition zero_list :: WorkloadListMem where
  "zero_list = \<lparr>memListTypeMeta = \<lparr>Kind = [], APIVersion = []\<rparr>, memListMeta = 0, memItems = None\<rparr>"

fun as_probe :: "'k cell \<Rightarrow> Probe option" where
  "as_probe (ProbeCell p) = Some p" | "as_probe _ = None"

fun as_autoscale :: "'k cell \<Rightarrow> Autoscale option" where
  "as_autoscale (AutoscaleCell p) = Some p" | "as_autoscale _ = None"

fun as_ingress :: "'k cell \<Rightarrow> IngressConfig option" where
  "as_ingress (IngressCell p) = Some p" | "as_ingress _ = None"

fun as_spec :: "'k cell \<Rightarrow> SpecMem option" where
  "as_spec (SpecCell p) = Some p" | "as_spec _ = None"

fun as_status :: "'k cell \<Rightarrow> StatusMem option" where
  "as_status (StatusCell p) = Some p" | "as_status _ = None"

fun as_workload :: "'k cell \<Rightarrow> WorkloadMem option" where
  "as_workload (WorkloadCell p) = Some p" | "as_workload _ = None"

fun as_list :: "'k cell \<Rightarrow> WorkloadListMem option" where
  "as_list (ListCell p) = Some p" | "as_list _ = None"

fun as_conditions :: "'k cell \<Rightarrow> Condition list option" where
  "as_conditions (ConditionsCell p) = Some p" | "as_conditions _ = None"

fun as_items :: "'k cell \<Rightarrow> WorkloadMem list option" where
  "as_items (ItemsCell p) = Some p" | "as_items _ = None"

text \<open>The deep copies of \<open>metav1\<close> and \<open>corev1\<close>.\<close>

record 'k ExtCopy =
  extDeepCopyInto :: "addr \<Rightarrow> ('k mem, addr) state"
  conditionDeepCopyInto :: "Condition \<Rightarrow> Condition"

subsection \<open>The generated functions\<close>

text \<open>\<open>DeepCopyInto\<close> returns what it writes into \<open>out\<close>; \<open>DeepCopy\<close> of a \<open>nil\<close> receiver is \<open>nil\<close>.\<close>

definition Autoscale_DeepCopyInto :: "Autoscale \<Rightarrow> Autoscale" where
  "Autoscale_DeepCopyInto i = i"

definition IngressConfig_DeepCopyInto :: "IngressConfig \<Rightarrow> IngressConfig" where
  "IngressConfig_DeepCopyInto i = i"

definition Probe_DeepCopyInto :: "Probe \<Rightarrow> Probe" where
  "Probe_DeepCopyInto i = i"

definition Autoscale_DeepCopy :: "addr option \<Rightarrow> ('k mem, addr option) state" where
  "Autoscale_DeepCopy receiver = (case receiver of
     None \<Rightarrow> State_Monad.return None
   | Some a \<Rightarrow> do {
       out \<leftarrow> alloc (AutoscaleCell zero_autoscale);
       i \<leftarrow> load as_autoscale zero_autoscale a;
       _ \<leftarrow> store out (AutoscaleCell (Autoscale_DeepCopyInto i));
       State_Monad.return (Some out)
     })"

definition IngressConfig_DeepCopy :: "addr option \<Rightarrow> ('k mem, addr option) state" where
  "IngressConfig_DeepCopy receiver = (case receiver of
     None \<Rightarrow> State_Monad.return None
   | Some a \<Rightarrow> do {
       out \<leftarrow> alloc (IngressCell zero_ingress);
       i \<leftarrow> load as_ingress zero_ingress a;
       _ \<leftarrow> store out (IngressCell (IngressConfig_DeepCopyInto i));
       State_Monad.return (Some out)
     })"

definition Probe_DeepCopy :: "addr option \<Rightarrow> ('k mem, addr option) state" where
  "Probe_DeepCopy receiver = (case receiver of
     None \<Rightarrow> State_Monad.return None
   | Some a \<Rightarrow> do {
       out \<leftarrow> alloc (ProbeCell zero_probe);
       i \<leftarrow> load as_probe zero_probe a;
       _ \<leftarrow> store out (ProbeCell (Probe_DeepCopyInto i));
       State_Monad.return (Some out)
     })"

text \<open>\<open>if in.X != nil { in, out := &in.X, &out.X; *out = new(T); **out = **in }\<close>\<close>

definition copy_probe :: "addr option \<Rightarrow> ('k mem, addr option) state" where
  "copy_probe field = (case field of
     None \<Rightarrow> State_Monad.return None
   | Some a \<Rightarrow> do {
       out \<leftarrow> alloc (ProbeCell zero_probe);
       i \<leftarrow> load as_probe zero_probe a;
       _ \<leftarrow> store out (ProbeCell i);
       State_Monad.return (Some out)
     })"

definition copy_ingress :: "addr option \<Rightarrow> ('k mem, addr option) state" where
  "copy_ingress field = (case field of
     None \<Rightarrow> State_Monad.return None
   | Some a \<Rightarrow> do {
       out \<leftarrow> alloc (IngressCell zero_ingress);
       i \<leftarrow> load as_ingress zero_ingress a;
       _ \<leftarrow> store out (IngressCell i);
       State_Monad.return (Some out)
     })"

definition copy_context :: "'k ExtCopy \<Rightarrow> addr option \<Rightarrow> ('k mem, addr option) state" where
  "copy_context X field = (case field of
     None \<Rightarrow> State_Monad.return None
   | Some a \<Rightarrow> do { out \<leftarrow> extDeepCopyInto X a; State_Monad.return (Some out) })"

definition WorkloadSpec_DeepCopyInto :: "'k ExtCopy \<Rightarrow> SpecMem \<Rightarrow> ('k mem, SpecMem) state" where
  "WorkloadSpec_DeepCopyInto X i = do {
     let out = i;
     let out = out\<lparr>memAutoscale := memAutoscale i\<rparr>;
     liveness \<leftarrow> copy_probe (memLivenessProbe i);
     let out = out\<lparr>memLivenessProbe := liveness\<rparr>;
     readiness \<leftarrow> copy_probe (memReadinessProbe i);
     let out = out\<lparr>memReadinessProbe := readiness\<rparr>;
     resources \<leftarrow> extDeepCopyInto X (memResources i);
     let out = out\<lparr>memResources := resources\<rparr>;
     security \<leftarrow> copy_context X (memSecurityContext i);
     let out = out\<lparr>memSecurityContext := security\<rparr>;
     podSecurity \<leftarrow> copy_context X (memPodSecurityContext i);
     let out = out\<lparr>memPodSecurityContext := podSecurity\<rparr>;
     ingress \<leftarrow> copy_ingress (memIngress i);
     State_Monad.return (out\<lparr>memIngress := ingress\<rparr>)
   }"

definition WorkloadSpec_DeepCopy :: "'k ExtCopy \<Rightarrow> addr option \<Rightarrow> ('k mem, addr option) state" where
  "WorkloadSpec_DeepCopy X receiver = (case receiver of
     None \<Rightarrow> State_Monad.return None
   | Some a \<Rightarrow> do {
       out \<leftarrow> alloc (SpecCell zero_spec);
       i \<leftarrow> load as_spec zero_spec a;
       copied \<leftarrow> WorkloadSpec_DeepCopyInto X i;
       _ \<leftarrow> store out (SpecCell copied);
       State_Monad.return (Some out)
     })"

definition WorkloadStatus_DeepCopyInto :: "'k ExtCopy \<Rightarrow> StatusMem \<Rightarrow> ('k mem, StatusMem) state" where
  "WorkloadStatus_DeepCopyInto X i = (let out = i in
    case memConditions i of
      None \<Rightarrow> State_Monad.return out
    | Some a \<Rightarrow> do {
        conditions \<leftarrow> load as_conditions [] a;
        slice \<leftarrow> alloc (ConditionsCell (map (conditionDeepCopyInto X) conditions));
        State_Monad.return (out\<lparr>memConditions := Some slice\<rparr>)
      })"

definition WorkloadStatus_DeepCopy :: "'k ExtCopy \<Rightarrow> addr option \<Rightarrow> ('k mem, addr option) state" where
  "WorkloadStatus_DeepCopy X receiver = (case receiver of
     None \<Rightarrow> State_Monad.return None
   | Some a \<Rightarrow> do {
       out \<leftarrow> alloc (StatusCell zero_status);
       i \<leftarrow> load as_status zero_status a;
       copied \<leftarrow> WorkloadStatus_DeepCopyInto X i;
       _ \<leftarrow> store out (StatusCell copied);
       State_Monad.return (Some out)
     })"

definition Workload_DeepCopyInto :: "'k ExtCopy \<Rightarrow> WorkloadMem \<Rightarrow> ('k mem, WorkloadMem) state" where
  "Workload_DeepCopyInto X i = do {
     let out = i;
     let out = out\<lparr>memTypeMeta := memTypeMeta i\<rparr>;
     meta \<leftarrow> extDeepCopyInto X (memObjectMeta i);
     let out = out\<lparr>memObjectMeta := meta\<rparr>;
     spec \<leftarrow> WorkloadSpec_DeepCopyInto X (memSpec i);
     let out = out\<lparr>memSpec := spec\<rparr>;
     status \<leftarrow> WorkloadStatus_DeepCopyInto X (memStatus i);
     State_Monad.return (out\<lparr>memStatus := status\<rparr>)
   }"

definition Workload_DeepCopy :: "'k ExtCopy \<Rightarrow> addr option \<Rightarrow> ('k mem, addr option) state" where
  "Workload_DeepCopy X receiver = (case receiver of
     None \<Rightarrow> State_Monad.return None
   | Some a \<Rightarrow> do {
       out \<leftarrow> alloc (WorkloadCell zero_workload);
       i \<leftarrow> load as_workload zero_workload a;
       copied \<leftarrow> Workload_DeepCopyInto X i;
       _ \<leftarrow> store out (WorkloadCell copied);
       State_Monad.return (Some out)
     })"

text \<open>\<open>DeepCopyObject\<close>: a \<open>nil\<close> interface for a \<open>nil\<close> receiver, never a typed \<open>nil\<close>.\<close>

definition Workload_DeepCopyObject :: "'k ExtCopy \<Rightarrow> addr option \<Rightarrow> ('k mem, addr option) state" where
  "Workload_DeepCopyObject X receiver = do {
     c \<leftarrow> Workload_DeepCopy X receiver;
     (case c of Some c \<Rightarrow> State_Monad.return (Some c) | None \<Rightarrow> State_Monad.return None)
   }"

fun copy_items :: "'k ExtCopy \<Rightarrow> WorkloadMem list \<Rightarrow> ('k mem, WorkloadMem list) state" where
  "copy_items X [] = State_Monad.return []"
| "copy_items X (i # is) = do {
     out \<leftarrow> Workload_DeepCopyInto X i;
     outs \<leftarrow> copy_items X is;
     State_Monad.return (out # outs)
   }"

definition WorkloadList_DeepCopyInto ::
  "'k ExtCopy \<Rightarrow> WorkloadListMem \<Rightarrow> ('k mem, WorkloadListMem) state" where
  "WorkloadList_DeepCopyInto X i = do {
     let out = i;
     let out = out\<lparr>memListTypeMeta := memListTypeMeta i\<rparr>;
     meta \<leftarrow> extDeepCopyInto X (memListMeta i);
     let out = out\<lparr>memListMeta := meta\<rparr>;
     (case memItems i of
        None \<Rightarrow> State_Monad.return out
      | Some a \<Rightarrow> do {
          items \<leftarrow> load as_items [] a;
          slice \<leftarrow> alloc (ItemsCell (replicate (length items) zero_workload));
          outs \<leftarrow> copy_items X items;
          _ \<leftarrow> store slice (ItemsCell outs);
          State_Monad.return (out\<lparr>memItems := Some slice\<rparr>)
        })
   }"

definition WorkloadList_DeepCopy :: "'k ExtCopy \<Rightarrow> addr option \<Rightarrow> ('k mem, addr option) state" where
  "WorkloadList_DeepCopy X receiver = (case receiver of
     None \<Rightarrow> State_Monad.return None
   | Some a \<Rightarrow> do {
       out \<leftarrow> alloc (ListCell zero_list);
       i \<leftarrow> load as_list zero_list a;
       copied \<leftarrow> WorkloadList_DeepCopyInto X i;
       _ \<leftarrow> store out (ListCell copied);
       State_Monad.return (Some out)
     })"

definition WorkloadList_DeepCopyObject :: "'k ExtCopy \<Rightarrow> addr option \<Rightarrow> ('k mem, addr option) state" where
  "WorkloadList_DeepCopyObject X receiver = do {
     c \<leftarrow> WorkloadList_DeepCopy X receiver;
     (case c of Some c \<Rightarrow> State_Monad.return (Some c) | None \<Rightarrow> State_Monad.return None)
   }"

subsection \<open>What the memory holds\<close>

text \<open>\<open>X_at m i v\<close>: in memory \<open>m\<close> the struct \<open>i\<close> stands for the value \<open>v\<close>; \<open>X_addrs i\<close> are the
  addresses it refers to.\<close>

definition pointer_at :: "'k mem \<Rightarrow> ('a \<Rightarrow> 'k cell) \<Rightarrow> addr option \<Rightarrow> 'a option \<Rightarrow> bool" where
  "pointer_at m C p x = (case p of
     None \<Rightarrow> x = None
   | Some a \<Rightarrow> (case x of None \<Rightarrow> False | Some y \<Rightarrow> cells m a = Some (C y)))"

definition spec_at :: "'k mem \<Rightarrow> SpecMem \<Rightarrow> 'k WorkloadSpec \<Rightarrow> bool" where
  "spec_at m i v \<longleftrightarrow> memImage i = Image v \<and> memPort i = Port v \<and>
     memRolloutStrategy i = RolloutStrategy v \<and> memAutoscale i = specAutoscale v \<and>
     pointer_at m ProbeCell (memLivenessProbe i) (LivenessProbe v) \<and>
     pointer_at m ProbeCell (memReadinessProbe i) (ReadinessProbe v) \<and>
     cells m (memResources i) = Some (ResourcesCell (Resources v)) \<and>
     pointer_at m ExtCell (memSecurityContext i) (SecurityContext v) \<and>
     pointer_at m ExtCell (memPodSecurityContext i) (PodSecurityContext v) \<and>
     memIngressClass i = IngressClass v \<and>
     pointer_at m IngressCell (memIngress i) (specIngress v)"

definition spec_addrs :: "SpecMem \<Rightarrow> addr set" where
  "spec_addrs i = set_option (memLivenessProbe i) \<union> set_option (memReadinessProbe i) \<union>
     {memResources i} \<union> set_option (memSecurityContext i) \<union>
     set_option (memPodSecurityContext i) \<union> set_option (memIngress i)"

text \<open>A \<open>nil\<close> slice of conditions is an empty list to its readers.\<close>

definition status_at :: "'k mem \<Rightarrow> StatusMem \<Rightarrow> WorkloadStatus \<Rightarrow> bool" where
  "status_at m i v \<longleftrightarrow> (case memConditions i of
       None \<Rightarrow> Conditions v = []
     | Some a \<Rightarrow> cells m a = Some (ConditionsCell (Conditions v))) \<and>
     memObservedGeneration i = ObservedGeneration v \<and> memReadyReplicas i = ReadyReplicas v"

definition status_addrs :: "StatusMem \<Rightarrow> addr set" where
  "status_addrs i = set_option (memConditions i)"

definition workload_at :: "'k mem \<Rightarrow> WorkloadMem \<Rightarrow> TypeMeta \<times> ObjectMeta \<times> 'k WorkloadSpec \<times> WorkloadStatus \<Rightarrow> bool" where
  "workload_at m i v = (case v of (t, om, spec, status) \<Rightarrow>
     memTypeMeta i = t \<and> cells m (memObjectMeta i) = Some (MetaCell om) \<and>
     spec_at m (memSpec i) spec \<and> status_at m (memStatus i) status)"

definition workload_addrs :: "WorkloadMem \<Rightarrow> addr set" where
  "workload_addrs i = {memObjectMeta i} \<union> spec_addrs (memSpec i) \<union> status_addrs (memStatus i)"

subsection \<open>Contracts and frames\<close>

text \<open>Everything allocated before is as it was.\<close>

definition extends :: "'k mem \<Rightarrow> 'k mem \<Rightarrow> bool" where
  "extends m m' \<longleftrightarrow> nextAddr m \<le> nextAddr m' \<and> (\<forall>a < nextAddr m. cells m' a = cells m a)"

lemma extends_refl [simp]: "extends m m"
  by (simp add: extends_def)

lemma extends_trans: "extends m m' \<Longrightarrow> extends m' m'' \<Longrightarrow> extends m m''"
  by (auto simp: extends_def)

lemma extends_next: "extends m m' \<Longrightarrow> nextAddr m \<le> nextAddr m'"
  by (simp add: extends_def)

lemma extends_cell: "extends m m' \<Longrightarrow> a < nextAddr m \<Longrightarrow> cells m' a = cells m a"
  by (simp add: extends_def)

definition ext_contract :: "'k ExtCopy \<Rightarrow> bool" where
  "ext_contract X \<longleftrightarrow> (\<forall>c. conditionDeepCopyInto X c = c) \<and>
    (\<forall>m a c. cells m a = Some c \<longrightarrow> (case run_state (extDeepCopyInto X a) m of
       (b, m') \<Rightarrow> extends m m' \<and> nextAddr m \<le> b \<and> b < nextAddr m' \<and> cells m' b = Some c))"

text \<open>What a \<open>DeepCopyInto\<close> has to do: leave the old memory alone, and give a struct with the same
  value all of whose addresses are new.\<close>

definition deep_into ::
  "('k mem \<Rightarrow> 'i \<Rightarrow> 'v \<Rightarrow> bool) \<Rightarrow> ('i \<Rightarrow> addr set) \<Rightarrow> ('i \<Rightarrow> ('k mem, 'i) state) \<Rightarrow> bool" where
  "deep_into at addrs into \<longleftrightarrow> (\<forall>m i v. at m i v \<and> addrs i \<subseteq> {..<nextAddr m} \<longrightarrow>
    (case run_state (into i) m of (out, m') \<Rightarrow>
       extends m m' \<and> at m' out v \<and> addrs out \<subseteq> {nextAddr m..<nextAddr m'}))"

text \<open>A value depends on the cells its struct refers to, and on nothing else.\<close>

definition local_value :: "('k mem \<Rightarrow> 'i \<Rightarrow> 'v \<Rightarrow> bool) \<Rightarrow> ('i \<Rightarrow> addr set) \<Rightarrow> bool" where
  "local_value at addrs \<longleftrightarrow>
    (\<forall>m m' i v. at m i v \<and> (\<forall>a \<in> addrs i. cells m' a = cells m a) \<longrightarrow> at m' i v)"

lemma pointer_at_local:
  "pointer_at m C p x \<Longrightarrow> (\<And>a. a \<in> set_option p \<Longrightarrow> cells m' a = cells m a) \<Longrightarrow> pointer_at m' C p x"
  by (auto simp: pointer_at_def split: option.splits)

lemma pointer_at_agree:
  "pointer_at m C p x \<Longrightarrow> \<forall>a \<in> A. cells m' a = cells m a \<Longrightarrow> set_option p \<subseteq> A \<Longrightarrow> pointer_at m' C p x"
  by (blast intro: pointer_at_local)

lemma spec_addrs_parts:
  "set_option (memLivenessProbe i) \<subseteq> spec_addrs i" "set_option (memReadinessProbe i) \<subseteq> spec_addrs i"
  "set_option (memSecurityContext i) \<subseteq> spec_addrs i" "set_option (memPodSecurityContext i) \<subseteq> spec_addrs i"
  "set_option (memIngress i) \<subseteq> spec_addrs i" "memResources i \<in> spec_addrs i"
  by (auto simp: spec_addrs_def)

lemma spec_local: "local_value spec_at spec_addrs"
  unfolding local_value_def
proof (intro allI impI)
  fix m m' :: "'k mem" and i v
  assume "spec_at m i v \<and> (\<forall>a \<in> spec_addrs i. cells m' a = cells m a)"
  then have at: "spec_at m i v" and eq: "\<forall>a \<in> spec_addrs i. cells m' a = cells m a" by simp_all
  have "pointer_at m ProbeCell (memLivenessProbe i) (LivenessProbe v)"
    "pointer_at m ProbeCell (memReadinessProbe i) (ReadinessProbe v)"
    "pointer_at m ExtCell (memSecurityContext i) (SecurityContext v)"
    "pointer_at m ExtCell (memPodSecurityContext i) (PodSecurityContext v)"
    "pointer_at m IngressCell (memIngress i) (specIngress v)"
    using at unfolding spec_at_def by blast+
  note this [THEN pointer_at_agree, OF eq]
  note pointers = this(1) [OF spec_addrs_parts(1)] this(2) [OF spec_addrs_parts(2)]
    this(3) [OF spec_addrs_parts(3)] this(4) [OF spec_addrs_parts(4)] this(5) [OF spec_addrs_parts(5)]
  have "cells m' (memResources i) = cells m (memResources i)"
    using eq spec_addrs_parts(6) by blast
  with at show "spec_at m' i v" unfolding spec_at_def by (simp only: pointers simp_thms)
qed

lemma status_local: "local_value status_at status_addrs"
  by (auto simp: local_value_def status_at_def status_addrs_def split: option.splits)

lemma localD:
  "local_value at addrs \<Longrightarrow> at m i v \<Longrightarrow> (\<And>a. a \<in> addrs i \<Longrightarrow> cells m' a = cells m a) \<Longrightarrow> at m' i v"
  unfolding local_value_def by blast

lemma workload_local: "local_value workload_at workload_addrs"
  unfolding local_value_def
proof (intro allI impI)
  fix m m' :: "'k mem" and i v
  assume h: "workload_at m i v \<and> (\<forall>a \<in> workload_addrs i. cells m' a = cells m a)"
  obtain t om spec status where v: "v = (t, om, spec, status)" by (cases v)
  from h v have "spec_at m (memSpec i) spec" and "status_at m (memStatus i) status"
    by (simp_all add: workload_at_def)
  then have "spec_at m' (memSpec i) spec" and "status_at m' (memStatus i) status"
    using h by (auto simp: workload_addrs_def intro: localD [OF spec_local] localD [OF status_local])
  moreover have "cells m' (memObjectMeta i) = cells m (memObjectMeta i)"
    using h by (simp add: workload_addrs_def)
  ultimately show "workload_at m' i v" using h v by (simp add: workload_at_def)
qed

lemma local_extends:
  "local_value at addrs \<Longrightarrow> extends m m' \<Longrightarrow> at m i v \<Longrightarrow> addrs i \<subseteq> {..<nextAddr m} \<Longrightarrow> at m' i v"
  unfolding local_value_def extends_def by blast

subsection \<open>The copies are deep\<close>

lemma deep_run:
  assumes "deep_into at addrs into" and "local_value at addrs" and "extends m0 m"
    and "at m0 i v" and "addrs i \<subseteq> {..<nextAddr m0}"
  obtains out m' where "run_state (into i) m = (out, m')" and "extends m m'" and "at m' out v"
    and "addrs out \<subseteq> {nextAddr m..<nextAddr m'}"
proof -
  have "at m i v" using assms(2-5) by (rule local_extends)
  moreover have "addrs i \<subseteq> {..<nextAddr m}" using assms(3,5) extends_next by fastforce
  ultimately have "case run_state (into i) m of (out, m') \<Rightarrow>
      extends m m' \<and> at m' out v \<and> addrs out \<subseteq> {nextAddr m..<nextAddr m'}"
    using assms(1) [unfolded deep_into_def, rule_format, of m i v] by simp
  then show thesis using that by (cases "run_state (into i) m") simp
qed

lemma deep_intoI:
  assumes "\<And>m i v. at m i v \<Longrightarrow> addrs i \<subseteq> {..<nextAddr m} \<Longrightarrow>
    \<exists>out m'. run_state (into i) m = (out, m') \<and> extends m m' \<and> at m' out v \<and>
      addrs out \<subseteq> {nextAddr m..<nextAddr m'}"
  shows "deep_into at addrs into"
  unfolding deep_into_def using assms by fastforce

abbreviation probe_at :: "'k mem \<Rightarrow> addr option \<Rightarrow> Probe option \<Rightarrow> bool" where
  "probe_at m \<equiv> pointer_at m ProbeCell"

abbreviation ingress_at :: "'k mem \<Rightarrow> addr option \<Rightarrow> IngressConfig option \<Rightarrow> bool" where
  "ingress_at m \<equiv> pointer_at m IngressCell"

abbreviation context_at :: "'k mem \<Rightarrow> addr option \<Rightarrow> 'k option \<Rightarrow> bool" where
  "context_at m \<equiv> pointer_at m ExtCell"

abbreviation cell_at :: "'k mem \<Rightarrow> addr \<Rightarrow> 'k cell \<Rightarrow> bool" where
  "cell_at m a c \<equiv> cells m a = Some c"

lemma pointer_local: "local_value (\<lambda>m. pointer_at m C) set_option"
  unfolding local_value_def by (blast intro: pointer_at_local)

lemma cell_local: "local_value cell_at (\<lambda>a. {a})"
  by (simp add: local_value_def)

lemma new_pointer_run:
  assumes "cells m a = Some (C y)" and "sel (C y) = Some y" and "a < nextAddr m"
  shows "run_state (do {
      out \<leftarrow> alloc c;
      i \<leftarrow> load sel zero a;
      _ \<leftarrow> store out (C i);
      State_Monad.return (Some out)
    }) m = (Some (nextAddr m), m\<lparr>cells := (cells m)(nextAddr m := Some (C y)), nextAddr := nextAddr m + 1\<rparr>)"
  using assms by (simp add: alloc_def load_def store_def)

lemma new_pointer_deep:
  assumes copy: "\<And>p. copy p = (case p of
      None \<Rightarrow> State_Monad.return None
    | Some a \<Rightarrow> do {
        out \<leftarrow> alloc c;
        i \<leftarrow> load sel zero a;
        _ \<leftarrow> store out (C i);
        State_Monad.return (Some out)
      })"
    and sel: "\<And>y. sel (C y) = Some y"
  shows "deep_into (\<lambda>m. pointer_at m C) set_option copy"
proof (rule deep_intoI)
  fix m :: "'a mem" and p x
  assume at: "pointer_at m C p x" and addrs: "set_option p \<subseteq> {..<nextAddr m}"
  show "\<exists>q m'. run_state (copy p) m = (q, m') \<and> extends m m' \<and> pointer_at m' C q x \<and>
      set_option q \<subseteq> {nextAddr m..<nextAddr m'}"
  proof (cases p)
    case None
    with at show ?thesis by (simp add: copy pointer_at_def)
  next
    case (Some a)
    with at obtain y where x: "x = Some y" and a: "cells m a = Some (C y)"
      by (auto simp: pointer_at_def split: option.splits)
    with Some addrs new_pointer_run [of m a C y sel c zero] sel show ?thesis
      by (simp add: copy pointer_at_def extends_def del: run_state_bind)
  qed
qed

lemma probe_deep: "deep_into probe_at set_option copy_probe"
  by (rule new_pointer_deep [OF copy_probe_def]) simp

lemma ingress_deep: "deep_into ingress_at set_option copy_ingress"
  by (rule new_pointer_deep [OF copy_ingress_def]) simp

lemma ext_deep: "ext_contract X \<Longrightarrow> deep_into cell_at (\<lambda>a. {a}) (extDeepCopyInto X)"
  unfolding ext_contract_def deep_into_def by (simp add: case_prod_beta)

lemma context_deep:
  assumes "ext_contract X"
  shows "deep_into context_at set_option (copy_context X)"
proof (rule deep_intoI)
  fix m :: "'a mem" and p x
  assume at: "context_at m p x" and addrs: "set_option p \<subseteq> {..<nextAddr m}"
  show "\<exists>q m'. run_state (copy_context X p) m = (q, m') \<and> extends m m' \<and> context_at m' q x \<and>
      set_option q \<subseteq> {nextAddr m..<nextAddr m'}"
  proof (cases p)
    case None
    with at show ?thesis by (simp add: copy_context_def pointer_at_def)
  next
    case (Some a)
    with at obtain y where x: "x = Some y" and a: "cell_at m a (ExtCell y)"
      by (auto simp: pointer_at_def split: option.splits)
    from Some addrs have "{a} \<subseteq> {..<nextAddr m}" by simp
    then obtain b m' where "run_state (extDeepCopyInto X a) m = (b, m')" "extends m m'"
      "cell_at m' b (ExtCell y)" "{b} \<subseteq> {nextAddr m..<nextAddr m'}"
      using deep_run [OF ext_deep [OF assms] cell_local extends_refl, of m a "ExtCell y"] a by blast
    with Some x show ?thesis by (simp add: copy_context_def pointer_at_def)
  qed
qed

text \<open>Copying two parts one after the other, and a struct by its parts.\<close>

definition then_copy ::
  "('i \<Rightarrow> ('k mem, 'i) state) \<Rightarrow> ('j \<Rightarrow> ('k mem, 'j) state) \<Rightarrow> 'i \<times> 'j \<Rightarrow> ('k mem, 'i \<times> 'j) state" where
  "then_copy f g p = do { x \<leftarrow> f (fst p); y \<leftarrow> g (snd p); State_Monad.return (x, y) }"

definition both_at :: "('k mem \<Rightarrow> 'i \<Rightarrow> 'v \<Rightarrow> bool) \<Rightarrow> ('k mem \<Rightarrow> 'j \<Rightarrow> 'u \<Rightarrow> bool)
   \<Rightarrow> 'k mem \<Rightarrow> 'i \<times> 'j \<Rightarrow> 'v \<times> 'u \<Rightarrow> bool" where
  "both_at at at' m p v \<longleftrightarrow> at m (fst p) (fst v) \<and> at' m (snd p) (snd v)"

definition both_addrs :: "('i \<Rightarrow> addr set) \<Rightarrow> ('j \<Rightarrow> addr set) \<Rightarrow> 'i \<times> 'j \<Rightarrow> addr set" where
  "both_addrs addrs addrs' p = addrs (fst p) \<union> addrs' (snd p)"

lemma local_both:
  "local_value at addrs \<Longrightarrow> local_value at' addrs' \<Longrightarrow> local_value (both_at at at') (both_addrs addrs addrs')"
  unfolding local_value_def both_at_def both_addrs_def by blast

lemma range_widen:
  "addrs \<subseteq> {k..<n} \<Longrightarrow> l \<le> k \<Longrightarrow> n \<le> n' \<Longrightarrow> addrs \<subseteq> {l..<n' :: addr}"
  by fastforce

lemma range_below: "addrs \<subseteq> {k..<n :: addr} \<Longrightarrow> addrs \<subseteq> {..<n}"
  by fastforce

lemma deep_both:
  assumes f: "deep_into at addrs f" "local_value at addrs"
    and g: "deep_into at' addrs' g" "local_value at' addrs'"
  shows "deep_into (both_at at at') (both_addrs addrs addrs') (then_copy f g)"
proof (rule deep_intoI)
  fix m i v
  assume at: "both_at at at' m i v" and addrs: "both_addrs addrs addrs' i \<subseteq> {..<nextAddr m}"
  then have 1: "at m (fst i) (fst v)" "addrs (fst i) \<subseteq> {..<nextAddr m}"
    and 2: "at' m (snd i) (snd v)" "addrs' (snd i) \<subseteq> {..<nextAddr m}"
    by (simp_all add: both_at_def both_addrs_def)
  obtain x m1 where x: "run_state (f (fst i)) m = (x, m1)" "extends m m1" "at m1 x (fst v)"
    "addrs x \<subseteq> {nextAddr m..<nextAddr m1}"
    by (rule deep_run [OF f extends_refl 1])
  obtain y m2 where y: "run_state (g (snd i)) m1 = (y, m2)" "extends m1 m2" "at' m2 y (snd v)"
    "addrs' y \<subseteq> {nextAddr m1..<nextAddr m2}"
    by (rule deep_run [OF g x(2) 2])
  have "at m2 x (fst v)" by (rule local_extends [OF f(2) y(2) x(3) range_below [OF x(4)]])
  moreover have "addrs x \<subseteq> {nextAddr m..<nextAddr m2}" "addrs' y \<subseteq> {nextAddr m..<nextAddr m2}"
    using x(4) y(4) extends_next [OF x(2)] extends_next [OF y(2)] by (auto intro: range_widen)
  ultimately show "\<exists>out m'. run_state (then_copy f g i) m = (out, m') \<and> extends m m' \<and>
      both_at at at' m' out v \<and> both_addrs addrs addrs' out \<subseteq> {nextAddr m..<nextAddr m'}"
    using x(1) y(1,3) extends_trans [OF x(2) y(2)]
    by (simp add: then_copy_def both_at_def both_addrs_def)
qed

lemma deep_struct:
  assumes f: "deep_into at addrs f"
    and into: "\<And>i. into i = do { x \<leftarrow> f (parts i); State_Monad.return (rebuild i x) }"
    and at: "\<And>m i v. at' m i v \<longleftrightarrow> at m (parts i) (vals v) \<and> plain i v"
    and parts: "\<And>i x. parts (rebuild i x) = x" and plain: "\<And>i x v. plain (rebuild i x) v = plain i v"
    and addrs: "\<And>i. addrs' i = addrs (parts i)"
  shows "deep_into at' addrs' into"
proof (rule deep_intoI)
  fix m i v
  assume "at' m i v" and "addrs' i \<subseteq> {..<nextAddr m}"
  then have h: "at m (parts i) (vals v)" "addrs (parts i) \<subseteq> {..<nextAddr m}" "plain i v"
    by (simp_all add: at addrs)
  then have "case run_state (f (parts i)) m of (out, m') \<Rightarrow>
      extends m m' \<and> at m' out (vals v) \<and> addrs out \<subseteq> {nextAddr m..<nextAddr m'}"
    using f [unfolded deep_into_def, rule_format, of m "parts i" "vals v"] by simp
  with h(3) show "\<exists>out m'. run_state (into i) m = (out, m') \<and> extends m m' \<and> at' m' out v \<and>
      addrs' out \<subseteq> {nextAddr m..<nextAddr m'}"
    by (auto simp: into at addrs parts plain split: prod.splits)
qed

definition spec_parts where
  "spec_parts i = (memLivenessProbe i, memReadinessProbe i, memResources i, memSecurityContext i,
     memPodSecurityContext i, memIngress i)"

definition spec_values where
  "spec_values v = (LivenessProbe v, ReadinessProbe v, ResourcesCell (Resources v), SecurityContext v,
     PodSecurityContext v, specIngress v)"

definition spec_rebuild where
  "spec_rebuild i x = (case x of (q1, q2, q3, q4, q5, q6) \<Rightarrow> i\<lparr>memLivenessProbe := q1,
     memReadinessProbe := q2, memResources := q3, memSecurityContext := q4,
     memPodSecurityContext := q5, memIngress := q6\<rparr>)"

definition spec_plain where
  "spec_plain i v \<longleftrightarrow> memImage i = Image v \<and> memPort i = Port v \<and>
     memRolloutStrategy i = RolloutStrategy v \<and> memAutoscale i = specAutoscale v \<and>
     memIngressClass i = IngressClass v"

lemma spec_deep:
  assumes "ext_contract X"
  shows "deep_into spec_at spec_addrs (WorkloadSpec_DeepCopyInto X)"
proof -
  note local = pointer_local cell_local local_both
  note parts = probe_deep ingress_deep ext_deep [OF assms] context_deep [OF assms]
  have "deep_into (both_at probe_at (both_at probe_at (both_at cell_at (both_at context_at
      (both_at context_at ingress_at)))))
    (both_addrs set_option (both_addrs set_option (both_addrs (\<lambda>a. {a}) (both_addrs set_option
      (both_addrs set_option set_option)))))
    (then_copy copy_probe (then_copy copy_probe (then_copy (extDeepCopyInto X)
      (then_copy (copy_context X) (then_copy (copy_context X) copy_ingress)))))"
    by (intro deep_both parts local)
  then show ?thesis
  proof (rule deep_struct [where parts = spec_parts and vals = spec_values and
        rebuild = spec_rebuild and plain = spec_plain])
    show "WorkloadSpec_DeepCopyInto X i = do {
        x \<leftarrow> then_copy copy_probe (then_copy copy_probe (then_copy (extDeepCopyInto X)
          (then_copy (copy_context X) (then_copy (copy_context X) copy_ingress)))) (spec_parts i);
        State_Monad.return (spec_rebuild i x)
      }" for i
      by (simp add: WorkloadSpec_DeepCopyInto_def then_copy_def spec_parts_def spec_rebuild_def Let_def)
  qed (auto simp: spec_at_def spec_parts_def spec_values_def spec_plain_def spec_rebuild_def both_at_def
      both_addrs_def spec_addrs_def split: prod.splits)
qed

lemma status_deep:
  assumes "ext_contract X"
  shows "deep_into status_at status_addrs (WorkloadStatus_DeepCopyInto X)"
proof (rule deep_intoI)
  fix m :: "'a mem" and i v
  assume at: "status_at m i v" and addrs: "status_addrs i \<subseteq> {..<nextAddr m}"
  show "\<exists>out m'. run_state (WorkloadStatus_DeepCopyInto X i) m = (out, m') \<and> extends m m' \<and>
      status_at m' out v \<and> status_addrs out \<subseteq> {nextAddr m..<nextAddr m'}"
  proof (cases "memConditions i")
    case None
    with at show ?thesis
      by (simp add: WorkloadStatus_DeepCopyInto_def status_at_def status_addrs_def)
  next
    case (Some a)
    have "map (conditionDeepCopyInto X) cs = cs" for cs
      using assms by (simp add: ext_contract_def map_idI)
    with Some at show ?thesis
      by (auto simp: WorkloadStatus_DeepCopyInto_def status_at_def status_addrs_def load_def alloc_def
          extends_def)
  qed
qed

lemma workload_deep:
  assumes "ext_contract X"
  shows "deep_into workload_at workload_addrs (Workload_DeepCopyInto X)"
proof -
  note local = cell_local spec_local status_local local_both
  have "deep_into (both_at cell_at (both_at spec_at status_at))
    (both_addrs (\<lambda>a. {a}) (both_addrs spec_addrs status_addrs))
    (then_copy (extDeepCopyInto X)
      (then_copy (WorkloadSpec_DeepCopyInto X) (WorkloadStatus_DeepCopyInto X)))"
    by (intro deep_both ext_deep spec_deep status_deep assms local)
  then show ?thesis
  proof (rule deep_struct [where
        parts = "\<lambda>i. (memObjectMeta i, memSpec i, memStatus i)" and
        vals = "\<lambda>v. (MetaCell (fst (snd v)), fst (snd (snd v)), snd (snd (snd v)))" and
        rebuild = "\<lambda>i x. i\<lparr>memObjectMeta := fst x, memSpec := fst (snd x), memStatus := snd (snd x)\<rparr>" and
        plain = "\<lambda>i v. memTypeMeta i = fst v"])
    show "Workload_DeepCopyInto X i = do {
        x \<leftarrow> then_copy (extDeepCopyInto X) (then_copy (WorkloadSpec_DeepCopyInto X)
          (WorkloadStatus_DeepCopyInto X)) (memObjectMeta i, memSpec i, memStatus i);
        State_Monad.return (i\<lparr>memObjectMeta := fst x, memSpec := fst (snd x), memStatus := snd (snd x)\<rparr>)
      }" for i
      by (simp add: Workload_DeepCopyInto_def then_copy_def Let_def)
  qed (auto simp: workload_at_def both_at_def both_addrs_def workload_addrs_def)
qed

text \<open>\<open>DeepCopy\<close>: allocate, copy into, store.\<close>

lemma new_copy_deep:
  assumes deep: "deep_into at addrs into" and local: "local_value at addrs"
    and cell: "cells m a = Some (C i)" and sel: "sel (C i) = Some i"
    and at: "at m i v" and below: "a < nextAddr m" "addrs i \<subseteq> {..<nextAddr m}"
  shows "\<exists>out m'. run_state (do {
        b \<leftarrow> alloc c;
        i \<leftarrow> load sel zero a;
        copied \<leftarrow> into i;
        _ \<leftarrow> store b (C copied);
        State_Monad.return (Some b)
      }) m = (Some (nextAddr m), m') \<and> extends m m' \<and> cells m' (nextAddr m) = Some (C out) \<and>
    at m' out v \<and> addrs out \<subseteq> {nextAddr m<..<nextAddr m'}"
proof -
  define m1 where "m1 = m\<lparr>cells := (cells m)(nextAddr m := Some c), nextAddr := nextAddr m + 1\<rparr>"
  have e1: "extends m m1" by (simp add: m1_def extends_def)
  obtain out m2 where 2: "run_state (into i) m1 = (out, m2)" "extends m1 m2" "at m2 out v"
    "addrs out \<subseteq> {nextAddr m1..<nextAddr m2}"
    by (rule deep_run [OF deep local e1 at below(2)])
  define m3 where "m3 = m2\<lparr>cells := (cells m2)(nextAddr m := Some (C out))\<rparr>"
  have new: "nextAddr m < nextAddr m1" by (simp add: m1_def)
  have "at m3 out v"
    by (rule localD [OF local 2(3)]) (use 2(4) new in \<open>auto simp: m3_def\<close>)
  moreover have "extends m m3"
    using extends_trans [OF e1 2(2)] by (auto simp: extends_def m3_def)
  moreover have "addrs out \<subseteq> {nextAddr m<..<nextAddr m3}"
    using 2(4) new by (fastforce simp: m3_def)
  moreover have r1: "run_state (alloc c) m = (nextAddr m, m1)" by (simp add: alloc_def m1_def)
  have r2: "run_state (load sel zero a) m1 = (i, m1)"
    using cell below(1) sel by (simp add: load_def m1_def)
  have r4: "run_state (store (nextAddr m) (C out)) m2 = ((), m3)" by (simp add: store_def m3_def)
  have "run_state (do {
        b \<leftarrow> alloc c;
        i \<leftarrow> load sel zero a;
        copied \<leftarrow> into i;
        _ \<leftarrow> store b (C copied);
        State_Monad.return (Some b)
      }) m = (Some (nextAddr m), m3)"
    unfolding run_bind [OF r1] run_bind [OF r2] run_bind [OF 2(1)] run_bind [OF r4] by simp
  moreover have "cells m3 (nextAddr m) = Some (C out)" by (simp add: m3_def)
  ultimately show ?thesis by blast
qed

text \<open>Property C27: a deep copy is isolated from its original.  Copying a Workload whose struct and
  everything it refers to are in memory gives the address of a new struct with the same value; the copy
  writes none of the old cells; and whatever is later done to any old cell, such as a write through the
  original's conditions, probes or metadata, the copy still stands for the value it had when it was
  taken.  This is what lets the controller patch the status against its snapshot.\<close>
theorem deep_copy_is_isolated:
  assumes "ext_contract X" and "cells m a = Some (WorkloadCell i)" and "workload_at m i v"
    and "a < nextAddr m" and "workload_addrs i \<subseteq> {..<nextAddr m}"
  shows "\<exists>b out m'. run_state (Workload_DeepCopy X (Some a)) m = (Some b, m') \<and>
    extends m m' \<and> nextAddr m \<le> b \<and> cells m' b = Some (WorkloadCell out) \<and> workload_at m' out v \<and>
    (\<forall>later. (\<forall>c \<ge> nextAddr m. cells later c = cells m' c) \<longrightarrow>
      cells later b = Some (WorkloadCell out) \<and> workload_at later out v)"
proof -
  obtain out m' where run: "run_state (Workload_DeepCopy X (Some a)) m = (Some (nextAddr m), m')"
    and m': "extends m m'" "cells m' (nextAddr m) = Some (WorkloadCell out)" "workload_at m' out v"
    "workload_addrs out \<subseteq> {nextAddr m<..<nextAddr m'}"
    using new_copy_deep [where C = WorkloadCell and sel = as_workload and
        c = "WorkloadCell zero_workload" and zero = zero_workload,
        OF workload_deep [OF assms(1)] workload_local assms(2) _ assms(3-5)]
    by (auto simp: Workload_DeepCopy_def)
  have "workload_at later out v" if "\<forall>c \<ge> nextAddr m. cells later c = cells m' c" for later
    by (rule localD [OF workload_local m'(3)]) (use m'(4) that in fastforce)
  with run m' show ?thesis by (intro exI [of _ "nextAddr m"] exI [of _ out] exI [of _ m']) simp
qed

subsection \<open>Lists and objects\<close>

definition items_at :: "'k mem \<Rightarrow> WorkloadMem list \<Rightarrow>
    (TypeMeta \<times> ObjectMeta \<times> 'k WorkloadSpec \<times> WorkloadStatus) list \<Rightarrow> bool" where
  "items_at m is vs \<longleftrightarrow> list_all2 (workload_at m) is vs"

definition items_addrs :: "WorkloadMem list \<Rightarrow> addr set" where
  "items_addrs is = (\<Union>i \<in> set is. workload_addrs i)"

lemma items_local: "local_value items_at items_addrs"
  unfolding local_value_def items_at_def items_addrs_def
proof (intro allI impI)
  fix m m' :: "'k mem" and "is" vs
  assume h: "list_all2 (workload_at m) is vs \<and>
    (\<forall>a \<in> \<Union> (workload_addrs ` set is). cells m' a = cells m a)"
  show "list_all2 (workload_at m') is vs"
    by (rule list.rel_mono_strong [OF conjunct1 [OF h]])
      (use h in \<open>blast intro: localD [OF workload_local]\<close>)
qed

lemma items_deep:
  assumes "ext_contract X"
  shows "deep_into items_at items_addrs (copy_items X)"
proof (rule deep_intoI)
  fix m :: "'a mem" and "is" vs
  assume "items_at m is vs" and "items_addrs is \<subseteq> {..<nextAddr m}"
  then show "\<exists>out m'. run_state (copy_items X is) m = (out, m') \<and> extends m m' \<and> items_at m' out vs \<and>
      items_addrs out \<subseteq> {nextAddr m..<nextAddr m'}"
  proof (induction "is" arbitrary: vs m)
    case Nil
    then show ?case by (simp add: items_at_def items_addrs_def)
  next
    case (Cons i "is")
    from Cons.prems obtain u us where vs: "vs = u # us" and at: "workload_at m i u" "items_at m is us"
      by (auto simp: items_at_def list_all2_Cons1)
    from Cons.prems(2) have addrs: "workload_addrs i \<subseteq> {..<nextAddr m}" "items_addrs is \<subseteq> {..<nextAddr m}"
      by (auto simp: items_addrs_def)
    obtain x m1 where 1: "run_state (Workload_DeepCopyInto X i) m = (x, m1)" "extends m m1"
      "workload_at m1 x u" "workload_addrs x \<subseteq> {nextAddr m..<nextAddr m1}"
      by (rule deep_run [OF workload_deep [OF assms] workload_local extends_refl at(1) addrs(1)])
    have "items_at m1 is us" by (rule local_extends [OF items_local 1(2) at(2) addrs(2)])
    moreover have "items_addrs is \<subseteq> {..<nextAddr m1}" using addrs(2) extends_next [OF 1(2)] by fastforce
    ultimately obtain xs m2 where 2: "run_state (copy_items X is) m1 = (xs, m2)" "extends m1 m2"
      "items_at m2 xs us" "items_addrs xs \<subseteq> {nextAddr m1..<nextAddr m2}"
      using Cons.IH by blast
    have "workload_at m2 x u" by (rule local_extends [OF workload_local 2(2) 1(3) range_below [OF 1(4)]])
    moreover have "workload_addrs x \<subseteq> {nextAddr m..<nextAddr m2}"
      "items_addrs xs \<subseteq> {nextAddr m..<nextAddr m2}"
      using 1(4) 2(4) extends_next [OF 1(2)] extends_next [OF 2(2)] by (auto intro: range_widen)
    ultimately show ?case
      using 1(1) 2(1,3) extends_trans [OF 1(2) 2(2)] vs
      by (simp add: items_at_def items_addrs_def)
  qed
qed

lemma nil_copies_to_nil:
  "run_state (Workload_DeepCopy X None) m = (None, m)"
  "run_state (Workload_DeepCopyObject X None) m = (None, m)"
  "run_state (WorkloadList_DeepCopyObject X None) m = (None, m)"
  by (simp_all add: Workload_DeepCopy_def Workload_DeepCopyObject_def WorkloadList_DeepCopyObject_def
      WorkloadList_DeepCopy_def)

lemma DeepCopyObject_DeepCopy:
  "run_state (Workload_DeepCopyObject X r) m = run_state (Workload_DeepCopy X r) m"
  by (simp add: Workload_DeepCopyObject_def split: prod.split option.split)

subsection \<open>A memory to try the property on\<close>

definition sample_ext :: "unit ExtCopy" where
  "sample_ext = \<lparr>extDeepCopyInto = (\<lambda>a. State (\<lambda>m. (nextAddr m,
      m\<lparr>cells := (cells m)(nextAddr m := cells m a), nextAddr := nextAddr m + 1\<rparr>))),
    conditionDeepCopyInto = (\<lambda>c. c)\<rparr>"

lemma sample_ext_contract: "ext_contract sample_ext"
  by (simp add: ext_contract_def sample_ext_def extends_def)

definition sample_condition :: Condition where
  "sample_condition = \<lparr>condType = ''Ready'', condStatus = ConditionTrue, condReason = ''Reconciled'',
    condMessage = [], condObservedGeneration = 1, LastTransitionTime = 0\<rparr>"

definition sample_struct :: WorkloadMem where
  "sample_struct = zero_workload\<lparr>memSpec := zero_spec\<lparr>memResources := 1, memLivenessProbe := Some 4\<rparr>,
    memStatus := zero_status\<lparr>memConditions := Some 2\<rparr>\<rparr>"

definition sample_object_meta :: ObjectMeta where
  "sample_object_meta = \<lparr>Kind = [], APIVersion = [], metaName = ''demo'', metaNamespace = ''apps'',
    UID = [], Generation = 1, Labels = None, Annotations = None, OwnerReferences = []\<rparr>"

definition sample_resources :: "unit ResourceRequirements" where
  "sample_resources = \<lparr>Limits = None, Requests = None, Claims = None\<rparr>"

definition sample_mem :: "unit mem" where
  "sample_mem = \<lparr>cells = [0 \<mapsto> MetaCell sample_object_meta, 1 \<mapsto> ResourcesCell sample_resources,
    2 \<mapsto> ConditionsCell [sample_condition], 3 \<mapsto> WorkloadCell sample_struct, 4 \<mapsto> ProbeCell zero_probe],
    nextAddr = 5\<rparr>"

definition sample_value :: "TypeMeta \<times> ObjectMeta \<times> unit WorkloadSpec \<times> WorkloadStatus" where
  "sample_value = (\<lparr>Kind = [], APIVersion = []\<rparr>, sample_object_meta,
    \<lparr>Image = [], Port = 0, RolloutStrategy = [], specAutoscale = zero_autoscale,
     LivenessProbe = Some zero_probe, ReadinessProbe = None, Resources = sample_resources,
     SecurityContext = None, PodSecurityContext = None, IngressClass = [], specIngress = None\<rparr>,
    \<lparr>Conditions = [sample_condition], ObservedGeneration = 0, ReadyReplicas = 0\<rparr>)"

text \<open>The conditions of the original are overwritten in place after the copy was taken.\<close>

theorem deep_copy_witness:
  "\<exists>b out m'. run_state (Workload_DeepCopy sample_ext (Some 3)) sample_mem = (Some b, m') \<and>
    workload_at (m'\<lparr>cells := (cells m')(2 := Some (ConditionsCell []))\<rparr>) out sample_value"
proof -
  note defs = sample_mem_def sample_struct_def sample_value_def zero_workload_def zero_spec_def
    zero_status_def
  have "cells sample_mem 3 = Some (WorkloadCell sample_struct)" by (simp add: sample_mem_def)
  moreover have "workload_at sample_mem sample_struct sample_value"
    by (simp add: defs workload_at_def spec_at_def status_at_def pointer_at_def)
  moreover have "workload_addrs sample_struct \<subseteq> {..<nextAddr sample_mem}"
    by (simp add: defs workload_addrs_def spec_addrs_def status_addrs_def)
  moreover have "3 < nextAddr sample_mem" by (simp add: sample_mem_def)
  ultimately obtain b out m' where "run_state (Workload_DeepCopy sample_ext (Some 3)) sample_mem = (Some b, m')"
    and "\<forall>later. (\<forall>c \<ge> nextAddr sample_mem. cells later c = cells m' c) \<longrightarrow>
      cells later b = Some (WorkloadCell out) \<and> workload_at later out sample_value"
    using deep_copy_is_isolated [OF sample_ext_contract] by blast
  moreover from this(2) [rule_format, of "m'\<lparr>cells := (cells m')(2 := Some (ConditionsCell []))\<rparr>"]
  have "workload_at (m'\<lparr>cells := (cells m')(2 := Some (ConditionsCell []))\<rparr>) out sample_value"
    by (simp add: sample_mem_def)
  ultimately show ?thesis by blast
qed

end
