(* ===== verification/Go_Float.thy ===== *)
theory Go_Float
  imports Complex_Main "HOL-Library.Log_Nat" Go_Strings
begin

text \<open>
  Go's \<open>float64\<close> and \<open>strconv.ParseFloat\<close> on it: decimal and hexadecimal numbers with sign, point, exponent
  and underscores, \<open>Inf\<close>, \<open>Infinity\<close> and \<open>NaN\<close> in any case, rounding to the nearest value with ties to even,
  and infinity out of range.  A finite value is the rational it denotes; the sign of zero, which no
  comparison sees, is left out.
\<close>

datatype float64 = NaN | Inf bool | Finite rat

text \<open>\<open>x < y\<close>; \<open>Inf True\<close> is the negative infinity.\<close>

fun less64 :: "float64 \<Rightarrow> float64 \<Rightarrow> bool" where
  "less64 (Finite x) (Finite y) = (x < y)"
| "less64 (Inf True) (Finite _) = True"
| "less64 (Finite _) (Inf False) = True"
| "less64 (Inf True) (Inf False) = True"
| "less64 _ _ = False"

subsection \<open>Reading a number\<close>

text \<open>\<open>special\<close>, on the whole text: a sign is allowed with infinity only.\<close>

definition sign_off :: "string \<Rightarrow> bool \<times> string" where
  "sign_off s = (case s of
     [] \<Rightarrow> (False, [])
   | c # cs \<Rightarrow> if c = CHR ''+'' then (False, cs) else if c = CHR ''-'' then (True, cs) else (False, s))"

definition special :: "string \<Rightarrow> float64 option" where
  "special s = (let (neg, t) = sign_off s in
     if ToLower t \<in> {''inf'', ''infinity''} then Some (Inf neg)
     else if ToLower s = ''nan'' then Some NaN else None)"

text \<open>\<open>readFloat\<close>: the digits with at most one point, and how many of them stand behind it.\<close>

definition digit_of :: "bool \<Rightarrow> char \<Rightarrow> int option" where
  "digit_of hex c =
    (if is_digit c then Some (int (byte c) - 48)
     else if hex \<and> 97 \<le> byte (lower_char c) \<and> byte (lower_char c) \<le> 102
     then Some (int (byte (lower_char c)) - 87) else None)"

fun scan_digits :: "bool \<Rightarrow> string \<Rightarrow> int \<Rightarrow> nat \<Rightarrow> bool \<Rightarrow> bool \<Rightarrow> int \<times> nat \<times> bool \<times> string" where
  "scan_digits hex [] m k sawdot sawdigits = (m, k, sawdigits, [])"
| "scan_digits hex (c # cs) m k sawdot sawdigits =
    (if c = CHR ''_'' then scan_digits hex cs m k sawdot sawdigits
     else if c = CHR ''.''
     then (if sawdot then (m, k, sawdigits, c # cs) else scan_digits hex cs m k True sawdigits)
     else case digit_of hex c of
         Some d \<Rightarrow> scan_digits hex cs ((if hex then 16 else 10) * m + d) (if sawdot then k + 1 else k) sawdot True
       | None \<Rightarrow> (m, k, sawdigits, c # cs))"

text \<open>The digits of the exponent; beyond ten thousand they no longer count.\<close>

fun scan_exponent :: "string \<Rightarrow> int \<Rightarrow> int \<times> string" where
  "scan_exponent [] e = (e, [])"
| "scan_exponent (c # cs) e =
    (if c = CHR ''_'' then scan_exponent cs e
     else if is_digit c then scan_exponent cs (if e < 10000 then e * 10 + (int (byte c) - 48) else e)
     else (e, c # cs))"

definition exponent_part :: "bool \<Rightarrow> string \<Rightarrow> (int \<times> string) option" where
  "exponent_part hex s = (case s of
     c # cs \<Rightarrow>
       if lower_char c = (if hex then CHR ''p'' else CHR ''e'')
       then (let (neg, t) = sign_off cs in
         if t = [] \<or> \<not> is_digit (hd t) then None
         else (let (e, rest) = scan_exponent t 0 in Some (if neg then - e else e, rest)))
       else if hex then None else Some (0, s)
   | [] \<Rightarrow> if hex then None else Some (0, s))"

text \<open>\<open>underscoreOK\<close>: underscores stand between digits, or between the prefix and a digit.\<close>

fun underscores_between :: "bool \<Rightarrow> char \<Rightarrow> string \<Rightarrow> bool" where
  "underscores_between hex saw [] \<longleftrightarrow> saw \<noteq> CHR ''_''"
| "underscores_between hex saw (c # cs) \<longleftrightarrow>
    (if digit_of hex c \<noteq> None then underscores_between hex (CHR ''0'') cs
     else if c = CHR ''_'' then saw = CHR ''0'' \<and> underscores_between hex c cs
     else saw \<noteq> CHR ''_'' \<and> underscores_between hex (CHR ''!'') cs)"

definition underscoreOK :: "string \<Rightarrow> bool" where
  "underscoreOK s = (let t = snd (sign_off s);
     prefix = (length t \<ge> 2 \<and> t ! 0 = CHR ''0'' \<and> lower_char (t ! 1) \<in> {CHR ''b'', CHR ''o'', CHR ''x''})
   in if prefix then underscores_between (lower_char (t ! 1) = CHR ''x'') (CHR ''0'') (drop 2 t)
      else underscores_between False (CHR ''^'') t)"

definition readFloat :: "string \<Rightarrow> (rat \<times> string) option" where
  "readFloat s = (let
     (neg, t) = sign_off s;
     hex = (length t > 2 \<and> t ! 0 = CHR ''0'' \<and> lower_char (t ! 1) = CHR ''x'');
     (m, k, sawdigits, rest) = scan_digits hex (if hex then drop 2 t else t) 0 0 False False
   in if \<not> sawdigits then None
      else case exponent_part hex rest of
          None \<Rightarrow> None
        | Some (e, rest) \<Rightarrow> (let read = take (length s - length rest) s in
            if CHR ''_'' \<in> set read \<and> \<not> underscoreOK read then None
            else Some ((if neg then - 1 else 1) * of_int m *
              (if hex then 2 powi (e - 4 * int k) else 10 powi (e - int k)), rest)))"

text \<open>What a text denotes before rounding, if it is a number as a whole.\<close>

definition read_number :: "string \<Rightarrow> float64 option" where
  "read_number s = (case special s of
     Some x \<Rightarrow> Some x
   | None \<Rightarrow> (case readFloat s of Some (x, []) \<Rightarrow> Some (Finite x) | _ \<Rightarrow> None))"

subsection \<open>Rounding\<close>

text \<open>The binary exponent of a positive rational.\<close>

definition floor_log2 :: "rat \<Rightarrow> int" where
  "floor_log2 x = (let (p, q) = quotient_of x; e = bitlen p - bitlen q in if 2 powi e \<le> x then e else e - 1)"

definition round_half_even :: "rat \<Rightarrow> int" where
  "round_half_even x = (let f = \<lfloor>x\<rfloor>; d = x - of_int f in
     if d < 1 / 2 \<or> (d = 1 / 2 \<and> even f) then f else f + 1)"

text \<open>53 bits of precision, and no exponent below -1074.\<close>

definition round64 :: "rat \<Rightarrow> float64" where
  "round64 x =
    (if x = 0 then Finite 0
     else let e = max (- 1074) (floor_log2 \<bar>x\<bar> - 52); y = of_int (round_half_even (\<bar>x\<bar> / 2 powi e)) * 2 powi e in
       if y \<ge> 2 ^ 1024 then Inf (x < 0) else Finite (if x < 0 then - y else y))"

text \<open>The value of \<open>strconv.ParseFloat(s, 64)\<close>, and whether the error is nil.\<close>

definition ParseFloat :: "string \<Rightarrow> float64 \<times> bool" where
  "ParseFloat s = (case read_number s of
     None \<Rightarrow> (Finite 0, False)
   | Some (Finite x) \<Rightarrow> (round64 x, case round64 x of Inf _ \<Rightarrow> False | _ \<Rightarrow> True)
   | Some x \<Rightarrow> (x, True))"

lemma floor_log2_bounds:
  assumes "0 < x"
  shows "2 powi floor_log2 x \<le> x" and "x < 2 powi (floor_log2 x + 1)"
proof -
  obtain p q where pq: "quotient_of x = (p, q)" by fastforce
  then have q: "0 < q" and x: "x = of_int p / of_int q"
    by (simp_all add: quotient_of_denom_pos quotient_of_div)
  with assms have p: "0 < p" by (simp add: zero_less_divide_iff)
  have bounds: "2 powi (bitlen n - 1) \<le> (of_int n :: rat) \<and> (of_int n :: rat) < 2 powi bitlen n" if "0 < n" for n
  proof -
    from bitlen_bounds [OF that] have b: "2 ^ nat (bitlen n - 1) \<le> n" "n < 2 ^ nat (bitlen n)" by simp_all
    have pos: "0 \<le> bitlen n - 1" using that bitlen_ge_iff_power [of 1 n] by simp
    from b have "of_int (2 ^ nat (bitlen n - 1)) \<le> (of_int n :: rat)" "(of_int n :: rat) < of_int (2 ^ nat (bitlen n))"
      by (simp_all only: of_int_le_iff of_int_less_iff)
    with pos show ?thesis by (simp add: power_int_def)
  qed
  let ?e = "bitlen p - bitlen q"
  have "2 powi (bitlen p - 1) / 2 powi bitlen q \<le> x"
    unfolding x using bounds [OF p] bounds [OF q] p q by (intro frac_le) auto
  moreover have "x < 2 powi bitlen p / 2 powi (bitlen q - 1)"
    unfolding x using bounds [OF p] bounds [OF q] p by (intro frac_less) auto
  ultimately have "2 powi (?e - 1) \<le> x" "x < 2 powi (?e + 1)"
    by (simp_all add: power_int_diff power_int_add field_simps)
  then show "2 powi floor_log2 x \<le> x" "x < 2 powi (floor_log2 x + 1)"
    by (simp_all add: floor_log2_def pq Let_def)
qed

lemma floor_log2_less_iff: "0 < x \<Longrightarrow> floor_log2 x < n \<longleftrightarrow> x < 2 powi n"
proof -
  assume x: "0 < x"
  note b = floor_log2_bounds [OF x]
  show ?thesis
  proof
    assume "floor_log2 x < n"
    then have "(2::rat) powi (floor_log2 x + 1) \<le> 2 powi n" by (intro power_int_increasing) auto
    with b(2) show "x < 2 powi n" by simp
  next
    assume less: "x < 2 powi n"
    show "floor_log2 x < n"
    proof (rule ccontr)
      assume "\<not> floor_log2 x < n"
      then have "(2::rat) powi n \<le> 2 powi floor_log2 x" by (intro power_int_increasing) auto
      with b(1) less show False by simp
    qed
  qed
qed

lemma round_half_even_ge:
  assumes "of_int n \<le> x"
  shows "n \<le> round_half_even x"
proof -
  from assms have "n \<le> \<lfloor>x\<rfloor>" by (simp add: le_floor_iff)
  then show ?thesis by (simp add: round_half_even_def Let_def)
qed

lemma round_half_even_le: "x \<le> of_int n \<Longrightarrow> round_half_even x \<le> n"
proof -
  assume x: "x \<le> of_int n"
  show ?thesis
  proof (cases "\<lfloor>x\<rfloor> = n")
    case True
    with x have "x = of_int n" using of_int_floor_le [of x] by linarith
    then show ?thesis by (simp add: round_half_even_def)
  next
    case False
    with x have "\<lfloor>x\<rfloor> + 1 \<le> n" using floor_mono [OF x] by simp
    then show ?thesis by (simp add: round_half_even_def Let_def)
  qed
qed

lemma round_half_even_even:
  assumes "even n"
  shows "n \<le> round_half_even x \<longleftrightarrow> of_int n - 1 / 2 \<le> x"
proof
  assume "of_int n - 1 / 2 \<le> x"
  consider "\<lfloor>x\<rfloor> \<ge> n" | "\<lfloor>x\<rfloor> = n - 1" | "\<lfloor>x\<rfloor> \<le> n - 2" by linarith
  then show "n \<le> round_half_even x"
  proof cases
    case 2
    with assms have "odd \<lfloor>x\<rfloor>" by simp
    moreover have "1 / 2 \<le> x - of_int \<lfloor>x\<rfloor>" using 2 \<open>of_int n - 1 / 2 \<le> x\<close> by simp
    ultimately show ?thesis using 2 by (simp add: round_half_even_def Let_def)
  next
    case 3
    then have "x < of_int (n - 1)" using floor_less_iff [of x "n - 1"] by linarith
    with \<open>of_int n - 1 / 2 \<le> x\<close> show ?thesis by simp
  qed (simp add: round_half_even_def Let_def)
next
  assume n: "n \<le> round_half_even x"
  show "of_int n - 1 / 2 \<le> x"
  proof (rule ccontr)
    assume less: "\<not> of_int n - 1 / 2 \<le> x"
    then have "x < of_int n" by simp
    then have f: "\<lfloor>x\<rfloor> \<le> n - 1" using floor_less_iff [of x n] by linarith
    show False
    proof (cases "\<lfloor>x\<rfloor> = n - 1")
      case True
      with less have "x - of_int \<lfloor>x\<rfloor> < 1 / 2" by simp
      with n True show False by (simp add: round_half_even_def Let_def)
    qed (use f n in \<open>simp add: round_half_even_def Let_def split: if_splits\<close>)
  qed
qed

text \<open>What rounds to at least 80: half a unit in the last place below it is enough.\<close>

lemma round64_at_least_80: "less64 (round64 x) (Finite 80) \<longleftrightarrow> x < 80 - 1 / 2 ^ 47"
proof (cases "0 < x")
  case False
  have "0 \<le> round_half_even (\<bar>x\<bar> / 2 powi e)" for e by (rule round_half_even_ge) simp
  then have "0 \<le> (of_int (round_half_even (\<bar>x\<bar> / 2 powi e)) * 2 powi e' :: rat)" for e e' by simp
  from this [of "max (- 1074) (floor_log2 \<bar>x\<bar> - 52)" "max (- 1074) (floor_log2 \<bar>x\<bar> - 52)"] False
  show ?thesis by (auto simp: round64_def Let_def not_less)
next
  case x: True
  define e where "e = max (- 1074) (floor_log2 x - 52)"
  define y where "y = (of_int (round_half_even (x / 2 powi e)) * 2 powi e :: rat)"
  have round: "round64 x = (if y \<ge> 2 ^ 1024 then Inf False else Finite y)"
    using x by (simp add: round64_def Let_def e_def y_def)
  consider "x < 64" | "64 \<le> x" "x < 128" | "128 \<le> x" by linarith
  then show ?thesis
  proof cases
    case 1
    with floor_log2_less_iff [OF x, of 6] have "e \<le> - 47" by (simp add: e_def)
    then have "(64::rat) = of_int (64 * 2 ^ nat (- e)) * 2 powi e"
      by (simp add: power_int_def flip: power_mult_distrib)
    moreover from this 1 have "x / 2 powi e \<le> of_int (64 * 2 ^ nat (- e))" by (simp add: field_simps)
    then have "round_half_even (x / 2 powi e) \<le> 64 * 2 ^ nat (- e)" by (rule round_half_even_le)
    then have "y \<le> of_int (64 * 2 ^ nat (- e)) * 2 powi e"
      unfolding y_def by (intro mult_right_mono) (simp_all only: of_int_le_iff, simp)
    ultimately have "y \<le> 64" by simp
    with 1 show ?thesis by (simp add: round)
  next
    case 2
    with floor_log2_less_iff [OF x, of 7] floor_log2_less_iff [OF x, of 6] have "floor_log2 x = 6" by simp
    then have e: "e = - 46" by (simp add: e_def)
    have y: "y = of_int (round_half_even (x * 2 ^ 46)) / 2 ^ 46"
    proof -
      have "(2::rat) powi (- 46) = 1 / 2 ^ 46" by (simp add: power_int_def power_one_over)
      then show ?thesis by (simp only: y_def e divide_divide_eq_right div_by_1 times_divide_eq_right mult_1_right)
    qed
    have "80 \<le> y \<longleftrightarrow> (of_int (80 * 2 ^ 46) :: rat) \<le> of_int (round_half_even (x * 2 ^ 46))"
      by (simp add: y field_simps)
    also have "\<dots> \<longleftrightarrow> of_int (80 * 2 ^ 46) - 1 / 2 \<le> x * 2 ^ 46"
      unfolding of_int_le_iff by (rule round_half_even_even) simp
    also have "\<dots> \<longleftrightarrow> 80 - 1 / 2 ^ 47 \<le> x" by (simp add: mult.commute [of x])
    finally have "80 \<le> y \<longleftrightarrow> 80 - 1 / 2 ^ 47 \<le> x" .
    moreover have "round_half_even (x * 2 ^ 46) \<le> 128 * 2 ^ 46" by (rule round_half_even_le) (use 2 in simp)
    then have "(of_int (round_half_even (x * 2 ^ 46)) :: rat) \<le> of_int (128 * 2 ^ 46)" by (simp only: of_int_le_iff)
    then have "y \<le> 128" by (simp add: y)
    then have "\<not> y \<ge> 2 ^ 1024" by (simp add: not_le)
    ultimately show ?thesis by (simp add: round not_le [symmetric] del: not_le)
  next
    case 3
    with floor_log2_less_iff [OF x, of 7] have fl: "7 \<le> floor_log2 x" by simp
    then have e: "e = floor_log2 x - 52" by (simp add: e_def)
    have "2 powi floor_log2 x = (2::rat) ^ 52 * 2 powi e" by (simp add: e power_int_diff)
    with floor_log2_bounds(1) [OF x] have "(of_int (2 ^ 52) :: rat) \<le> x / 2 powi e" by (simp add: field_simps)
    then have "2 ^ 52 \<le> round_half_even (x / 2 powi e)" by (rule round_half_even_ge)
    then have "(of_int (2 ^ 52) :: rat) \<le> of_int (round_half_even (x / 2 powi e))" by (simp only: of_int_le_iff)
    then have "2 ^ 52 * 2 powi e \<le> y" unfolding y_def by (intro mult_right_mono) simp_all
    moreover have "(2::rat) powi 7 \<le> 2 powi floor_log2 x" using fl by (intro power_int_increasing) simp_all
    ultimately have "80 \<le> y" using \<open>2 powi floor_log2 x = 2 ^ 52 * 2 powi e\<close> by simp
    moreover have "80 - 1 / 2 ^ 47 \<le> x" using 3 by simp
    ultimately show ?thesis by (simp add: round not_le [symmetric] del: not_le)
  qed
qed

lemma ParseFloat_less_80:
  "less64 (fst (ParseFloat s)) (Finite 80) \<longleftrightarrow> (case read_number s of
     None \<Rightarrow> True
   | Some NaN \<Rightarrow> False
   | Some (Inf neg) \<Rightarrow> neg
   | Some (Finite x) \<Rightarrow> x < 80 - 1 / 2 ^ 47)"
proof -
  have "less64 (Inf neg) (Finite 80) \<longleftrightarrow> neg" for neg by (cases neg) simp_all
  then show ?thesis by (auto simp: ParseFloat_def round64_at_least_80 split: option.split float64.split)
qed

text \<open>Some texts.\<close>

lemma read_number_samples:
  "read_number ''80.3'' = Some (Finite (803 / 10))" "read_number ''+1_0e1'' = Some (Finite 100)"
  "read_number ''0x1p7'' = Some (Finite 128)" "read_number ''-inf'' = Some (Inf True)"
  "read_number ''NaN'' = Some NaN" "read_number ''80%'' = None" "read_number [] = None" "read_number ''1__0'' = None"
  by code_simp+

end
