(* ===== verification/Build_Targets.thy ===== *)
theory Build_Targets
  imports Prelude Go_Float
begin

text \<open>
  \<open>magefile.go\<close> and \<open>magefile_release.go\<close>: the build, test and release targets.  What they do
  outside the program (commands, files, printing) is the record \<open>Shell\<close> of parameters, and so is
  mage's own running of dependencies: \<open>Deps\<close> and \<open>SerialDeps\<close> take targets by name, and an error
  they give is mage's abort of the calling target.  The environment is read-only.

  The total coverage is a \<open>float64\<close>, read with \<open>ParseFloat\<close> of \<open>Go_Float\<close>; \<open>%.1f\<close> is the parameter
  \<open>Sprint_f1\<close>.
\<close>

type_synonym 'w target = "('w, unit go) state"

record 'w Shell =
  Getenv :: "string \<Rightarrow> string"
  RunV :: "string \<Rightarrow> string list \<Rightarrow> 'w target"
  RunWithV :: "(string \<times> string) list \<Rightarrow> string \<Rightarrow> string list \<Rightarrow> 'w target"
  Output :: "string \<Rightarrow> string list \<Rightarrow> ('w, string go) state"
  CopyFile :: "string \<Rightarrow> string \<Rightarrow> 'w target"
  Stat :: "string \<Rightarrow> 'w target"
  MkdirAll :: "string \<Rightarrow> 'w target"
  ReadFile :: "string \<Rightarrow> ('w, string go) state"
  WriteFile :: "string \<Rightarrow> string \<Rightarrow> 'w target"
  Print :: "string \<Rightarrow> ('w, unit) state"
  Deps :: "(string \<times> 'w target) list \<Rightarrow> 'w target"
  SerialDeps :: "(string \<times> 'w target) list \<Rightarrow> 'w target"
  localBin :: string
  Sprint_f1 :: "float64 \<Rightarrow> string"

text \<open>\<open>if err := m; err != nil { return err }; next\<close>\<close>

definition and_then :: "'w target \<Rightarrow> ('w, 'a go) state \<Rightarrow> ('w, 'a go) state" where
  "and_then m n = do {
     done \<leftarrow> m;
     (case done of Inl err \<Rightarrow> State_Monad.return (Inl err) | Inr _ \<Rightarrow> n)
   }"

subsection \<open>Build and code generation\<close>

definition controllerToolsVersion :: string where "controllerToolsVersion = ''v0.18.0''"
definition envtestVersion :: string where "envtestVersion = ''release-0.24''"
definition envtestK8sVersion :: string where "envtestK8sVersion = ''1.33.0''"
definition coverageMin :: float64 where "coverageMin = Finite 80"
definition operatorImage :: string where "operatorImage = ''ghcr.io/ops-dev/workload-operator:dev''"

text \<open>\<open>mustAbs\<close> panics with the error of \<open>filepath.Abs\<close>; \<open>localBin\<close> is its value on \<open>operator/bin\<close>.\<close>

definition mustAbs :: "(string \<Rightarrow> string go) \<Rightarrow> string \<Rightarrow> string go" where
  "mustAbs Abs p = (case Abs p of Inl err \<Rightarrow> Inl err | Inr abs_path \<Rightarrow> Inr abs_path)"

definition local_bin :: "(string \<Rightarrow> string go) \<Rightarrow> string go" where
  "local_bin Abs = mustAbs Abs ''operator/bin''"

definition controllerGen :: "'w Shell \<Rightarrow> string" where
  "controllerGen sh = localBin sh @ ''/controller-gen''"

definition setupEnvtest :: "'w Shell \<Rightarrow> string" where
  "setupEnvtest sh = localBin sh @ ''/setup-envtest''"

definition coverProfile :: string where "coverProfile = ''operator/cover.out''"

definition coverPkg :: string where
  "coverPkg = Join (map (\<lambda>p. ''github.com/ops-dev/multicloud-workload-deploy/operator/'' @ p)
     [''internal/controller'', ''internal/render'', ''internal/preflight'', ''internal/cloud/fake'',
      ''internal/cloud/aws'', ''internal/cloud/gcp'', ''cmd/preflight'']) '',''"

definition PreflightBuild :: "'w Shell \<Rightarrow> 'w target" where
  "PreflightBuild sh =
    RunV sh ''go'' [''build'', ''-o'', ''operator/bin/preflight'', ''./operator/cmd/preflight'']"

definition installControllerGen :: "'w Shell \<Rightarrow> 'w target" where
  "installControllerGen sh = do {
     found \<leftarrow> Stat sh (controllerGen sh);
     (case found of
        Inr _ \<Rightarrow> State_Monad.return (Inr ())
      | Inl _ \<Rightarrow> RunWithV sh [(''GOBIN'', localBin sh)] ''go''
          [''install'', ''sigs.k8s.io/controller-tools/cmd/controller-gen@'' @ controllerToolsVersion])
   }"

definition installEnvtest :: "'w Shell \<Rightarrow> 'w target" where
  "installEnvtest sh = do {
     found \<leftarrow> Stat sh (setupEnvtest sh);
     (case found of
        Inr _ \<Rightarrow> State_Monad.return (Inr ())
      | Inl _ \<Rightarrow> RunWithV sh [(''GOBIN'', localBin sh)] ''go''
          [''install'', ''sigs.k8s.io/controller-runtime/tools/setup-envtest@'' @ envtestVersion])
   }"

definition Generate :: "'w Shell \<Rightarrow> 'w target" where
  "Generate sh = and_then (Deps sh [(''installControllerGen'', installControllerGen sh)])
    (RunV sh (controllerGen sh)
      [''object:headerFile=operator/hack/boilerplate.go.txt'', ''paths=./operator/api/...''])"

definition Manifests :: "'w Shell \<Rightarrow> 'w target" where
  "Manifests sh = and_then (Deps sh [(''installControllerGen'', installControllerGen sh)])
    (RunV sh (controllerGen sh) [''crd'', ''paths=./operator/api/...'',
      ''output:crd:artifacts:config=operator/config/crd''])"

definition SyncCRD :: "'w Shell \<Rightarrow> 'w target" where
  "SyncCRD sh = and_then (Deps sh [(''Manifests'', Manifests sh)])
    (CopyFile sh ''charts/workload-operator/crds/workload.ops.dev_workloads.yaml''
      ''operator/config/crd/workload.ops.dev_workloads.yaml'')"

definition Build :: "'w Shell \<Rightarrow> 'w target" where
  "Build sh = RunV sh ''go'' [''build'', ''-o'', ''operator/bin/manager'', ''./operator/cmd'']"

definition LintCharts :: "'w Shell \<Rightarrow> 'w target" where
  "LintCharts sh = and_then
    (RunV sh ''helm'' [''lint'', ''charts/workload'', ''--set'', ''name=demo'', ''--set'',
      ''namespace=demo'', ''--set'', ''image=nginx:1.27''])
    (RunV sh ''helm'' [''lint'', ''charts/workload-operator''])"

definition DockerBuild :: "'w Shell \<Rightarrow> 'w target" where
  "DockerBuild sh =
    RunV sh ''docker'' [''build'', ''-f'', ''operator/Dockerfile'', ''-t'', operatorImage, ''.'']"

subsection \<open>Tests and the coverage gate\<close>

definition resolveEnvtestAssets :: "'w Shell \<Rightarrow> ('w, string go) state" where
  "resolveEnvtestAssets sh = do {
     online \<leftarrow> Output sh (setupEnvtest sh) [''use'', envtestK8sVersion, ''-p'', ''path''];
     (case online of
        Inr assets \<Rightarrow> State_Monad.return (Inr assets)
      | Inl _ \<Rightarrow> do {
          installed \<leftarrow> Output sh (setupEnvtest sh) [''use'', envtestK8sVersion, ''-i'', ''-p'', ''path''];
          (case installed of
             Inl err \<Rightarrow> State_Monad.return (Inl (''resolve envtest assets for k8s '' @ envtestK8sVersion @
               '' (online fetch failed and none installed; run `setup-envtest use '' @
               envtestK8sVersion @ ''`): '' @ err))
           | Inr assets \<Rightarrow> State_Monad.return (Inr assets))
        })
   }"

text \<open>\<open>strings.Fields\<close>: the maximal runs without white space.\<close>

function fields_from :: "string \<Rightarrow> string \<Rightarrow> string list" where
  "fields_from field s =
    (case s of
       [] \<Rightarrow> if field = [] then [] else [field]
     | c # cs \<Rightarrow> (case find (\<lambda>r. r \<noteq> [] \<and> prefix r s) space_runes of
           None \<Rightarrow> fields_from (field @ [c]) cs
         | Some r \<Rightarrow> (if field = [] then [] else [field]) @ fields_from [] (drop (length r) s)))"
  by pat_completeness auto
termination
  by (relation "measure (\<lambda>(field, s). length s)") (auto simp: find_Some_iff)

declare fields_from.simps [simp del]

definition Fields :: "string \<Rightarrow> string list" where
  "Fields s = fields_from [] s"

definition TrimSuffix :: "string \<Rightarrow> string \<Rightarrow> string" where
  "TrimSuffix s suf = (if suffix suf s then take (length s - length suf) s else s)"

text \<open>\<open>total, _ = strconv.ParseFloat(...)\<close>: the error is dropped.\<close>

definition line_total :: "string \<Rightarrow> float64" where
  "line_total line = (let fields = Fields line in
    fst (ParseFloat (TrimSuffix (fields ! (length fields - 1)) ''%'')))"

fun scan_total :: "string list \<Rightarrow> float64 \<Rightarrow> float64" where
  "scan_total [] covered = covered"
| "scan_total (line # lines) covered =
    scan_total lines (if HasPrefix line ''total:'' then line_total line else covered)"

definition CoverageGate :: "'w Shell \<Rightarrow> 'w target" where
  "CoverageGate sh = do {
     out \<leftarrow> Output sh ''go'' [''tool'', ''cover'', ''-func='' @ coverProfile];
     (case out of
        Inl err \<Rightarrow> State_Monad.return (Inl err)
      | Inr out \<Rightarrow> (let covered = scan_total (Split out (chr 10)) (Finite 0) in do {
          _ \<leftarrow> Print sh (''total coverage: '' @ Sprint_f1 sh covered @ ''% (min '' @
            Sprint_f1 sh coverageMin @ ''%)'' @ [chr 10]);
          State_Monad.return
            (if less64 covered coverageMin
             then Inl (''coverage '' @ Sprint_f1 sh covered @ ''% < '' @ Sprint_f1 sh coverageMin @ ''%'')
             else Inr ())
        }))
   }"

definition Test :: "'w Shell \<Rightarrow> 'w target" where
  "Test sh = and_then (Deps sh [(''installEnvtest'', installEnvtest sh)]) (do {
     assets \<leftarrow> resolveEnvtestAssets sh;
     (case assets of
        Inl err \<Rightarrow> State_Monad.return (Inl err)
      | Inr assets \<Rightarrow> and_then
          (RunWithV sh [(''KUBEBUILDER_ASSETS'', assets)] ''go''
            [''test'', ''./operator/...'', ''-count=1'', ''-coverpkg='' @ coverPkg,
             ''-coverprofile='' @ coverProfile])
          (CoverageGate sh))
   })"

definition Verify :: "'w Shell \<Rightarrow> 'w target" where
  "Verify sh = SerialDeps sh
    [(''Test'', Test sh), (''LintCharts'', LintCharts sh), (''PreflightBuild'', PreflightBuild sh)]"

definition TestE2E :: "'w Shell \<Rightarrow> 'w target" where
  "TestE2E sh = RunV sh ''go'' [''test'', ''-tags'', ''e2e'', ''./test/e2e/...'', ''-v'', ''-count=1'',
    ''-timeout'', ''15m'']"

definition e2e_target :: "'w Shell \<Rightarrow> string \<Rightarrow> string \<Rightarrow> string \<Rightarrow> 'w target" where
  "e2e_target sh tags name timeout = and_then (Deps sh [(''PreflightBuild'', PreflightBuild sh)])
    (RunV sh ''go'' [''test'', ''-tags'', tags, ''./test/e2e/...'', ''-run'', name, ''-v'', ''-count=1'',
      ''-timeout'', timeout])"

definition TestE2EAWS :: "'w Shell \<Rightarrow> 'w target" where
  "TestE2EAWS sh = e2e_target sh ''e2e_aws'' ''TestAWSFullGreenfield'' ''75m''"

definition TestE2EAWSNoEKS :: "'w Shell \<Rightarrow> 'w target" where
  "TestE2EAWSNoEKS sh = e2e_target sh ''e2e_aws'' ''TestAWSNoEKS'' ''40m''"

definition TestE2EGCP :: "'w Shell \<Rightarrow> 'w target" where
  "TestE2EGCP sh = e2e_target sh ''e2e_gcp'' ''TestGCPFullGreenfield'' ''75m''"

definition TestE2EGCPNoGKE :: "'w Shell \<Rightarrow> 'w target" where
  "TestE2EGCPNoGKE sh = e2e_target sh ''e2e_gcp'' ''TestGCPNoGKE'' ''40m''"

subsection \<open>Release packaging\<close>

definition defaultChartRepo :: string where "defaultChartRepo = ''oci://ghcr.io/ops-dev/charts''"
definition defaultImageRepo :: string where "defaultImageRepo = ''ghcr.io/ops-dev/workload-operator''"
definition defaultTFModulesRef :: string where
  "defaultTFModulesRef = ''git::https://github.com/ops-dev/multicloud-workload-deploy//modules''"

definition releaseVersion :: "'w Shell \<Rightarrow> string go" where
  "releaseVersion sh = (let v = Getenv sh ''VERSION'' in
    if v = [] then Inl ''set VERSION (e.g. VERSION=v0.2.0)'' else Inr v)"

definition envOr :: "'w Shell \<Rightarrow> string \<Rightarrow> string \<Rightarrow> string" where
  "envOr sh key fallback = (let v = Getenv sh key in if v \<noteq> [] then v else fallback)"

definition have_tool :: "'w Shell \<Rightarrow> string \<Rightarrow> ('w, bool) state" where
  "have_tool sh tool = do {
     found \<leftarrow> Output sh ''sh'' [''-c'', ''command -v '' @ tool];
     State_Monad.return (\<not> isl found)
   }"

definition lastPath :: "string \<Rightarrow> string" where
  "lastPath p = (let i = LastIndex p (CHR ''/'') in if i \<ge> 0 then drop (nat i + 1) p else p)"

definition inspect_digest :: "'w Shell \<Rightarrow> string \<Rightarrow> ('w, string go) state" where
  "inspect_digest sh ref = Output sh ''docker''
    [''buildx'', ''imagetools'', ''inspect'', ref, ''--format'', ''{{.Manifest.Digest}}'']"

definition Image :: "'w Shell \<Rightarrow> 'w target" where
  "Image sh = (case releaseVersion sh of
     Inl err \<Rightarrow> State_Monad.return (Inl err)
   | Inr v \<Rightarrow> (let repo = envOr sh ''IMAGE_REPO'' defaultImageRepo; ref = repo @ '':'' @ v in do {
       _ \<leftarrow> Print sh (''building + pushing '' @ ref @ '' (linux/amd64,linux/arm64)'' @ [chr 10]);
       and_then
         (RunV sh ''docker'' [''buildx'', ''build'', ''-f'', ''operator/Dockerfile'',
           ''--platform'', ''linux/amd64,linux/arm64'', ''-t'', ref, ''--push'', ''.''])
         (do {
           digest \<leftarrow> inspect_digest sh ref;
           _ \<leftarrow> Print sh (''operator image digest: '' @
             TrimSpace (case digest of Inl _ \<Rightarrow> [] | Inr d \<Rightarrow> d) @ [chr 10]);
           State_Monad.return (Inr ())
         })
     }))"

fun push_charts :: "'w Shell \<Rightarrow> string \<Rightarrow> string \<Rightarrow> string list \<Rightarrow> 'w target" where
  "push_charts sh repo v [] = State_Monad.return (Inr ())"
| "push_charts sh repo v (c # cs) = (let pkg = lastPath c @ ''-'' @ v @ ''.tgz'' in
     and_then (RunV sh ''helm'' [''package'', c, ''--version'', v, ''--app-version'', v, ''-d'', ''dist''])
       (and_then (RunV sh ''helm'' [''push'', ''dist/'' @ pkg, repo]) (push_charts sh repo v cs)))"

definition Charts :: "'w Shell \<Rightarrow> 'w target" where
  "Charts sh = (case releaseVersion sh of
     Inl err \<Rightarrow> State_Monad.return (Inl err)
   | Inr v \<Rightarrow> (let repo = envOr sh ''CHART_REPO'' defaultChartRepo; v = TrimPrefix v ''v'' in
       push_charts sh repo v [''charts/workload-operator'', ''charts/workload'']))"

definition Sbom :: "'w Shell \<Rightarrow> 'w target" where
  "Sbom sh = (case releaseVersion sh of
     Inl err \<Rightarrow> State_Monad.return (Inl err)
   | Inr v \<Rightarrow> do {
       syft \<leftarrow> have_tool sh ''syft'';
       if \<not> syft then do {
         _ \<leftarrow> Print sh (''syft not installed '' @ em_dash @
           '' skipping SBOM. Install: https://github.com/anchore/syft'' @ [chr 10]);
         State_Monad.return (Inr ())
       } else (let repo = envOr sh ''IMAGE_REPO'' defaultImageRepo;
           out = ''dist/sbom-'' @ v @ ''.spdx.json'' in
         and_then (MkdirAll sh ''dist'')
           (RunV sh ''syft'' [repo @ '':'' @ v, ''-o'', ''spdx-json='' @ out]))
     })"

definition Sign :: "'w Shell \<Rightarrow> 'w target" where
  "Sign sh = (case releaseVersion sh of
     Inl err \<Rightarrow> State_Monad.return (Inl err)
   | Inr v \<Rightarrow> do {
       cosign \<leftarrow> have_tool sh ''cosign'';
       if \<not> cosign then do {
         _ \<leftarrow> Print sh (''cosign not installed '' @ em_dash @
           '' skipping signing. Install: https://github.com/sigstore/cosign'' @ [chr 10]);
         State_Monad.return (Inr ())
       } else (let repo = envOr sh ''IMAGE_REPO'' defaultImageRepo;
           key = Getenv sh ''COSIGN_KEY'';
           args = [''sign'', ''--yes''];
           args = (if key \<noteq> [] then args @ [''--key'', key] else args) in
         RunV sh ''cosign'' (args @ [repo @ '':'' @ v]))
     })"

text \<open>
  \<open>strings.NewReplacer(pairs...).Replace\<close>: replacements in the order they appear in the text, without
  overlap, the pairs compared in order at each position.  No old string of the code is empty.
\<close>

function replace_all :: "(string \<times> string) list \<Rightarrow> string \<Rightarrow> string" where
  "replace_all pairs s =
    (case s of
       [] \<Rightarrow> []
     | c # cs \<Rightarrow> (case find (\<lambda>p. fst p \<noteq> [] \<and> prefix (fst p) s) pairs of
           None \<Rightarrow> c # replace_all pairs cs
         | Some p \<Rightarrow> snd p @ replace_all pairs (drop (length (fst p)) s)))"
  by pat_completeness auto
termination
  by (relation "measure (\<lambda>(pairs, s). length s)") (auto simp: find_Some_iff)

declare replace_all.simps [simp del]

definition unresolved_digest :: string where
  "unresolved_digest = ''sha256:UNRESOLVED-set-IMAGE_DIGEST-or-push-the-image-first''"

definition resolve_digest :: "'w Shell \<Rightarrow> string \<Rightarrow> ('w, string) state" where
  "resolve_digest sh ref = (let digest = Getenv sh ''IMAGE_DIGEST'' in
    if digest = [] then do {
      d \<leftarrow> inspect_digest sh ref;
      State_Monad.return (case d of Inr d \<Rightarrow> TrimSpace d | Inl _ \<Rightarrow> unresolved_digest)
    } else State_Monad.return digest)"

definition bom_pairs :: "'w Shell \<Rightarrow> string \<Rightarrow> string \<Rightarrow> (string \<times> string) list" where
  "bom_pairs sh v digest = (let
     repo = envOr sh ''IMAGE_REPO'' defaultImageRepo;
     chartRepo = envOr sh ''CHART_REPO'' defaultChartRepo;
     tfRef = envOr sh ''TF_MODULES_REF'' defaultTFModulesRef;
     chartVer = TrimPrefix v ''v''
   in [(''{{VERSION}}'', v),
       (''{{TIMESTAMP}}'', envOr sh ''RELEASE_TIMESTAMP'' ''unset (pass RELEASE_TIMESTAMP)''),
       (''{{IMAGE_REPO}}'', repo),
       (''{{IMAGE_DIGEST}}'', digest),
       (''{{CHART_OPERATOR_REF}}'', chartRepo @ ''/workload-operator''),
       (''{{CHART_WORKLOAD_REF}}'', chartRepo @ ''/workload''),
       (''{{CHART_VERSION}}'', chartVer),
       (''{{CHART_OPERATOR_DIGEST}}'', envOr sh ''CHART_OPERATOR_DIGEST'' ''(set after helm push)''),
       (''{{CHART_WORKLOAD_DIGEST}}'', envOr sh ''CHART_WORKLOAD_DIGEST'' ''(set after helm push)''),
       (''{{TF_MODULES_REF}}'', tfRef),
       (''{{SBOM_FILE}}'', ''dist/sbom-'' @ v @ ''.spdx.json''),
       (''{{IMAGE_SIG}}'', ''cosign (registry-attached)''),
       (''{{SBOM_SIG}}'', ''cosign (registry-attached)'')])"

definition Bom :: "'w Shell \<Rightarrow> 'w target" where
  "Bom sh = (case releaseVersion sh of
     Inl err \<Rightarrow> State_Monad.return (Inl err)
   | Inr v \<Rightarrow> do {
       tmpl \<leftarrow> ReadFile sh ''release/bom.template.yaml'';
       (case tmpl of
          Inl err \<Rightarrow> State_Monad.return (Inl err)
        | Inr tmpl \<Rightarrow> do {
            digest \<leftarrow> resolve_digest sh (envOr sh ''IMAGE_REPO'' defaultImageRepo @ '':'' @ v);
            let out = ''release/bom-'' @ v @ ''.yaml'';
            and_then (WriteFile sh out (replace_all (bom_pairs sh v digest) tmpl)) (do {
              _ \<leftarrow> Print sh (''wrote '' @ out @ [chr 10]);
              State_Monad.return (Inr ())
            })
          })
     })"

definition Bundle :: "'w Shell \<Rightarrow> 'w target" where
  "Bundle sh = SerialDeps sh [(''Image'', Image sh), (''Charts'', Charts sh), (''Sbom'', Sbom sh),
     (''Sign'', Sign sh), (''Bom'', Bom sh)]"

subsection \<open>The coverage gate\<close>

lemma scan_total_last:
  "scan_total lines covered =
    (let ts = filter (\<lambda>line. HasPrefix line ''total:'') lines
     in if ts = [] then covered else line_total (last ts))"
  by (induction lines arbitrary: covered) (simp_all add: Let_def)

text \<open>A field that was started is never lost, and a total line starts one.\<close>

lemma fields_from_started: "field \<noteq> [] \<Longrightarrow> fields_from field s \<noteq> []"
proof (induction field s rule: fields_from.induct)
  case (1 field s)
  then show ?case
    by (subst fields_from.simps) (auto split: list.split option.split)
qed

lemma Fields_total: "HasPrefix line ''total:'' \<Longrightarrow> Fields line \<noteq> []"
proof -
  assume "HasPrefix line ''total:''"
  then obtain cs where line: "line = CHR ''t'' # cs" by (auto simp: HasPrefix_def prefix_def)
  have "\<not> (r \<noteq> [] \<and> prefix r line)" if "r \<in> set space_runes" for r
  proof
    assume "r \<noteq> [] \<and> prefix r line"
    then have "hd r = CHR ''t''" using line by (cases r) auto
    moreover from space_runes_ends that have "byte (hd r) \<le> 32 \<or> 128 \<le> byte (hd r)" by auto
    ultimately show False by simp
  qed
  then have "find (\<lambda>r. r \<noteq> [] \<and> prefix r line) space_runes = None" by (simp add: find_None_iff)
  then have "fields_from [] line = fields_from [CHR ''t''] cs"
    using line by (subst fields_from.simps) simp
  then show ?thesis by (simp add: Fields_def fields_from_started)
qed

lemma total_decides:
  "\<not> less64 (scan_total lines (Finite 0)) (Finite 80) \<longleftrightarrow>
    (case rev (filter (\<lambda>line. HasPrefix line ''total:'') lines) of
       [] \<Rightarrow> False
     | line # _ \<Rightarrow> \<not> less64 (fst (ParseFloat (TrimSuffix (last (Fields line)) ''%''))) (Finite 80))"
proof (cases "filter (\<lambda>line. HasPrefix line ''total:'') lines" rule: rev_cases)
  case (snoc ts line)
  then have "line \<in> set (filter (\<lambda>line. HasPrefix line ''total:'') lines)" by simp
  then have "HasPrefix line ''total:''" by simp
  then have "Fields line \<noteq> []" by (rule Fields_total)
  then have "line_total line = fst (ParseFloat (TrimSuffix (last (Fields line)) ''%''))"
    by (simp add: line_total_def last_conv_nth Let_def)
  then show ?thesis by (simp add: scan_total_last snoc)
qed (simp add: scan_total_last)

text \<open>Property C39: what passes the coverage gate.  It passes exactly if the cover tool succeeds and its
  output has a line starting with \<open>total:\<close> whose last field, for the last such line, reads as a number
  that is not below 80 as a \<open>float64\<close>: a finite one of at least 80 less half a unit in the last place, in
  any notation \<open>ParseFloat\<close> knows.  A failing tool, an output without a total, a text that is no number and
  minus infinity fail it.  Infinity passes, and so does \<open>NaN\<close>, which is below nothing: in these the gate
  does not fail closed.\<close>
theorem coverage_gate_decides:
  "fst (run_state (CoverageGate sh) w) = Inr () \<longleftrightarrow>
    (case fst (run_state (Output sh ''go'' [''tool'', ''cover'', ''-func='' @ coverProfile]) w) of
       Inl _ \<Rightarrow> False
     | Inr out \<Rightarrow> (case rev (filter (\<lambda>line. HasPrefix line ''total:'') (Split out (chr 10))) of
           [] \<Rightarrow> False
         | line # _ \<Rightarrow> (case read_number (TrimSuffix (last (Fields line)) ''%'') of
               None \<Rightarrow> False
             | Some NaN \<Rightarrow> True
             | Some (Inf neg) \<Rightarrow> \<not> neg
             | Some (Finite covered) \<Rightarrow> 80 - 1 / 2 ^ 47 \<le> covered)))"
proof -
  obtain res w1 where run: "run_state (Output sh ''go'' [''tool'', ''cover'', ''-func='' @ coverProfile]) w
      = (res, w1)" by fastforce
  show ?thesis
  proof (cases res)
    case (Inl err)
    with run show ?thesis by (simp add: CoverageGate_def)
  next
    case (Inr out)
    let ?ts = "filter (\<lambda>line. HasPrefix line ''total:'') (Split out (chr 10))"
    have "fst (run_state (CoverageGate sh) w) = Inr () \<longleftrightarrow>
        \<not> less64 (scan_total (Split out (chr 10)) (Finite 0)) (Finite 80)"
      using run Inr by (simp add: CoverageGate_def Let_def coverageMin_def split: prod.split)
    also have "\<dots> \<longleftrightarrow> (case rev ?ts of
           [] \<Rightarrow> False
         | line # _ \<Rightarrow> \<not> less64 (fst (ParseFloat (TrimSuffix (last (Fields line)) ''%''))) (Finite 80))"
      by (rule total_decides)
    finally show ?thesis
      using run Inr by (simp add: ParseFloat_less_80 not_less split: list.split option.split float64.split)
  qed
qed

subsection \<open>Releases\<close>

text \<open>No release without a version.  With \<open>VERSION\<close> unset each of the five release targets
  returns an error that says so, without running a command, reading or writing a file or printing
  anything.\<close>
lemma release_needs_version:
  assumes "Getenv sh ''VERSION'' = []"
  shows "list_all (\<lambda>target. run_state target w = (Inl ''set VERSION (e.g. VERSION=v0.2.0)'', w))
    [Image sh, Charts sh, Sbom sh, Sign sh, Bom sh]"
  using assms
  by (simp add: Image_def Charts_def Sbom_def Sign_def Bom_def releaseVersion_def)

text \<open>A shell with nothing in its environment, where every command fails.\<close>

definition sample_shell :: "nat Shell" where
  "sample_shell = \<lparr>Getenv = (\<lambda>_. []), RunV = (\<lambda>_ _. State_Monad.return (Inl ''not found'')),
    RunWithV = (\<lambda>_ _ _. State_Monad.return (Inl ''not found'')),
    Output = (\<lambda>_ _. State_Monad.return (Inl ''not found'')),
    CopyFile = (\<lambda>_ _. State_Monad.return (Inl ''not found'')),
    Stat = (\<lambda>_. State_Monad.return (Inl ''not found'')),
    MkdirAll = (\<lambda>_. State_Monad.return (Inr ())),
    ReadFile = (\<lambda>_. State_Monad.return (Inl ''not found'')),
    WriteFile = (\<lambda>_ _. State_Monad.return (Inr ())),
    Print = (\<lambda>_. State (\<lambda>lines. ((), lines + 1))),
    Deps = (\<lambda>_. State_Monad.return (Inr ())), SerialDeps = (\<lambda>_. State_Monad.return (Inr ())),
    localBin = ''/repo/operator/bin'', Sprint_f1 = (\<lambda>_. [])\<rparr>"

theorem release_needs_version_witness:
  "run_state (Bom sample_shell) 0 = (Inl ''set VERSION (e.g. VERSION=v0.2.0)'', 0)"
proof -
  have "Getenv sample_shell ''VERSION'' = []" by (simp add: sample_shell_def)
  from release_needs_version [OF this, of 0] show ?thesis by simp
qed

end
