(* ===== verification/Spec2Isabelle.thy ===== *)
theory Spec2Isabelle
  imports Delivery Namespace_Security Operator_Runs Deep_Copy Build_Targets
begin

text \<open>
  Verification of \<open>multicloud-workload-deploy\<close>, the Go module of this repository: the deployment
  preflight and the workload operator under \<open>src/operator\<close>, and the build targets in
  \<open>src/magefile.go\<close> and \<open>src/magefile_release.go\<close>; with them what stands between the Go code and
  the cluster, the two charts in \<open>src/charts\<close> and the Terraform modules \<open>preflight\<close>, \<open>workload\<close>,
  \<open>k8s-platform\<close> and \<open>k8s-security\<close> in \<open>src/modules\<close>.

  \<^bold>\<open>The program.\<close>  The command \<open>preflight\<close> (\<open>operator/cmd/preflight/main.go\<close>) decides whether
  a deployment may go ahead.  It selects a cloud provider, builds the clients of the target
  cluster, runs six ordered stages of checks (identity, KMS, secrets, network, Kubernetes,
  workload) and prints one flat JSON object for Terraform, whose gate reads its verdict.  A stage
  is red, amber, green or skipped; a red blocking stage stops the run; in full mode the four cloud
  stages are informational, because the same apply provisions what they check.  The operator
  (\<open>operator/cmd/main.go\<close>) then keeps each Workload of the cluster as its spec says: it renders the
  embedded Helm chart with values from the spec, applies every rendered object without losing the
  fields the server owns, and patches the status of the Workload once per reconcile.  The Terraform
  module \<open>preflight\<close> runs the command at plan time, stops on a red verdict and derives the install tier;
  in tier A the module \<open>k8s-platform\<close> installs the operator from its chart, and the module \<open>workload\<close> plans
  a Workload for it, or in tier B the workload chart itself.  The module \<open>k8s-security\<close> labels the namespace
  and lays its network policies under those of the chart.

  \<^bold>\<open>The theories\<close>, in the order the program builds on them:
  \<^item> \<open>Prelude\<close>: Go errors as sums, calls out of the program as computations of the state monad over
    an arbitrary world \<open>'w\<close>, the calculus of outcomes and runs, and the invariants of runs
    (\<open>preserves\<close>, \<open>silent\<close>).
  \<^item> \<open>Report\<close> (\<open>internal/preflight/report.go\<close>): statuses, results, stages; \<open>worse\<close>,
    \<open>StageStatus\<close> and \<open>ComputeVerdict\<close>, shown equal to their declarative readings.
  \<^item> \<open>Runner\<close> (\<open>internal/preflight/check.go\<close>): bucketing and the loop of \<open>run\<close> with its report
    updated in place.  The abstract specification is \<open>gate\<close>, a plain list of outcomes;
    \<open>run_report_refines\<close> shows that the loop implements it, and every property of a run is
    proved on the gate.
  \<^item> \<open>Go_Strings\<close>, \<open>Go_JSON\<close>: what the program uses of Go's \<open>strings\<close>, \<open>fmt\<close>, \<open>strconv\<close> and
    \<open>encoding/json\<close>, on byte strings, with the round trip \<open>decode_encode\<close>.
  \<^item> \<open>Cloud_Stages\<close> (\<open>internal/preflight/cloudstages.go\<close>, \<open>internal/cloud/fake\<close>): the provider
    interface.  Its contract is the locale \<open>preflight_provider\<close> (severities only, at least one
    result, a remediation with every red); the loop over secrets is the locale
    \<open>secrets_backend\<close>.
  \<^item> \<open>AWS_Provider\<close>, \<open>GCP_Provider\<close>, \<open>Azure_Provider\<close> (\<open>internal/cloud/aws|gcp|azure\<close>): the four
    checks of each cloud and the constructors.  Each interprets both locales on its own
    definitions and characterises when its stages are green, amber and red.
  \<^item> \<open>K8s_Stages\<close> (\<open>internal/preflight/k8sstages.go\<close>): the checks of stages 4 and 5.
  \<^item> \<open>Preflight_Main\<close> (\<open>cmd/preflight/main.go\<close>): options, provider selection, the run, the printed
    JSON and the exit code; the end-to-end properties.
  \<^item> \<open>Go_Flag\<close>: Go's \<open>flag\<close> package as far as the two commands use it.
  \<^item> \<open>Preflight_Gate\<close> (\<open>cmd/preflight/main.go\<close>, \<open>modules/preflight\<close>): the command from its arguments, the
    Terraform module around it with its validation, the data source as a parameter, and both put together.
  \<^item> \<open>Workload_API\<close> (\<open>operator/api/v1\<close>): the Workload and the objects made for it, Go maps as lists of
    entries, and the validation the markers ask of the API server.
  \<^item> \<open>Deep_Copy\<close> (\<open>zz_generated.deepcopy.go\<close>): the deep copies on an explicit memory; every
    \<open>DeepCopyInto\<close> meets the contract \<open>deep_into\<close>, by the lemmas that compose it from the parts of
    a struct, and so a copy is isolated from its original.
  \<^item> \<open>Renderer\<close> (\<open>internal/render/render.go\<close>): the values of the chart, and the loop over the documents
    of the rendered templates with its reference \<open>typed_docs\<close>.
  \<^item> \<open>Chart_Schema\<close> (\<open>charts/workload/values.schema.json\<close>): the schema as data with its evaluation,
    related to the values of a spec and to what the API admits.
  \<^item> \<open>Chart_Templates\<close> (\<open>charts/workload/values.yaml\<close> and \<open>templates\<close>): the values a template sees, and
    each template as a function from them to the documents a YAML reader finds.
  \<^item> \<open>Chart_Objects\<close>: the contract \<open>renders\<close> of Helm and the YAML reader, and over it the objects of a
    Workload and the operator end to end; \<open>Chart_Samples\<close> has an instance of the contract.
  \<^item> \<open>Network_Policy\<close>: the semantics of network policies, with address blocks on 32-bit words, and what the
    policies of the chart let in and out.  Which pods a block is compared with is left to the network plugin, a
    field of the \<open>cluster\<close>.
  \<^item> \<open>Namespace_Security\<close> (\<open>modules/k8s-security\<close>): the labels and policies of the namespace, alone and
    together with those of the chart.
  \<^item> \<open>Workload_Module\<close> (\<open>modules/workload\<close>): the ordering gate and the resources of the two tiers, and how far these
    render the same documents.
  \<^item> \<open>Apply\<close> (\<open>internal/controller/apply.go\<close>): merging metadata, copying specs, and \<open>mutate\<close>, the
    function \<open>setOwnerAndApply\<close> hands to \<open>CreateOrUpdate\<close>, with the abstract reading
    \<open>spec_applied\<close>.  The locale \<open>spec_copy\<close> is the contract of the type switch's branches,
    interpreted on the Service, the Deployment and the plain copy.
  \<^item> \<open>Workload_Controller\<close> (\<open>internal/controller/workload_controller.go\<close>): \<open>Reconcile\<close>, its status,
    what it leaves in the cluster, and its progress.
  \<^item> \<open>Operator_Runs\<close>: \<open>Reconcile\<close> cut at its calls into the step relation \<open>operator_step\<close>, shown to be the
    same as \<open>Reconcile\<close> when nobody else writes, and interleaved with other writers by \<open>cluster_step\<close>.
  \<^item> \<open>Operator_Main\<close> (\<open>cmd/main.go\<close>): scheme, command line, start-up, manager options, exit code.
  \<^item> \<open>Operator_Chart\<close> (\<open>charts/workload-operator\<close>): the defaults and templates of the operator's own chart,
    what a Role grants, and \<open>guarded\<close>, the reconciler whose calls fail unless granted.
  \<^item> \<open>Platform_Module\<close> (\<open>modules/k8s-platform\<close>): the release of that chart with its settings.
  \<^item> \<open>Delivery\<close>: the three modules of a delivery with the tier of the preflight passed on.
  \<^item> \<open>Go_Float\<close>: \<open>strconv.ParseFloat\<close> and the comparison of \<open>float64\<close> values, with rounding to the nearest even
    one, infinities and NaN.
  \<^item> \<open>Build_Targets\<close> (\<open>magefile.go\<close>, \<open>magefile_release.go\<close>): the build, test and release targets.

  \<^bold>\<open>State and operations.\<close>  A Go struct is a record with the struct's fields, a Go function a
  definition of the same name (prefixed with \<open>aws_\<close>, \<open>gcp_\<close>, \<open>azure_\<close> where packages share a
  name).  A \<open>nil\<close> pointer, map or slice is \<open>None\<close> where the code tells it from an empty one.  The SDK
  clients, the Kubernetes clients, controller-runtime, Helm, the YAML decoder, the constructors and
  the environment are parameters: records of functions and of computations over the world, about which
  nothing is assumed except where a property names a hypothesis.  The order in which Go ranges
  over a map is an answer of the world (AWS targets) or the order of a list (annotations, labels,
  rendered templates).  Values are shared instead of copied everywhere but in \<open>Deep_Copy\<close>, which shows
  that this is right for the one snapshot the program takes.

  \<^bold>\<open>What the properties show.\<close> Preflight, end to end: the printed line always decodes to a report
  whose verdict recomputes, with the exit code that goes with it; a blocking red stops everything after it, calls
  included; full mode always checks the deploy target and never makes the verdict worse; a missing kubeconfig is
  always red; no command line prints green.  Through Terraform: the arguments the module builds mean what the
  variables say, but the provider leaves out empty ones, and it is said what the command makes of the rest; but for
  one such case the data source does not fail, red stops the plan if it is told to, and any other verdict gives a
  valid tier.  That tier decides between the operator, installed so that it manages exactly the namespace of the
  Workload it gets, and the chart.  Operator: a reconcile patches the status exactly once and truthfully and never
  strips a field the server owns; end to end, a Workload that renders (the schema accepts its spec, its overrides
  convert, and the texts the templates do not quote read as strings) becomes exactly its objects, live after one
  reconcile of a cluster that lets it; applying everything again changes nothing; among other writers, the replicas
  stay with the autoscaler and a return without an error still means that the chart of the Workload this reconcile
  read is applied; every document of the chart becomes an object; rendering returns.  The Role its chart gives it is
  enough for every reconcile and ends at the namespace, except that an installation with the defaults of the chart is
  refused everything.  Chart: all selectors agree, the network floor is always there, what it comes to next to the
  policies of the namespace, the Deployment follows the spec, and which admitted specs the schema rejects.  Tiers: the
  same documents but for the ingress, the disruption budget and the spelling of resources and contexts.  Build: what
  passes the coverage gate, infinity and NaN included.  Per component: the branches of the checks by the answers they
  get.  Where the code does not do what a comment or a document says, the property states what the code does.

  \<^bold>\<open>Contracts.\<close>  The hypotheses about libraries are predicates of \<open>Apply\<close>,
  \<open>Workload_Controller\<close>, \<open>Chart_Objects\<close>, \<open>Preflight_Gate\<close>,
  \<open>Workload_Module\<close>, \<open>Network_Policy\<close>, \<open>Operator_Chart\<close>,
  \<open>Platform_Module\<close> and \<open>Deep_Copy\<close>: \<open>owner_contract\<close>
  (\<open>SetControllerReference\<close> touches the owner references only), \<open>owner_reads\<close> (and it
  depends on them alone), \<open>store_contract\<close> (\<open>CreateOrUpdate\<close> runs the mutation on the live
  object and writes the result, or fails), \<open>fills_in\<close> (admission keeps what is set and, sent some of what
  it has filled in and the rest as before, gives the same object again), \<open>condition_contract\<close>
  (\<open>SetStatusCondition\<close> sets one type), \<open>patch_log\<close> and \<open>reads_only\<close> (which
  calls write), \<open>renders\<close> (Helm checks the schema, lays the values over the defaults and renders each
  template to a text that reads as its documents), \<open>external_contract\<close> (the data source runs the command
  without its empty arguments, fails with it, and passes on a flat object), \<open>spec_reads\<close> (the API server
  stores a document as the spec it spells) with \<open>canonical_form\<close> (how the API machinery writes tables
  back), \<open>names_itself\<close> (the API server labels a namespace with its name), \<open>installs\<close> (the
  values of an installation, whose unquoted texts read as strings), \<open>helm_sets\<close> (how Helm lays settings
  over the defaults of a chart), \<open>ext_contract\<close> (deep copies of Kubernetes types).  Each is shown to hold
  of a concrete instance, on which the witnesses run.

  \<^bold>\<open>Bounds and fuel.\<close>  The JSON reader takes fuel; \<open>decode\<close> gives it twice the length of the text
  plus two, and \<open>encode_reads\<close> shows that this is enough for every text the program writes, since a
  value nested in another is shorter by at least one byte and costs two steps.  The string reader
  takes the length of its input.  Scanned version numbers are bounded by 64 bits.  The decoding loop of
  the renderer has no bound: it is a partial function, and \<open>Chart_returns\<close> gives its termination.

  \<^bold>\<open>Not modelled.\<close>  The libraries above and context deadlines; the template engine and the YAML
  syntax, of which the chart only sees which plain scalars read as strings; regular expressions, so the pattern of the
  metadata address is a parameter; unbounded Unicode case folding and the printability table of
  \<open>strconv.Quote\<close> (see \<open>Go_Strings\<close>); the nesting limit of \<open>encoding/json\<close>; how
  \<open>fmt\<close> prints a floating-point number, a parameter; panics of checks; log lines; what Kubernetes
  validates in its own types; the embedding of the chart files into the binary; the CRD of the operator's chart, which
  is generated from the API types; what Terraform and its providers do with a plan, their waiting included; and the
  Terraform modules of the clouds and of the observability layer, which declare resources and have no logic of their
  own beyond conditional counts.  Access control and network policies are modelled as Kubernetes documents them,
  without admission plugins; the addresses of pods and nodes are known only as far as the network plugin compares them
  with address blocks.  What is left of the Go code is imports and constants.

  \<^bold>\<open>Plan.\<close>  Nothing substantial is left to model; new code belongs into the theory of its component.
\<close>

end
